(* ===== verification/Prelude.thy ===== *)
theory Prelude
  imports Main "HOL-Library.Word"
begin

text \<open>
  Shared vocabulary of the development: the Rust integer types as words, byte arrays as
  lists of 8-bit words, the big-endian and little-endian conversions of \<open>core::num\<close>,
  the rotations and xor-shifts the cryptographic code is built from, and the
  interfaces several components provide: \<open>inverse_pair\<close> (a permutation together with
  its inverse) and \<open>partial_codec\<close> (an encoder that may refuse, and its decoder).
  A Rust array \<open>[u8; N]\<close> is a list; its length is a hypothesis where it matters.
\<close>

unbundle bit_operations_syntax

type_synonym u8 = "8 word"
type_synonym u16 = "16 word"
type_synonym u32 = "32 word"
type_synonym u64 = "64 word"
type_synonym bytes = "u8 list"

named_theorems word_eval \<open>equations that evaluate word operations on numerals\<close>

section \<open>Byte order conversions\<close>

text \<open>
  \<open>from_be_bytes\<close> and \<open>to_be_bytes\<close> are the functions of that name on \<open>u16\<close>,
  \<open>u32\<close> and \<open>u64\<close>: most significant byte first.
\<close>

definition from_be_bytes :: "bytes \<Rightarrow> 'a::len word" where
  "from_be_bytes bs = fold (\<lambda>b acc. push_bit 8 acc OR ucast b) bs 0"

definition to_be_bytes :: "'a::len word \<Rightarrow> bytes" where
  "to_be_bytes w = map (\<lambda>i. ucast (drop_bit (8 * i) w)) (rev [0..<LENGTH('a) div 8])"

definition from_le_bytes :: "bytes \<Rightarrow> 'a::len word" where
  "from_le_bytes bs = from_be_bytes (rev bs)"

lemma from_be_bytes_snoc:
  "from_be_bytes (bs @ [b]) = push_bit 8 (from_be_bytes bs) OR ucast b"
  by (simp add: from_be_bytes_def)

lemma bit_from_be_bytes:
  "bit (from_be_bytes bs :: 'a::len word) n \<longleftrightarrow>
     n < LENGTH('a) \<and> n < 8 * length bs \<and> bit (rev bs ! (n div 8)) (n mod 8)"
proof (induction bs arbitrary: n rule: rev_induct)
  case Nil
  then show ?case by (simp add: from_be_bytes_def)
next
  case (snoc b bs)
  show ?case
  proof (cases "n < 8")
    case True
    then show ?thesis
      by (auto simp: from_be_bytes_snoc bit_simps)
  next
    case False
    then obtain m where n: "n = m + 8" by (metis add.commute le_Suc_ex not_less)
    have d: "(m + 8) div 8 = Suc (m div 8)" by simp
    show ?thesis
      unfolding from_be_bytes_snoc n
      by (auto simp: bit_simps snoc.IH d dest: bit_imp_le_length)
  qed
qed

lemma length_to_be_bytes [simp]: "length (to_be_bytes (w :: 'a::len word)) = LENGTH('a) div 8"
  by (simp add: to_be_bytes_def)

lemma nth_rev_to_be_bytes:
  "i < LENGTH('a) div 8 \<Longrightarrow> rev (to_be_bytes (w :: 'a::len word)) ! i = ucast (drop_bit (8 * i) w)"
  by (simp add: to_be_bytes_def rev_map)

lemma from_be_to_be:
  assumes "8 dvd LENGTH('a)"
  shows "from_be_bytes (to_be_bytes w) = (w :: 'a::len word)"
proof (rule bit_word_eqI)
  fix n assume n: "n < LENGTH('a)"
  with assms have "n div 8 < LENGTH('a) div 8" "n < 8 * (LENGTH('a) div 8)"
    by auto
  with n show "bit (from_be_bytes (to_be_bytes w) :: 'a word) n = bit w n"
    by (simp add: bit_from_be_bytes nth_rev_to_be_bytes bit_simps)
qed

lemma to_be_from_be:
  assumes len: "8 * length bs = LENGTH('a)"
  shows "to_be_bytes (from_be_bytes bs :: 'a::len word) = bs"
proof -
  have "rev (to_be_bytes (from_be_bytes bs :: 'a word)) = rev bs"
  proof (rule nth_equalityI)
    show "length (rev (to_be_bytes (from_be_bytes bs :: 'a word))) = length (rev bs)"
      using len by simp
  next
    fix i assume "i < length (rev (to_be_bytes (from_be_bytes bs :: 'a word)))"
    then have i: "i < LENGTH('a) div 8" by simp
    show "rev (to_be_bytes (from_be_bytes bs :: 'a word)) ! i = rev bs ! i"
    proof (rule bit_word_eqI)
      fix n assume "n < LENGTH(8)"
      then have n: "n < 8" by simp
      have "8 * i + n < LENGTH('a)" "8 * i + n < 8 * length bs" using i n len by auto
      then show "bit (rev (to_be_bytes (from_be_bytes bs :: 'a word)) ! i) n = bit (rev bs ! i) n"
        using i n by (simp add: nth_rev_to_be_bytes bit_simps bit_from_be_bytes)
    qed
  qed
  then show ?thesis by simp
qed

lemma from_be_to_be_u32 [simp]: "from_be_bytes (to_be_bytes w) = (w :: u32)"
  by (rule from_be_to_be) simp

lemma from_be_to_be_u64 [simp]: "from_be_bytes (to_be_bytes w) = (w :: u64)"
  by (rule from_be_to_be) simp

lemma to_be_from_be_u32 [simp]: "length bs = 4 \<Longrightarrow> to_be_bytes (from_be_bytes bs :: u32) = bs"
  by (rule to_be_from_be) simp

lemma to_be_from_be_u64 [simp]: "length bs = 8 \<Longrightarrow> to_be_bytes (from_be_bytes bs :: u64) = bs"
  by (rule to_be_from_be) simp

lemma to_be_bytes_inject_u32 [simp]: "to_be_bytes v = to_be_bytes w \<longleftrightarrow> v = (w :: u32)"
  by (metis from_be_to_be_u32)

lemma to_be_bytes_inject_u64 [simp]: "to_be_bytes v = to_be_bytes w \<longleftrightarrow> v = (w :: u64)"
  by (metis from_be_to_be_u64)

lemma from_be_bytes_inject_u32:
  "length a = 4 \<Longrightarrow> length b = 4 \<Longrightarrow> (from_be_bytes a :: u32) = from_be_bytes b \<longleftrightarrow> a = b"
  by (metis to_be_from_be_u32)

lemma from_be_eq_iff_u32: "length bs = 4 \<Longrightarrow> from_be_bytes bs = (w :: u32) \<longleftrightarrow> to_be_bytes w = bs"
  by (metis from_be_to_be_u32 to_be_from_be_u32)

lemma from_be_eq_iff_u64: "length bs = 8 \<Longrightarrow> from_be_bytes bs = (w :: u64) \<longleftrightarrow> to_be_bytes w = bs"
  by (metis from_be_to_be_u64 to_be_from_be_u64)

section \<open>Small index ranges\<close>

lemma less_4_cases: "(i::nat) < 4 \<Longrightarrow> i = 0 \<or> i = 1 \<or> i = 2 \<or> i = 3"
  by presburger

lemma less_16_cases:
  assumes "(n::nat) < 16"
  shows "n \<in> {0, 1, 2, 3, 4, 5, 6, 7, 8, 9, 10, 11, 12, 13, 14, 15}"
  using assms unfolding insert_iff empty_iff by presburger

lemma upt_16: "[0..<16] = [0, 1, 2, 3, 4, 5, 6, 7, 8, 9, 10, 11, 12, 13, 14, 15]"
  by (simp add: upt_rec)

lemma length_4_exhaust:
  assumes "length xs = 4"
  obtains a b c d where "xs = [a, b, c, d]"
  using assms by (auto simp: numeral_eq_Suc length_Suc_conv)

section \<open>Bits of words\<close>

lemma and_0xF: "(w :: 'a::len word) AND 0xF = take_bit 4 w"
  by (simp add: take_bit_eq_mask mask_eq_exp_minus_1)

lemma and_0xFFFF: "(w :: 'a::len word) AND 0xFFFF = take_bit 16 w"
  by (simp add: take_bit_eq_mask mask_eq_exp_minus_1)

lemma and_0xFFFFFF: "(w :: 'a::len word) AND 0xFFFFFF = take_bit 24 w"
  by (simp add: take_bit_eq_mask mask_eq_exp_minus_1)

lemma word_of_nat_unat: "(word_of_nat (unat w) :: 'b::len word) = ucast (w :: 'a::len word)"
  by (rule bit_word_eqI) (simp add: bit_simps)

lemma unat_ucast_up:
  "LENGTH('a) \<le> LENGTH('b) \<Longrightarrow> unat (ucast (w :: 'a::len word) :: 'b::len word) = unat w"
  by (rule bit_eqI) (auto simp: bit_simps dest: bit_imp_le_length)

lemma not_bit_beyond: "LENGTH('a) \<le> n \<Longrightarrow> \<not> bit (w :: 'a::len word) n"
  by (meson bit_imp_le_length not_le)

lemma bit_foldr_or: "bit (foldr (OR) ws (0 :: 'a::len word)) n \<longleftrightarrow> (\<exists>w\<in>set ws. bit w n)"
  by (induction ws) (auto simp: bit_simps)

lemma xor_cancel_right: "(a XOR b) XOR b = (a :: 'a::len word)"
  by (simp add: xor.assoc)

lemma xor_inject_right: "a XOR c = b XOR c \<longleftrightarrow> a = (b :: 'a::len word)"
  by (metis xor_cancel_right)

lemma xor_eq_0_iff: "a XOR b = 0 \<longleftrightarrow> a = (b :: 'a::len word)"
  by (metis xor_cancel_right xor.left_neutral xor_self_eq)

text \<open>The value of a rotation in terms of shifts, for evaluation on numerals.\<close>

lemma word_rotl_eval [word_eval]:
  "n < LENGTH('a) \<Longrightarrow> word_rotl n (w :: 'a::len word) = push_bit n w OR drop_bit (LENGTH('a) - n) w"
  by (rule bit_word_eqI) (auto simp: bit_simps mod_if not_less ac_simps dest: bit_imp_le_length)

lemma word_rotr_eval [word_eval]:
  "n < LENGTH('a) \<Longrightarrow> word_rotr n (w :: 'a::len word) = drop_bit n w OR push_bit (LENGTH('a) - n) w"
  by (rule bit_word_eqI) (auto simp: bit_simps mod_if not_less ac_simps dest: bit_imp_le_length)

section \<open>Permutations with an explicit inverse\<close>

text \<open>
  The interface of an invertible transformation. Every layer of the block cipher, the
  cipher itself, the SipHash round and the splitmix64 mixer provide it; the clients use
  injectivity, bijectivity and the exchange law proved here once.
\<close>

locale inverse_pair =
  fixes f :: "'a \<Rightarrow> 'b" and g :: "'b \<Rightarrow> 'a"
  assumes inverse_left: "g (f x) = x"
    and inverse_right: "f (g y) = y"
begin

lemma forward_inject: "f x = f y \<longleftrightarrow> x = y"
  by (metis inverse_left)

lemma backward_inject: "g x = g y \<longleftrightarrow> x = y"
  by (metis inverse_right)

lemma forward_eq_iff: "f x = y \<longleftrightarrow> x = g y"
  by (metis inverse_left inverse_right)

lemma bij_forward: "bij f"
  by (rule o_bij [of g]) (simp_all add: fun_eq_iff inverse_left inverse_right)

end

lemma inverse_pair_comp:
  "inverse_pair f g \<Longrightarrow> inverse_pair f' g' \<Longrightarrow> inverse_pair (\<lambda>x. f' (f x)) (\<lambda>y. g (g' y))"
  by (simp add: inverse_pair_def)

lemma inverse_pair_xor: "inverse_pair (\<lambda>x. x XOR k) (\<lambda>x. x XOR (k :: 'a::len word))"
  by unfold_locales (simp_all add: xor_cancel_right)

lemma inverse_pair_rot: "inverse_pair (word_rotl k) (word_rotr k)"
  by unfold_locales simp_all

text \<open>
  A right xor-shift is inverted by xor-ing the shifts by all multiples of \<open>k\<close>; at
  width 64 and \<open>22 \<le> k\<close> two terms are enough. A multiplication is inverted by
  multiplying with the inverse modulo \<open>2\<^sup>6\<^sup>4\<close>.
\<close>

lemma inverse_pair_xorshift:
  assumes "LENGTH('a) \<le> 3 * k"
  shows "inverse_pair (\<lambda>x :: 'a::len word. x XOR drop_bit k x)
    (\<lambda>x. x XOR drop_bit k x XOR drop_bit (2 * k) x)"
proof -
  have z: "drop_bit (k * 3) x = 0" for x :: "'a word"
    using assms by (intro drop_bit_word_beyond) simp
  have e: "k + k = k * 2" by simp
  show ?thesis
    by unfold_locales (simp_all add: drop_bit_xor ac_simps z e)
qed

lemma inverse_pair_mult:
  "a * b = 1 \<Longrightarrow> inverse_pair (\<lambda>x :: 'a::len word. x * a) (\<lambda>x. x * b)"
  by unfold_locales (simp_all add: mult.assoc mult.commute [of b])

section \<open>Partial codecs\<close>

text \<open>
  The interface of an encoding that may refuse its input: on well-formed codewords the
  decoder accepts exactly what the encoder produces. Round trip, injectivity, rejection of
  everything else and the number of accepted codewords follow.
\<close>

locale partial_codec =
  fixes enc :: "'a \<Rightarrow> 'b option" and dec :: "'b \<Rightarrow> 'a option" and wf_code :: "'b \<Rightarrow> bool"
  assumes enc_wf: "enc a = Some b \<Longrightarrow> wf_code b"
    and dec_iff: "wf_code b \<Longrightarrow> dec b = Some a \<longleftrightarrow> enc a = Some b"
begin

lemma dec_enc: "enc a = Some b \<Longrightarrow> dec b = Some a"
  using enc_wf dec_iff by blast

lemma enc_inject: "enc a = Some b \<Longrightarrow> enc a' = Some b \<Longrightarrow> a = a'"
  using dec_enc [of a b] dec_enc [of a' b] by simp

lemma dec_rejects: "wf_code b \<Longrightarrow> (\<And>a. enc a \<noteq> Some b) \<Longrightarrow> dec b = None"
  using dec_iff by (metis not_None_eq)

lemma card_accepted: "card {b. wf_code b \<and> dec b \<noteq> None} = card {a. enc a \<noteq> None}"
proof -
  have "bij_betw (\<lambda>a. the (enc a)) {a. enc a \<noteq> None} {b. wf_code b \<and> dec b \<noteq> None}"
    by (rule bij_betw_byWitness [where f' = "\<lambda>b. the (dec b)"])
      (auto simp: dec_enc dec_iff enc_wf)
  then show ?thesis by (simp add: bij_betw_same_card)
qed

end

end
