(* ===== verification/Prince.thy ===== *)
theory Prince
  imports Prelude
begin

text \<open>
  The PRINCE block cipher of \<open>common/src/crypto.rs\<close> (64-bit block, 128-bit key,
  12 rounds). The definitions follow the Rust functions one by one; table lookups are list
  indexing, which is in range because the index is masked to four bits. The lemmas show
  that each layer is a permutation with the inverse the code pairs it with, and the
  alpha-reflection property that lets \<open>prince_decrypt\<close> reuse the encryption core.
\<close>

section \<open>Tables and layers\<close>

definition RC :: "u64 list" where
  "RC = [0x0000000000000000, 0x13198a2e03707344, 0xa4093822299f31d0, 0x082efa98ec4e6c89,
         0x452821e638d01377, 0xbe5466cf34e90c6c, 0x7ef84f78fd955cb1, 0x85840851f1ac43aa,
         0xc882d32f25323c54, 0x64a51195e0e3610d, 0xd3b5a399ca0c2399, 0xc0ac29b7c97c50dd]"

definition ALPHA :: u64 where
  "ALPHA = 0xc0ac29b7c97c50dd"

definition SBOX :: "u8 list" where
  "SBOX = [0xB, 0xF, 0x3, 0x2, 0xA, 0xC, 0x9, 0x1, 0x6, 0x7, 0x8, 0x0, 0xE, 0x5, 0xD, 0x4]"

definition SBOX_INV :: "u8 list" where
  "SBOX_INV = [0xB, 0x7, 0x3, 0x2, 0xF, 0xD, 0x8, 0x9, 0xA, 0x6, 0x4, 0x0, 0x5, 0xE, 0xC, 0x1]"

text \<open>One nibble of the state, and its substitution at bit position \<open>k\<close>:
  \<open>(SBOX[((x >> k) & 0xF) as usize] as u64) << k\<close>.\<close>

definition nibble :: "u64 \<Rightarrow> nat \<Rightarrow> nat" where
  "nibble x k = unat (drop_bit k x AND 0xF)"

definition subst_nibble :: "u8 list \<Rightarrow> u64 \<Rightarrow> nat \<Rightarrow> u64" where
  "subst_nibble T x k = push_bit k (ucast (T ! nibble x k))"

definition sbox_layer :: "u64 \<Rightarrow> u64" where
  "sbox_layer x =
     subst_nibble SBOX x 0
       OR subst_nibble SBOX x 4
       OR subst_nibble SBOX x 8
       OR subst_nibble SBOX x 12
       OR subst_nibble SBOX x 16
       OR subst_nibble SBOX x 20
       OR subst_nibble SBOX x 24
       OR subst_nibble SBOX x 28
       OR subst_nibble SBOX x 32
       OR subst_nibble SBOX x 36
       OR subst_nibble SBOX x 40
       OR subst_nibble SBOX x 44
       OR subst_nibble SBOX x 48
       OR subst_nibble SBOX x 52
       OR subst_nibble SBOX x 56
       OR subst_nibble SBOX x 60"

definition sbox_inv_layer :: "u64 \<Rightarrow> u64" where
  "sbox_inv_layer x =
     subst_nibble SBOX_INV x 0
       OR subst_nibble SBOX_INV x 4
       OR subst_nibble SBOX_INV x 8
       OR subst_nibble SBOX_INV x 12
       OR subst_nibble SBOX_INV x 16
       OR subst_nibble SBOX_INV x 20
       OR subst_nibble SBOX_INV x 24
       OR subst_nibble SBOX_INV x 28
       OR subst_nibble SBOX_INV x 32
       OR subst_nibble SBOX_INV x 36
       OR subst_nibble SBOX_INV x 40
       OR subst_nibble SBOX_INV x 44
       OR subst_nibble SBOX_INV x 48
       OR subst_nibble SBOX_INV x 52
       OR subst_nibble SBOX_INV x 56
       OR subst_nibble SBOX_INV x 60"

definition M_HAT_0 :: "u16 list" where
  "M_HAT_0 = [0x0111, 0x2220, 0x4404, 0x8088, 0x1011, 0x0222, 0x4440, 0x8808,
              0x1101, 0x2022, 0x0444, 0x8880, 0x1110, 0x2202, 0x4044, 0x0888]"

definition M_HAT_1 :: "u16 list" where
  "M_HAT_1 = [0x1110, 0x2202, 0x4044, 0x0888, 0x0111, 0x2220, 0x4404, 0x8088,
              0x1011, 0x0222, 0x4440, 0x8808, 0x1101, 0x2022, 0x0444, 0x8880]"

definition gf2_mat_mul :: "u16 \<Rightarrow> u16 list \<Rightarrow> u16" where
  "gf2_mat_mul val cols =
     (let out = 0 in
      let out = out XOR (cols ! 0 AND - (val AND 1)) in
      let out = out XOR (cols ! 1 AND - (drop_bit 1 val AND 1)) in
      let out = out XOR (cols ! 2 AND - (drop_bit 2 val AND 1)) in
      let out = out XOR (cols ! 3 AND - (drop_bit 3 val AND 1)) in
      let out = out XOR (cols ! 4 AND - (drop_bit 4 val AND 1)) in
      let out = out XOR (cols ! 5 AND - (drop_bit 5 val AND 1)) in
      let out = out XOR (cols ! 6 AND - (drop_bit 6 val AND 1)) in
      let out = out XOR (cols ! 7 AND - (drop_bit 7 val AND 1)) in
      let out = out XOR (cols ! 8 AND - (drop_bit 8 val AND 1)) in
      let out = out XOR (cols ! 9 AND - (drop_bit 9 val AND 1)) in
      let out = out XOR (cols ! 10 AND - (drop_bit 10 val AND 1)) in
      let out = out XOR (cols ! 11 AND - (drop_bit 11 val AND 1)) in
      let out = out XOR (cols ! 12 AND - (drop_bit 12 val AND 1)) in
      let out = out XOR (cols ! 13 AND - (drop_bit 13 val AND 1)) in
      let out = out XOR (cols ! 14 AND - (drop_bit 14 val AND 1)) in
      let out = out XOR (cols ! 15 AND - (drop_bit 15 val AND 1)) in
      out)"

definition m_prime :: "u64 \<Rightarrow> u64" where
  "m_prime x =
     (let c0 = ucast (x AND 0xFFFF);
          c1 = ucast (drop_bit 16 x AND 0xFFFF);
          c2 = ucast (drop_bit 32 x AND 0xFFFF);
          c3 = ucast (drop_bit 48 x AND 0xFFFF);
          r0 = ucast (gf2_mat_mul c0 M_HAT_0);
          r1 = ucast (gf2_mat_mul c1 M_HAT_1);
          r2 = ucast (gf2_mat_mul c2 M_HAT_1);
          r3 = ucast (gf2_mat_mul c3 M_HAT_0)
      in r0 OR push_bit 16 r1 OR push_bit 32 r2 OR push_bit 48 r3)"

definition ROW_MASK :: "u64 list" where
  "ROW_MASK = [0xF000F000F000F000, 0x0F000F000F000F00, 0x00F000F000F000F0, 0x000F000F000F000F]"

definition shift_rows :: "u64 \<Rightarrow> u64" where
  "shift_rows x =
     (let row0 = x AND ROW_MASK ! 0;
          row1 = x AND ROW_MASK ! 1;
          row2 = x AND ROW_MASK ! 2;
          row3 = x AND ROW_MASK ! 3
      in row0 OR word_rotl 16 row1 OR word_rotr 32 row2 OR word_rotr 16 row3)"

definition shift_rows_inv :: "u64 \<Rightarrow> u64" where
  "shift_rows_inv x =
     (let row0 = x AND ROW_MASK ! 0;
          row1 = x AND ROW_MASK ! 1;
          row2 = x AND ROW_MASK ! 2;
          row3 = x AND ROW_MASK ! 3
      in row0 OR word_rotr 16 row1 OR word_rotl 32 row2 OR word_rotl 16 row3)"

definition m_layer :: "u64 \<Rightarrow> u64" where
  "m_layer x = shift_rows (m_prime x)"

definition m_layer_inv :: "u64 \<Rightarrow> u64" where
  "m_layer_inv x = m_prime (shift_rows_inv x)"

section \<open>The cipher\<close>

definition prince_core_encrypt :: "u64 \<Rightarrow> u64 \<Rightarrow> u64" where
  "prince_core_encrypt block k1 =
     (let s = block;
          s = s XOR (k1 XOR RC ! 0);
          s = m_layer (sbox_layer s) XOR (RC ! 1 XOR k1);
          s = m_layer (sbox_layer s) XOR (RC ! 2 XOR k1);
          s = m_layer (sbox_layer s) XOR (RC ! 3 XOR k1);
          s = m_layer (sbox_layer s) XOR (RC ! 4 XOR k1);
          s = m_layer (sbox_layer s) XOR (RC ! 5 XOR k1);
          s = sbox_layer s;
          s = m_prime s;
          s = sbox_inv_layer s;
          s = sbox_inv_layer (m_layer_inv (s XOR (k1 XOR RC ! 6)));
          s = sbox_inv_layer (m_layer_inv (s XOR (k1 XOR RC ! 7)));
          s = sbox_inv_layer (m_layer_inv (s XOR (k1 XOR RC ! 8)));
          s = sbox_inv_layer (m_layer_inv (s XOR (k1 XOR RC ! 9)));
          s = sbox_inv_layer (m_layer_inv (s XOR (k1 XOR RC ! 10)));
          s = s XOR (k1 XOR RC ! 11)
      in s)"

definition prince_encrypt :: "u64 \<Rightarrow> bytes \<Rightarrow> u64" where
  "prince_encrypt block key =
     (let k0 = from_be_bytes (take 8 key);
          k1 = from_be_bytes (take 8 (drop 8 key));
          k0_prime = word_rotr 1 k0 XOR drop_bit 63 k0;
          input = block XOR k0;
          core_out = prince_core_encrypt input k1
      in core_out XOR k0_prime)"

definition prince_decrypt :: "u64 \<Rightarrow> bytes \<Rightarrow> u64" where
  "prince_decrypt block key =
     (let k0 = from_be_bytes (take 8 key);
          k1 = from_be_bytes (take 8 (drop 8 key));
          k0_prime = word_rotr 1 k0 XOR drop_bit 63 k0;
          k1_dec = k1 XOR ALPHA;
          input = block XOR k0_prime;
          core_out = prince_core_encrypt input k1_dec
      in core_out XOR k0)"

section \<open>Substitution layers\<close>

text \<open>The two substitution layers are instances of one table-driven layer.\<close>

definition subst_layer :: "u8 list \<Rightarrow> u64 \<Rightarrow> u64" where
  "subst_layer T x = foldr (OR) (map (subst_nibble T x) (map ((*) 4) [0..<16])) 0"

definition nibble_table :: "u8 list \<Rightarrow> bool" where
  "nibble_table T \<longleftrightarrow> length T = 16 \<and> (\<forall>b\<in>set T. b AND 0xF = b)"

lemma sbox_layer_subst: "sbox_layer x = subst_layer SBOX x"
  by (simp add: sbox_layer_def subst_layer_def upt_16)

lemma sbox_inv_layer_subst: "sbox_inv_layer x = subst_layer SBOX_INV x"
  by (simp add: sbox_inv_layer_def subst_layer_def upt_16)

lemma nibble_table_SBOX: "nibble_table SBOX" "nibble_table SBOX_INV"
  by (simp_all add: nibble_table_def SBOX_def SBOX_INV_def)

lemma nibble_less: "nibble x k < 16"
proof -
  have "drop_bit k x AND 0xF \<le> 0xF" by (rule word_and_le1)
  then show ?thesis by (simp add: nibble_def word_le_nat_alt)
qed

lemma bit_of_nibble:
  "n < LENGTH('a) \<Longrightarrow> bit (word_of_nat (nibble x k) :: 'a::len word) n \<longleftrightarrow> n < 4 \<and> bit x (k + n)"
  by (auto simp: nibble_def word_of_nat_unat and_0xF bit_simps dest: bit_imp_le_length)

lemma bit_nibble_table:
  assumes T: "nibble_table T" and b: "bit (T ! nibble x k) i"
  shows "i < 4"
proof -
  have "T ! nibble x k \<in> set T" using T nibble_less by (simp add: nibble_table_def)
  then have "T ! nibble x k AND 0xF = T ! nibble x k" using T by (simp add: nibble_table_def)
  with b have "bit (T ! nibble x k AND 0xF) i" by simp
  then show "i < 4" by (simp add: and_0xF bit_take_bit_iff)
qed

lemma bit_subst_nibble:
  assumes "nibble_table T"
  shows "bit (subst_nibble T x (4 * i)) n \<longleftrightarrow>
    i = n div 4 \<and> n < 64 \<and> bit (T ! nibble x (4 * i)) (n mod 4)"
proof (cases "4 * i \<le> n \<and> n < 4 * i + 4")
  case True
  then have "n div 4 = i" "n mod 4 = n - 4 * i" by (presburger, presburger)
  with True show ?thesis by (auto simp: subst_nibble_def bit_simps dest: bit_imp_le_length)
next
  case False
  then have "n div 4 \<noteq> i" by presburger
  with False bit_nibble_table [OF assms, of x "4 * i" "n - 4 * i"] show ?thesis
    by (auto simp: subst_nibble_def bit_simps)
qed

lemma bit_subst_layer:
  assumes "nibble_table T"
  shows "bit (subst_layer T x) n \<longleftrightarrow> n < 64 \<and> bit (T ! nibble x (4 * (n div 4))) (n mod 4)"
  unfolding subst_layer_def bit_foldr_or by (auto simp: bit_subst_nibble [OF assms])

lemma nibble_subst_layer:
  assumes T: "nibble_table T" and i: "i < 16"
  shows "nibble (subst_layer T x) (4 * i) = unat (T ! nibble x (4 * i))"
proof -
  have "drop_bit (4 * i) (subst_layer T x) AND 0xF = ucast (T ! nibble x (4 * i))"
  proof (rule bit_word_eqI)
    fix n assume n: "n < LENGTH(64)"
    have "n < 4 \<Longrightarrow> (4 * i + n) div 4 = i \<and> (4 * i + n) mod 4 = n" by simp
    then show "bit (drop_bit (4 * i) (subst_layer T x) AND 0xF) n
        = bit (ucast (T ! nibble x (4 * i)) :: u64) n"
      using i n bit_nibble_table [OF T, of x "4 * i" n]
      by (auto simp: and_0xF bit_simps bit_subst_layer [OF T])
  qed
  then show ?thesis by (simp add: nibble_def unat_ucast_up)
qed

lemma subst_layer_inverse:
  assumes T: "nibble_table T" and T': "nibble_table T'"
    and inv: "\<And>k. k < 16 \<Longrightarrow> T' ! unat (T ! k) = word_of_nat k"
  shows "subst_layer T' (subst_layer T x) = x"
proof (rule bit_word_eqI)
  fix n assume "n < LENGTH(64)"
  then have n: "n < 64" "n div 4 < 16" by auto
  have "bit (subst_layer T' (subst_layer T x)) n
      \<longleftrightarrow> bit (word_of_nat (nibble x (4 * (n div 4))) :: u8) (n mod 4)"
    using n by (simp add: bit_subst_layer [OF T'] nibble_subst_layer [OF T] inv nibble_less)
  also have "\<dots> \<longleftrightarrow> bit x n"
    using n by (subst bit_of_nibble) (simp_all add: mod_less)
  finally show "bit (subst_layer T' (subst_layer T x)) n = bit x n" .
qed

lemma SBOX_INV_SBOX: "k < 16 \<Longrightarrow> SBOX_INV ! unat (SBOX ! k) = word_of_nat k"
  by (drule less_16_cases) (elim insertE emptyE; simp add: SBOX_def SBOX_INV_def)

lemma SBOX_SBOX_INV: "k < 16 \<Longrightarrow> SBOX ! unat (SBOX_INV ! k) = word_of_nat k"
  by (drule less_16_cases) (elim insertE emptyE; simp add: SBOX_def SBOX_INV_def)

interpretation sb: inverse_pair sbox_layer sbox_inv_layer
  by unfold_locales
    (simp_all add: sbox_layer_subst sbox_inv_layer_subst
      subst_layer_inverse [OF nibble_table_SBOX SBOX_INV_SBOX]
      subst_layer_inverse [OF nibble_table_SBOX(2,1) SBOX_SBOX_INV])

section \<open>The M' layer\<close>

text \<open>A masked column of the matrix product, and the product's bits.\<close>

lemma and_neg_bit:
  "(c AND - (drop_bit k v AND 1)) = (if bit v k then c else (0 :: 'a::len word))"
  by (simp add: and_one_eq bit_iff_odd_drop_bit mod_2_eq_odd)

lemma and_neg_bit_0:
  "(c AND - (v AND 1)) = (if bit v 0 then c else (0 :: 'a::len word))"
  using and_neg_bit [of c 0 v] by simp

lemma bit_if_zero: "bit (if b then c else (0 :: 'a::len word)) n \<longleftrightarrow> b \<and> bit c n"
  by simp

lemma bit_gf2_mat_mul:
  "bit (gf2_mat_mul v cols) n \<longleftrightarrow>
     ((((((((((((((((bit v 0 \<and> bit (cols ! 0) n)
     \<noteq> (bit v 1 \<and> bit (cols ! 1) n))
     \<noteq> (bit v 2 \<and> bit (cols ! 2) n))
     \<noteq> (bit v 3 \<and> bit (cols ! 3) n))
     \<noteq> (bit v 4 \<and> bit (cols ! 4) n))
     \<noteq> (bit v 5 \<and> bit (cols ! 5) n))
     \<noteq> (bit v 6 \<and> bit (cols ! 6) n))
     \<noteq> (bit v 7 \<and> bit (cols ! 7) n))
     \<noteq> (bit v 8 \<and> bit (cols ! 8) n))
     \<noteq> (bit v 9 \<and> bit (cols ! 9) n))
     \<noteq> (bit v 10 \<and> bit (cols ! 10) n))
     \<noteq> (bit v 11 \<and> bit (cols ! 11) n))
     \<noteq> (bit v 12 \<and> bit (cols ! 12) n))
     \<noteq> (bit v 13 \<and> bit (cols ! 13) n))
     \<noteq> (bit v 14 \<and> bit (cols ! 14) n))
     \<noteq> (bit v 15 \<and> bit (cols ! 15) n))"
  unfolding gf2_mat_mul_def Let_def and_neg_bit and_neg_bit_0 bit_xor_iff bit_if_zero
  by (simp add: bit_drop_bit_eq)

lemma gf2_mat_mul_M_HAT_0: "gf2_mat_mul (gf2_mat_mul v M_HAT_0) M_HAT_0 = v"
proof (rule bit_word_eqI)
  fix n assume "n < LENGTH(16)"
  then have "n < 16" by simp
  from less_16_cases [OF this]
  show "bit (gf2_mat_mul (gf2_mat_mul v M_HAT_0) M_HAT_0) n = bit v n"
    by (elim insertE emptyE) (simp add: bit_gf2_mat_mul M_HAT_0_def, argo?)+
qed

lemma gf2_mat_mul_M_HAT_1: "gf2_mat_mul (gf2_mat_mul v M_HAT_1) M_HAT_1 = v"
proof (rule bit_word_eqI)
  fix n assume "n < LENGTH(16)"
  then have "n < 16" by simp
  from less_16_cases [OF this]
  show "bit (gf2_mat_mul (gf2_mat_mul v M_HAT_1) M_HAT_1) n = bit v n"
    by (elim insertE emptyE) (simp add: bit_gf2_mat_mul M_HAT_1_def, argo?)+
qed

text \<open>\<open>m_prime\<close> acts on the four 16-bit chunks of the state independently.\<close>

definition chunk :: "u64 \<Rightarrow> nat \<Rightarrow> u16" where
  "chunk x i = ucast (drop_bit (16 * i) x)"

definition M_HAT :: "nat \<Rightarrow> u16 list" where
  "M_HAT i = (if i = 0 \<or> i = 3 then M_HAT_0 else M_HAT_1)"

lemma chunk_eqI:
  assumes "\<And>i. i < 4 \<Longrightarrow> chunk x i = chunk y i"
  shows "x = y"
proof (rule bit_word_eqI)
  fix n assume "n < LENGTH(64)"
  then have "n div 16 < 4" by simp
  with assms have "bit (chunk x (n div 16)) (n mod 16) = bit (chunk y (n div 16)) (n mod 16)"
    by simp
  then show "bit x n = bit y n" by (simp add: chunk_def bit_simps)
qed

lemma chunk_m_prime:
  assumes i: "i < 4"
  shows "chunk (m_prime x) i = gf2_mat_mul (chunk x i) (M_HAT i)"
proof (rule bit_word_eqI)
  fix n assume n: "n < LENGTH(16)"
  have c: "ucast (x AND 0xFFFF) = chunk x 0" "ucast (drop_bit 16 x AND 0xFFFF) = chunk x 1"
    "ucast (drop_bit 32 x AND 0xFFFF) = chunk x 2" "ucast (drop_bit 48 x AND 0xFFFF) = chunk x 3"
    by (auto simp: chunk_def and_0xFFFF intro!: bit_word_eqI simp: bit_simps)
  from less_4_cases [OF i] n
  show "bit (chunk (m_prime x) i) n = bit (gf2_mat_mul (chunk x i) (M_HAT i)) n"
    unfolding m_prime_def Let_def c M_HAT_def
    by (elim disjE) (auto simp: chunk_def [of "_ OR _"] bit_simps dest: bit_imp_le_length)
qed

lemma m_prime_involution: "m_prime (m_prime x) = x"
  by (rule chunk_eqI)
    (simp add: chunk_m_prime M_HAT_def gf2_mat_mul_M_HAT_0 gf2_mat_mul_M_HAT_1)

section \<open>Shift rows\<close>

text \<open>A state assembled from four rows, each taken from its own word.\<close>

definition rows :: "u64 \<Rightarrow> u64 \<Rightarrow> u64 \<Rightarrow> u64 \<Rightarrow> u64" where
  "rows a b c d =
     (a AND ROW_MASK ! 0) OR (b AND ROW_MASK ! 1) OR (c AND ROW_MASK ! 2) OR (d AND ROW_MASK ! 3)"

lemma row_mask_rot:
  assumes "r < 4" "k \<in> {16, 32}"
  shows "word_rotl k (ROW_MASK ! r) = ROW_MASK ! r"
    and "word_rotr k (ROW_MASK ! r) = ROW_MASK ! r"
proof -
  show "word_rotl k (ROW_MASK ! r) = ROW_MASK ! r"
    using less_4_cases [OF assms(1)] assms(2)
    by (elim disjE insertE emptyE; simp add: ROW_MASK_def word_eval)
  then show "word_rotr k (ROW_MASK ! r) = ROW_MASK ! r"
    by (metis word_rot_lr)
qed

lemma row_masks:
  "ROW_MASK ! 0 AND ROW_MASK ! 1 = 0" "ROW_MASK ! 0 AND ROW_MASK ! 2 = 0"
  "ROW_MASK ! 0 AND ROW_MASK ! 3 = 0" "ROW_MASK ! 1 AND ROW_MASK ! 2 = 0"
  "ROW_MASK ! 1 AND ROW_MASK ! 3 = 0" "ROW_MASK ! 2 AND ROW_MASK ! 3 = 0"
  "ROW_MASK ! 0 OR ROW_MASK ! 1 OR ROW_MASK ! 2 OR ROW_MASK ! 3 = -1"
  by (simp_all add: ROW_MASK_def)

lemma rot_rows:
  assumes "k \<in> {16, 32}"
  shows "word_rotl k (rows a b c d)
      = rows (word_rotl k a) (word_rotl k b) (word_rotl k c) (word_rotl k d)"
    and "word_rotr k (rows a b c d)
      = rows (word_rotr k a) (word_rotr k b) (word_rotr k c) (word_rotr k d)"
  using row_mask_rot [of _ k] assms by (simp_all add: rows_def word_rot_logs)

lemma rows_rows:
  "rows (rows a a1 a2 a3) (rows b0 b b2 b3) (rows c0 c1 c c3) (rows d0 d1 d2 d) = rows a b c d"
  using row_masks(1-6) by (auto simp: rows_def bit_eq_iff bit_simps)

lemma rows_same: "rows a a a a = a"
  using row_masks(7) by (simp add: rows_def flip: bit.conj_disj_distrib)

lemma shift_rows_rows: "shift_rows x = rows x (word_rotl 16 x) (word_rotr 32 x) (word_rotr 16 x)"
  by (simp add: shift_rows_def rows_def word_rot_logs row_mask_rot)

lemma shift_rows_inv_rows:
  "shift_rows_inv x = rows x (word_rotr 16 x) (word_rotl 32 x) (word_rotl 16 x)"
  by (simp add: shift_rows_inv_def rows_def word_rot_logs row_mask_rot)

interpretation sr: inverse_pair shift_rows shift_rows_inv
  by unfold_locales
    (simp_all add: shift_rows_rows shift_rows_inv_rows rot_rows rows_rows rows_same)

interpretation ml: inverse_pair m_layer m_layer_inv
  by unfold_locales
    (simp_all add: m_layer_def m_layer_inv_def m_prime_involution sr.inverse_left sr.inverse_right)

section \<open>Alpha reflection\<close>

text \<open>
  The forward and inverse rounds as functions, so that the core is a composition of
  permutations. Under the reflected key \<open>k1 XOR ALPHA\<close> every forward round undoes the
  inverse round at the mirrored position, because the round constants satisfy
  \<open>RC[11 - i] = RC[i] XOR ALPHA\<close>.
\<close>

definition fwd_round :: "u64 \<Rightarrow> nat \<Rightarrow> u64 \<Rightarrow> u64" where
  "fwd_round k i s = m_layer (sbox_layer s) XOR (RC ! i XOR k)"

definition bwd_round :: "u64 \<Rightarrow> nat \<Rightarrow> u64 \<Rightarrow> u64" where
  "bwd_round k i s = sbox_inv_layer (m_layer_inv (s XOR (k XOR RC ! i)))"

definition middle :: "u64 \<Rightarrow> u64" where
  "middle s = sbox_inv_layer (m_prime (sbox_layer s))"

lemma prince_core_rounds:
  "prince_core_encrypt block k =
     bwd_round k 10 (bwd_round k 9 (bwd_round k 8 (bwd_round k 7 (bwd_round k 6 (middle
       (fwd_round k 5 (fwd_round k 4 (fwd_round k 3 (fwd_round k 2 (fwd_round k 1
         (block XOR (k XOR RC ! 0))))))))))))
     XOR (k XOR RC ! 11)"
  by (simp add: prince_core_encrypt_def fwd_round_def bwd_round_def middle_def Let_def)

lemma RC_reflect: "i \<le> 11 \<Longrightarrow> RC ! (11 - i) = RC ! i XOR ALPHA"
proof -
  assume i: "i \<le> 11"
  then have "i < 16" by simp
  from less_16_cases [OF this] i show ?thesis
    by (elim insertE emptyE) (simp_all add: RC_def ALPHA_def)
qed

lemma whiten_reflect:
  "i \<le> 11 \<Longrightarrow> (x XOR (k XOR RC ! i)) XOR ((k XOR ALPHA) XOR RC ! (11 - i)) = x"
  by (simp add: RC_reflect ac_simps)

lemma fwd_bwd_reflect:
  "i \<le> 11 \<Longrightarrow> fwd_round (k XOR ALPHA) (11 - i) (bwd_round k i s) = s"
  by (simp add: fwd_round_def bwd_round_def sb.inverse_right ml.inverse_right whiten_reflect
      xor.commute [of "RC ! _"])

lemma bwd_fwd_reflect:
  "i \<le> 11 \<Longrightarrow> bwd_round (k XOR ALPHA) (11 - i) (fwd_round k i s) = s"
  by (simp add: fwd_round_def bwd_round_def whiten_reflect xor.commute [of "RC ! _"]
      sb.inverse_left ml.inverse_left)

lemmas reflect =
  fwd_bwd_reflect [of 10, simplified] fwd_bwd_reflect [of 9, simplified]
  fwd_bwd_reflect [of 8, simplified] fwd_bwd_reflect [of 7, simplified]
  fwd_bwd_reflect [of 6, simplified]
  bwd_fwd_reflect [of 5, simplified] bwd_fwd_reflect [of 4, simplified]
  bwd_fwd_reflect [of 3, simplified] bwd_fwd_reflect [of 2, simplified]
  bwd_fwd_reflect [of 1, simplified]
  whiten_reflect [of 11, simplified] whiten_reflect [of 0, simplified]

lemma middle_involution: "middle (middle s) = s"
  by (simp add: middle_def sb.inverse_left sb.inverse_right m_prime_involution)

lemma prince_core_reflection:
  "prince_core_encrypt (prince_core_encrypt s k) (k XOR ALPHA) = s"
  by (simp add: prince_core_rounds reflect middle_involution)

lemma prince_core_reflection':
  "prince_core_encrypt (prince_core_encrypt s (k XOR ALPHA)) k = s"
  using prince_core_reflection [of s "k XOR ALPHA"] by (simp add: xor_cancel_right)

interpretation prince: inverse_pair "\<lambda>b. prince_encrypt b key" "\<lambda>b. prince_decrypt b key"
  by unfold_locales
    (simp_all add: prince_encrypt_def prince_decrypt_def Let_def xor_cancel_right
      prince_core_reflection prince_core_reflection')

section \<open>Properties\<close>

text \<open>
  C39. Decryption undoes encryption: for every block and every key
  array, \<open>prince_decrypt(prince_encrypt(block, key), key) = block\<close>. The decryption runs
  the encryption core under the reflected key, so this rests on the alpha-reflection of
  the round constants and on every layer being inverted by its partner.
\<close>

theorem prince_decrypt_encrypt: "prince_decrypt (prince_encrypt block key) key = block"
  by (rule prince.inverse_left)

text \<open>
  For every key, encryption is a bijection on 64-bit blocks: two
  blocks never share a ciphertext and every 64-bit value is the ciphertext of some block.
\<close>

theorem prince_encrypt_bij: "bij (\<lambda>block. prince_encrypt block key)"
  by (rule prince.bij_forward)

text \<open>Evaluation on concrete blocks.\<close>

lemmas prince_eval = sbox_layer_def sbox_inv_layer_def subst_nibble_def nibble_def SBOX_def
  SBOX_INV_def m_prime_def [unfolded Let_def] gf2_mat_mul_def [unfolded Let_def] M_HAT_0_def
  M_HAT_1_def shift_rows_def [unfolded Let_def] shift_rows_inv_def [unfolded Let_def] ROW_MASK_def
  m_layer_def m_layer_inv_def RC_def word_eval

text \<open>
  The cipher reproduces the published PRINCE test vector with plaintext
  \<open>0x0123456789abcdef\<close>, \<open>k0 = 0\<close> and \<open>k1 = 0xfedcba9876543210\<close>, the third vector
  of the unit tests.
\<close>

theorem prince_vector:
  "prince_encrypt 0x0123456789abcdef
     [0, 0, 0, 0, 0, 0, 0, 0, 0xfe, 0xdc, 0xba, 0x98, 0x76, 0x54, 0x32, 0x10] = 0xae25ad3ca8fa9ccf"
  unfolding prince_encrypt_def prince_core_encrypt_def Let_def
  by (simp add: prince_eval from_be_bytes_def)

end
