(* ===== verification/SipHash.thy ===== *)
theory SipHash
  imports Prelude
begin

text \<open>
  The fixed-length SipHash-2-4 of \<open>common/src/crypto.rs\<close>: \<open>sip_round\<close> and
  \<open>siphash_2_4_17\<close>, which unrolls SipHash-2-4 for inputs of 17 bytes so that the eBPF
  verifier sees no loop. The specification \<open>siphash\<close> is the algorithm of Aumasson and
  Bernstein for inputs of any length, which the \<open>siphasher\<close> crate behind
  \<open>siphash_2_4\<close> implements; the main result is that the unrolled routine computes it.
\<close>

section \<open>The code\<close>

type_synonym sip_state = "u64 \<times> u64 \<times> u64 \<times> u64"

text \<open>The four \<open>&mut u64\<close> arguments are the components of the state.\<close>

fun sip_round :: "sip_state \<Rightarrow> sip_state" where
  "sip_round (v0, v1, v2, v3) =
     (let v0 = v0 + v1;
          v1 = word_rotl 13 v1;
          v1 = v1 XOR v0;
          v0 = word_rotl 32 v0;
          v2 = v2 + v3;
          v3 = word_rotl 16 v3;
          v3 = v3 XOR v2;
          v0 = v0 + v3;
          v3 = word_rotl 21 v3;
          v3 = v3 XOR v0;
          v2 = v2 + v1;
          v1 = word_rotl 17 v1;
          v1 = v1 XOR v2;
          v2 = word_rotl 32 v2
      in (v0, v1, v2, v3))"

definition siphash_2_4_17 :: "bytes \<Rightarrow> bytes \<Rightarrow> u64" where
  "siphash_2_4_17 key data =
     (let k0 = from_le_bytes (take 8 key);
          k1 = from_le_bytes (take 8 (drop 8 key));
          v0 = 0x736f6d6570736575 XOR k0;
          v1 = 0x646f72616e646f6d XOR k1;
          v2 = 0x6c7967656e657261 XOR k0;
          v3 = 0x7465646279746573 XOR k1;
          m0 = from_le_bytes (take 8 data);
          m1 = from_le_bytes (take 8 (drop 8 data));
          b = push_bit 56 17 OR ucast (data ! 16);
          v3 = v3 XOR m0;
          (v0, v1, v2, v3) = sip_round (v0, v1, v2, v3);
          (v0, v1, v2, v3) = sip_round (v0, v1, v2, v3);
          v0 = v0 XOR m0;
          v3 = v3 XOR m1;
          (v0, v1, v2, v3) = sip_round (v0, v1, v2, v3);
          (v0, v1, v2, v3) = sip_round (v0, v1, v2, v3);
          v0 = v0 XOR m1;
          v3 = v3 XOR b;
          (v0, v1, v2, v3) = sip_round (v0, v1, v2, v3);
          (v0, v1, v2, v3) = sip_round (v0, v1, v2, v3);
          v0 = v0 XOR b;
          v2 = v2 XOR 0xff;
          (v0, v1, v2, v3) = sip_round (v0, v1, v2, v3);
          (v0, v1, v2, v3) = sip_round (v0, v1, v2, v3);
          (v0, v1, v2, v3) = sip_round (v0, v1, v2, v3);
          (v0, v1, v2, v3) = sip_round (v0, v1, v2, v3)
      in v0 XOR v1 XOR v2 XOR v3)"

section \<open>The specification\<close>

text \<open>
  SipHash-c-d: the message is padded with zero bytes and its length modulo 256 to a multiple
  of eight bytes, cut into little-endian words, and each word is absorbed by \<open>c\<close>
  rounds; \<open>d\<close> rounds finish.
\<close>

definition sip_pad :: "bytes \<Rightarrow> bytes" where
  "sip_pad data = data @ replicate (7 - length data mod 8) 0 @ [word_of_nat (length data mod 256)]"

fun chunks8 :: "bytes \<Rightarrow> bytes list" where
  "chunks8 bs = (if bs = [] then [] else take 8 bs # chunks8 (drop 8 bs))"

declare chunks8.simps [simp del]

definition sip_init :: "bytes \<Rightarrow> sip_state" where
  "sip_init key =
     (let k0 = from_le_bytes (take 8 key); k1 = from_le_bytes (take 8 (drop 8 key))
      in (0x736f6d6570736575 XOR k0, 0x646f72616e646f6d XOR k1,
          0x6c7967656e657261 XOR k0, 0x7465646279746573 XOR k1))"

fun sip_absorb :: "nat \<Rightarrow> u64 \<Rightarrow> sip_state \<Rightarrow> sip_state" where
  "sip_absorb c m (v0, v1, v2, v3) =
     (case (sip_round ^^ c) (v0, v1, v2, v3 XOR m) of (w0, w1, w2, w3) \<Rightarrow> (w0 XOR m, w1, w2, w3))"

fun sip_finish :: "nat \<Rightarrow> sip_state \<Rightarrow> u64" where
  "sip_finish d (v0, v1, v2, v3) =
     (case (sip_round ^^ d) (v0, v1, v2 XOR 0xff, v3) of (w0, w1, w2, w3) \<Rightarrow> w0 XOR w1 XOR w2 XOR w3)"

definition siphash :: "nat \<Rightarrow> nat \<Rightarrow> bytes \<Rightarrow> bytes \<Rightarrow> u64" where
  "siphash c d key data =
     sip_finish d (fold (sip_absorb c) (map from_le_bytes (chunks8 (sip_pad data))) (sip_init key))"

section \<open>The round is a permutation\<close>

text \<open>Undoing the fourteen assignments in reverse order.\<close>

fun sip_round_inv :: "sip_state \<Rightarrow> sip_state" where
  "sip_round_inv (v0, v1, v2, v3) =
     (let v2 = word_rotr 32 v2;
          v1 = word_rotr 17 (v1 XOR v2);
          v2 = v2 - v1;
          v3 = word_rotr 21 (v3 XOR v0);
          v0 = v0 - v3;
          v3 = word_rotr 16 (v3 XOR v2);
          v2 = v2 - v3;
          v0 = word_rotr 32 v0;
          v1 = word_rotr 13 (v1 XOR v0);
          v0 = v0 - v1
      in (v0, v1, v2, v3))"

interpretation sip: inverse_pair sip_round sip_round_inv
proof
  fix x show "sip_round_inv (sip_round x) = x"
    by (cases x) (simp add: Let_def xor_cancel_right)
next
  fix y show "sip_round (sip_round_inv y) = y"
    by (cases y) (simp add: Let_def xor_cancel_right)
qed

lemma length_17_split:
  assumes "length data = 17"
  shows "data = take 8 data @ take 8 (drop 8 data) @ [data ! 16]"
proof (rule nth_equalityI)
  show "length data = length (take 8 data @ take 8 (drop 8 data) @ [data ! 16])" using assms by simp
next
  fix i assume "i < length data"
  then consider "i = 16" | "i < 16" using assms by fastforce
  then show "data ! i = (take 8 data @ take 8 (drop 8 data) @ [data ! 16]) ! i"
    using assms by cases (auto simp: nth_append)
qed

lemma chunks8_Nil [simp]: "chunks8 [] = []"
  by (simp add: chunks8.simps)

lemma chunks8_append: "length c = 8 \<Longrightarrow> chunks8 (c @ bs) = c # chunks8 bs"
  by (subst chunks8.simps) auto

lemma sip_pad_17:
  assumes "length data = 17"
  shows "chunks8 (sip_pad data)
    = [take 8 data, take 8 (drop 8 data), [data ! 16, 0, 0, 0, 0, 0, 0, 17]]"
proof -
  have r: "replicate 6 (0 :: u8) = [0, 0, 0, 0, 0, 0]"
    by (simp add: numeral_eq_Suc)
  have "sip_pad data = data @ [0, 0, 0, 0, 0, 0, 17]"
    using assms by (simp add: sip_pad_def r)
  also have "\<dots> = take 8 data @ take 8 (drop 8 data) @ [data ! 16, 0, 0, 0, 0, 0, 0, 17] @ []"
    using arg_cong [OF length_17_split [OF assms], of "\<lambda>d. d @ [0, 0, 0, 0, 0, 0, 17]"]
    by (simp only: append_assoc append.simps)
  finally have "sip_pad data
      = take 8 data @ take 8 (drop 8 data) @ [data ! 16, 0, 0, 0, 0, 0, 0, 17] @ []" .
  moreover have "length (take 8 data) = 8" "length (take 8 (drop 8 data)) = 8"
    "length [data ! 16, 0, 0, 0, 0, 0, 0, 17] = 8"
    using assms by simp_all
  ultimately show ?thesis by (simp only: chunks8_append chunks8_Nil)
qed

lemma last_block: "from_le_bytes [b, 0, 0, 0, 0, 0, 0, 17] = (push_bit 56 17 OR ucast b :: u64)"
  by (simp add: from_le_bytes_def from_be_bytes_def)

lemma rounds_2: "(sip_round ^^ 2) s = sip_round (sip_round s)"
  by (simp add: numeral_eq_Suc)
lemma rounds_4: "(sip_round ^^ 4) s = sip_round (sip_round (sip_round (sip_round s)))"
  by (simp add: numeral_eq_Suc)



lemma siphash_2_4_17_absorb:
  "siphash_2_4_17 key data =
     sip_finish 4 (sip_absorb 2 (push_bit 56 17 OR ucast (data ! 16))
       (sip_absorb 2 (from_le_bytes (take 8 (drop 8 data)))
         (sip_absorb 2 (from_le_bytes (take 8 data)) (sip_init key))))"
  unfolding siphash_2_4_17_def sip_init_def Let_def
  by (simp del: sip_round.simps add: rounds_2 rounds_4 split: prod.split)

section \<open>Properties\<close>



text \<open>
  One SipHash round is a permutation of the 256-bit state: no two states
  are merged, whatever the wrapping additions do.
\<close>

theorem sip_round_bij: "bij sip_round"
  by (rule sip.bij_forward)

text \<open>
  Evaluation on numerals: the argument of each \<open>let\<close> is evaluated before its body.
\<close>

lemma chunks8_Cons: "chunks8 (b # bs) = take 8 (b # bs) # chunks8 (drop 8 (b # bs))"
  by (simp add: chunks8.simps)

lemma replicate_numeral_Cons: "replicate (numeral k) x = x # replicate (pred_numeral k) x"
  by (simp add: numeral_eq_Suc)

lemmas sip_eval = siphash_def sip_pad_def chunks8_Cons replicate_numeral_Cons sip_init_def from_le_bytes_def
  from_be_bytes_def rounds_2 rounds_4 Let_def word_eval

section \<open>The general routine\<close>

text \<open>
  \<open>siphash_2_4\<close> calls the hasher of the \<open>siphasher\<close> crate, which is the argument
  \<open>hasher\<close>; the crate documents that it computes SipHash-2-4.
\<close>

definition siphash_2_4 :: "(bytes \<Rightarrow> bytes \<Rightarrow> u64) \<Rightarrow> bytes \<Rightarrow> bytes \<Rightarrow> u64" where
  "siphash_2_4 hasher key data = hasher key data"

locale sip_hasher =
  fixes hasher :: "bytes \<Rightarrow> bytes \<Rightarrow> u64"
  assumes sip24: "length key = 16 \<Longrightarrow> hasher key data = siphash 2 4 key data"
begin

lemma fixed_17: "length key = 16 \<Longrightarrow> length data = 17 \<Longrightarrow> siphash_2_4_17 key data = siphash_2_4 hasher key data"
  by (simp add: siphash_2_4_def sip24 siphash_def sip_pad_17 siphash_2_4_17_absorb last_block)

end

interpretation sip24: sip_hasher "siphash 2 4"
  by unfold_locales simp

end
