(* ===== verification/Contract.thy ===== *)
theory Contract
  imports Prelude
begin

text \<open>
  The address-space contract: the values of \<open>contract.toml\<close> and the build script
  \<open>common/build.rs\<close> that validates them and generates the constants every crate
  compiles in. Reading and parsing the TOML file is outside the model; the script is a
  function from the deserialized contract to the generated constants, and a failed
  \<open>assert!\<close> (a build failure) is an error value.
\<close>

record Contract =
  synthetic_prefix_bytes :: bytes
  discriminator_bytes :: bytes
  if_id :: u32
  public_prefix_bytes :: bytes
  client_id_bits :: u32
  domain_id_bits :: u32

datatype build_error = ClientIdBits u32 | DomainIdBits u32

record contract_consts =
  c_SYNTHETIC_PREFIX :: bytes
  c_VIP_POOL_DISCRIMINATOR :: bytes
  c_XFRM_IF_ID :: u32
  c_PROXY_SRC_PREFIX :: bytes
  c_PROXY_SRC_CLIENT_ID_MAX :: u32
  c_PROXY_SRC_DOMAIN_ID_MAX :: u32

definition build_main :: "Contract \<Rightarrow> build_error + contract_consts" where
  "build_main c =
     (let b = synthetic_prefix_bytes c;
          d = discriminator_bytes c;
          p = public_prefix_bytes c
      in if client_id_bits c \<noteq> 24 then Inl (ClientIdBits (client_id_bits c))
         else if domain_id_bits c \<noteq> 24 then Inl (DomainIdBits (domain_id_bits c))
         else Inr \<lparr> c_SYNTHETIC_PREFIX = [b ! 0, b ! 1, b ! 2, b ! 3],
                    c_VIP_POOL_DISCRIMINATOR = [d ! 0, d ! 1, d ! 2, d ! 3],
                    c_XFRM_IF_ID = if_id c,
                    c_PROXY_SRC_PREFIX = [p ! 0, p ! 1, p ! 2, p ! 3],
                    c_PROXY_SRC_CLIENT_ID_MAX = 0x00ffffff,
                    c_PROXY_SRC_DOMAIN_ID_MAX = 0x00ffffff \<rparr>)"

text \<open>The contract of this repository.\<close>

definition contract_toml :: Contract where
  "contract_toml =
     \<lparr> synthetic_prefix_bytes = [0xfd, 0x00, 0xab, 0xcd],
       discriminator_bytes = [0x00, 0x00, 0x00, 0x01],
       if_id = 1,
       public_prefix_bytes = [0x20, 0x01, 0x0d, 0xb8],
       client_id_bits = 24,
       domain_id_bits = 24 \<rparr>"

text \<open>The generated constants, as the crates see them.\<close>

definition SYNTHETIC_PREFIX :: bytes where
  "SYNTHETIC_PREFIX = [0xfd, 0x00, 0xab, 0xcd]"

definition VIP_POOL_DISCRIMINATOR :: bytes where
  "VIP_POOL_DISCRIMINATOR = [0x00, 0x00, 0x00, 0x01]"

definition XFRM_IF_ID :: u32 where
  "XFRM_IF_ID = 1"

definition PROXY_SRC_PREFIX :: bytes where
  "PROXY_SRC_PREFIX = [0x20, 0x01, 0x0d, 0xb8]"

definition PROXY_SRC_CLIENT_ID_MAX :: u32 where
  "PROXY_SRC_CLIENT_ID_MAX = 0x00ffffff"

definition PROXY_SRC_DOMAIN_ID_MAX :: u32 where
  "PROXY_SRC_DOMAIN_ID_MAX = 0x00ffffff"

lemmas contract_defs = SYNTHETIC_PREFIX_def VIP_POOL_DISCRIMINATOR_def XFRM_IF_ID_def
  PROXY_SRC_PREFIX_def PROXY_SRC_CLIENT_ID_MAX_def PROXY_SRC_DOMAIN_ID_MAX_def

lemma length_contract [simp]:
  "length SYNTHETIC_PREFIX = 4" "length VIP_POOL_DISCRIMINATOR = 4" "length PROXY_SRC_PREFIX = 4"
  by (simp_all add: contract_defs)

lemma prefixes_distinct [simp]: "PROXY_SRC_PREFIX \<noteq> SYNTHETIC_PREFIX"
  "SYNTHETIC_PREFIX \<noteq> PROXY_SRC_PREFIX"
  by (simp_all add: contract_defs)

text \<open>
  Running the build script on this repository's contract passes its
  assertions and generates exactly the constants the model uses.
\<close>

theorem build_main_consts:
  "build_main contract_toml =
     Inr \<lparr> c_SYNTHETIC_PREFIX = SYNTHETIC_PREFIX,
           c_VIP_POOL_DISCRIMINATOR = VIP_POOL_DISCRIMINATOR,
           c_XFRM_IF_ID = XFRM_IF_ID,
           c_PROXY_SRC_PREFIX = PROXY_SRC_PREFIX,
           c_PROXY_SRC_CLIENT_ID_MAX = PROXY_SRC_CLIENT_ID_MAX,
           c_PROXY_SRC_DOMAIN_ID_MAX = PROXY_SRC_DOMAIN_ID_MAX \<rparr>"
  by (simp add: build_main_def contract_toml_def contract_defs)

end
