(* ===== verification/ProxySrc.thy ===== *)
theory ProxySrc
  imports Contract
begin

text \<open>
  The address helpers of \<open>common/src/lib.rs\<close> and the context hash of
  \<open>common/src/crypto.rs\<close>: the synthetic addresses \<open>fd00:abcd:XXXX:YYYY::1\<close> handed
  out by the DNS server, the client VIPs, and the proxy-source encoding that carries
  \<open>client_id\<close> and \<open>domain_id\<close> in a public source address. Addresses are lists of
  16 bytes.
\<close>

section \<open>Data\<close>

record ProxySrcCtx =
  src_port :: u16
  dst_port :: u16
  proto :: u8
  ctx_pad :: bytes

definition ProxySrcCtx_new :: "u16 \<Rightarrow> u16 \<Rightarrow> u8 \<Rightarrow> ProxySrcCtx" where
  "ProxySrcCtx_new sp dp pr = \<lparr> src_port = sp, dst_port = dp, proto = pr, ctx_pad = [0, 0, 0] \<rparr>"

record ProxySrcKey =
  prince_key :: bytes
  siphash_key :: bytes

text \<open>\<open>while i < 16\<close> accumulates the bitwise or of all 32 bytes.\<close>

definition is_zero :: "ProxySrcKey \<Rightarrow> bool" where
  "is_zero key =
     (fold (\<lambda>i acc. (acc OR prince_key key ! i) OR siphash_key key ! i) [0..<16] (0 :: u8) = 0)"

record NatEntry =
  origin_ipv6 :: bytes

section \<open>Synthetic addresses and client VIPs\<close>

definition domain_id_from_ipv6 :: "bytes \<Rightarrow> u32" where
  "domain_id_from_ipv6 addr = from_be_bytes [addr ! 4, addr ! 5, addr ! 6, addr ! 7]"

definition synthetic_ipv6 :: "u32 \<Rightarrow> bytes" where
  "synthetic_ipv6 domain_id =
     (let id_bytes = to_be_bytes domain_id
      in SYNTHETIC_PREFIX @ id_bytes @ [0, 0, 0, 0, 0, 0, 0, 1])"

definition client_vip_from_id24 :: "u32 \<Rightarrow> bytes" where
  "client_vip_from_id24 client_id =
     (let d = VIP_POOL_DISCRIMINATOR;
          cid = to_be_bytes client_id
      in SYNTHETIC_PREFIX @ d @ [0x00, 0x00, 0x00, 0x00] @ cid)"

text \<open>The key of the unit tests.\<close>

definition TEST_KEY :: ProxySrcKey where
  "TEST_KEY =
     \<lparr> prince_key = [0x01, 0x23, 0x45, 0x67, 0x89, 0xab, 0xcd, 0xef, 0xfe, 0xdc, 0xba, 0x98, 0x76, 0x54,
         0x32, 0x10],
       siphash_key = [0x00, 0x01, 0x02, 0x03, 0x04, 0x05, 0x06, 0x07, 0x08, 0x09, 0x0a, 0x0b, 0x0c,
         0x0d, 0x0e, 0x0f] \<rparr>"

section \<open>The proxy-source encoding\<close>

definition hash_ctx :: "ProxySrcCtx \<Rightarrow> u64" where
  "hash_ctx ctx =
     (let packed = push_bit 48 (ucast (src_port ctx)) OR push_bit 32 (ucast (dst_port ctx))
            OR push_bit 24 (ucast (proto ctx));
          h = packed;
          h = h XOR drop_bit 30 h;
          h = h * 0xbf58476d1ce4e5b9;
          h = h XOR drop_bit 27 h;
          h = h * 0x94d049bb133111eb;
          h = h XOR drop_bit 31 h
      in h)"

definition mix64 :: "u64 \<Rightarrow> u64" where
  "mix64 x =
     (let x = x XOR drop_bit 30 x;
          x = x * 0xbf58476d1ce4e5b9;
          x = x XOR drop_bit 27 x;
          x = x * 0x94d049bb133111eb;
          x = x XOR drop_bit 31 x
      in x)"

definition key_ctx_mix :: "ProxySrcCtx \<Rightarrow> ProxySrcKey \<Rightarrow> u64" where
  "key_ctx_mix ctx key =
     (let k0 = from_be_bytes (take 8 (prince_key key));
          k1 = from_be_bytes (take 8 (drop 8 (prince_key key)));
          h = hash_ctx ctx
      in mix64 (h XOR word_rotl 11 k0 XOR word_rotr 7 k1 XOR 0x9e3779b97f4a7c15))"

definition tag32 :: "u64 \<Rightarrow> ProxySrcCtx \<Rightarrow> ProxySrcKey \<Rightarrow> u32" where
  "tag32 enc64 ctx key =
     (let k2 = from_be_bytes (take 8 (siphash_key key));
          k3 = from_be_bytes (take 8 (drop 8 (siphash_key key)));
          ctx_bits = push_bit 48 (ucast (src_port ctx)) OR push_bit 32 (ucast (dst_port ctx))
            OR push_bit 24 (ucast (proto ctx));
          t = mix64 (enc64 XOR ctx_bits XOR word_rotl 13 k2 XOR word_rotr 17 k3
                XOR 0xa0761d6478bd642f)
      in ucast t XOR ucast (drop_bit 32 t))"

definition encode_proxy_src ::
  "u32 \<Rightarrow> u32 \<Rightarrow> ProxySrcCtx \<Rightarrow> ProxySrcKey \<Rightarrow> bytes option" where
  "encode_proxy_src client_id domain_id ctx key =
     (if client_id > PROXY_SRC_CLIENT_ID_MAX \<or> domain_id > PROXY_SRC_DOMAIN_ID_MAX then None
      else
        let p64 = push_bit 40 (ucast client_id) OR push_bit 16 (ucast domain_id);
            m = key_ctx_mix ctx key;
            rot = unat (m AND 63);
            enc64 = word_rotl rot p64 XOR m XOR 0xa5a5a5a5a5a5a5a5;
            enc64_bytes = to_be_bytes enc64;
            tag = to_be_bytes (tag32 enc64 ctx key)
        in Some (PROXY_SRC_PREFIX @ enc64_bytes @ tag))"

definition decode_proxy_src :: "bytes \<Rightarrow> ProxySrcCtx \<Rightarrow> ProxySrcKey \<Rightarrow> (u32 \<times> u32) option" where
  "decode_proxy_src addr ctx key =
     (let enc64 = from_be_bytes (take 8 (drop 4 addr));
          packet_tag = from_be_bytes (take 4 (drop 12 addr));
          expected_tag = tag32 enc64 ctx key
      in if packet_tag \<noteq> expected_tag then None
         else
           let m = key_ctx_mix ctx key;
               rot = unat (m AND 63);
               p64 = word_rotr rot (enc64 XOR m XOR 0xa5a5a5a5a5a5a5a5)
           in if p64 AND 0xFFFF \<noteq> 0 then None
              else
                let client_id = ucast (drop_bit 40 p64 AND 0x00FFFFFF);
                    domain_id = ucast (drop_bit 16 p64 AND 0x00FFFFFF)
                in Some (client_id, domain_id))"

section \<open>Mixers\<close>

text \<open>The inverse of the splitmix64 finalizer.\<close>

definition unmix64 :: "u64 \<Rightarrow> u64" where
  "unmix64 x =
     (let x = x XOR drop_bit 31 x XOR drop_bit 62 x;
          x = x * 0x319642b2d24d8ec3;
          x = x XOR drop_bit 27 x XOR drop_bit 54 x;
          x = x * 0x96de1b173f119089;
          x = x XOR drop_bit 30 x XOR drop_bit 60 x
      in x)"

interpretation mix: inverse_pair mix64 unmix64
proof -
  have a: "inverse_pair (\<lambda>x :: u64. x XOR drop_bit 30 x) (\<lambda>x. x XOR drop_bit 30 x XOR drop_bit 60 x)"
    and b: "inverse_pair (\<lambda>x :: u64. x XOR drop_bit 27 x) (\<lambda>x. x XOR drop_bit 27 x XOR drop_bit 54 x)"
    and c: "inverse_pair (\<lambda>x :: u64. x XOR drop_bit 31 x) (\<lambda>x. x XOR drop_bit 31 x XOR drop_bit 62 x)"
    using inverse_pair_xorshift [of 30, where 'a = 64] inverse_pair_xorshift [of 27, where 'a = 64]
      inverse_pair_xorshift [of 31, where 'a = 64] by simp_all
  have m: "inverse_pair (\<lambda>x :: u64. x * 0xbf58476d1ce4e5b9) (\<lambda>x. x * 0x96de1b173f119089)"
    and n: "inverse_pair (\<lambda>x :: u64. x * 0x94d049bb133111eb) (\<lambda>x. x * 0x319642b2d24d8ec3)"
    by (rule inverse_pair_mult, simp)+
  from inverse_pair_comp [OF inverse_pair_comp [OF inverse_pair_comp [OF
        inverse_pair_comp [OF a m] b] n] c]
  show "inverse_pair mix64 unmix64"
    by (simp add: mix64_def [abs_def] unmix64_def [abs_def] Let_def)
qed

definition pack_ctx :: "ProxySrcCtx \<Rightarrow> u64" where
  "pack_ctx ctx = push_bit 48 (ucast (src_port ctx)) OR push_bit 32 (ucast (dst_port ctx))
     OR push_bit 24 (ucast (proto ctx))"

lemma hash_ctx_mix: "hash_ctx ctx = mix64 (pack_ctx ctx)"
  by (simp add: hash_ctx_def mix64_def pack_ctx_def)

lemma unpack_ctx:
  "ucast (drop_bit 48 (pack_ctx ctx)) = src_port ctx"
  "ucast (drop_bit 32 (pack_ctx ctx)) = dst_port ctx"
  "ucast (drop_bit 24 (pack_ctx ctx)) = proto ctx"
  unfolding pack_ctx_def
  by (auto intro!: bit_word_eqI simp: bit_simps not_bit_beyond)

lemma pack_ctx_inject:
  "pack_ctx c = pack_ctx d \<longleftrightarrow> src_port c = src_port d \<and> dst_port c = dst_port d \<and> proto c = proto d"
  by (metis pack_ctx_def unpack_ctx)


section \<open>The 64-bit plaintext\<close>

definition pack_ids :: "u32 \<Rightarrow> u32 \<Rightarrow> u64" where
  "pack_ids client_id domain_id = push_bit 40 (ucast client_id) OR push_bit 16 (ucast domain_id)"

lemma id24_nat: "x \<le> 0xFFFFFF \<longleftrightarrow> unat (x :: u32) < 2 ^ 24"
  by (simp add: word_le_nat_alt less_Suc_eq_le [symmetric])

lemma id24_take_bit: "x \<le> 0xFFFFFF \<longleftrightarrow> take_bit 24 x = (x :: u32)"
proof -
  have "x \<le> 0xFFFFFF \<longleftrightarrow> unat x < 2 ^ 24" by (rule id24_nat)
  also have "\<dots> \<longleftrightarrow> take_bit 24 (unat x) = unat x"
    by (simp only: take_bit_nat_eq_self_iff)
  also have "\<dots> \<longleftrightarrow> take_bit 24 x = x"
    by (metis unsigned_take_bit_eq word_unat_eq_iff)
  finally show ?thesis .
qed

lemma id24_bits: "x \<le> 0xFFFFFF \<Longrightarrow> bit (x :: u32) n \<Longrightarrow> n < 24"
  by (metis bit_take_bit_iff id24_take_bit)

lemma id24_masked: "ucast (w AND 0xFFFFFF :: u64) \<le> (0xFFFFFF :: u32)"
  by (auto simp: id24_take_bit and_0xFFFFFF bit_eq_iff bit_simps)

lemma unpack_ids:
  assumes "c \<le> 0xFFFFFF" "d \<le> 0xFFFFFF"
  shows "ucast (drop_bit 40 (pack_ids c d) AND 0xFFFFFF) = c"
    and "ucast (drop_bit 16 (pack_ids c d) AND 0xFFFFFF) = d"
    and "pack_ids c d AND 0xFFFF = 0"
  unfolding pack_ids_def and_0xFFFFFF and_0xFFFF
  by (auto simp: bit_eq_iff bit_simps not_bit_beyond
      intro: id24_bits [OF assms(1)] id24_bits [OF assms(2)] dest: id24_bits [OF assms(2)])

lemma pack_unpack_ids:
  assumes "p AND 0xFFFF = 0"
  shows "pack_ids (ucast (drop_bit 40 p AND 0xFFFFFF)) (ucast (drop_bit 16 p AND 0xFFFFFF)) = p"
proof (rule bit_word_eqI)
  fix n assume "n < LENGTH(64)"
  then consider "n < 16" | "16 \<le> n" "n < 40" | "40 \<le> n" "n < 64" by fastforce
  then show "bit (pack_ids (ucast (drop_bit 40 p AND 0xFFFFFF))
      (ucast (drop_bit 16 p AND 0xFFFFFF))) n = bit p n"
    using assms [THEN arg_cong, of "\<lambda>w. bit w n"]
    by cases (auto simp: pack_ids_def and_0xFFFFFF and_0xFFFF bit_simps)
qed

section \<open>Encoding and decoding\<close>

text \<open>The reversible obfuscation of the plaintext under a mixed key \<open>m\<close>.\<close>

definition scramble :: "u64 \<Rightarrow> u64 \<Rightarrow> u64" where
  "scramble m p = word_rotl (unat (m AND 63)) p XOR m XOR 0xa5a5a5a5a5a5a5a5"

definition unscramble :: "u64 \<Rightarrow> u64 \<Rightarrow> u64" where
  "unscramble m e = word_rotr (unat (m AND 63)) (e XOR m XOR 0xa5a5a5a5a5a5a5a5)"

interpretation scr: inverse_pair "scramble m" "unscramble m"
  by unfold_locales (simp_all add: scramble_def unscramble_def ac_simps)

definition proxy_addr :: "bytes \<Rightarrow> bool" where
  "proxy_addr a \<longleftrightarrow> length a = 16 \<and> take 4 a = PROXY_SRC_PREFIX"

lemma encode_proxy_src_eq:
  "encode_proxy_src c d ctx key =
     (if c \<le> 0xFFFFFF \<and> d \<le> 0xFFFFFF
      then let e = scramble (key_ctx_mix ctx key) (pack_ids c d)
           in Some (PROXY_SRC_PREFIX @ to_be_bytes e @ to_be_bytes (tag32 e ctx key))
      else None)"
  by (auto simp: encode_proxy_src_def scramble_def pack_ids_def Let_def contract_defs not_less)

lemma decode_proxy_src_eq:
  "decode_proxy_src a ctx key =
     (let e = from_be_bytes (take 8 (drop 4 a)); p = unscramble (key_ctx_mix ctx key) e
      in if from_be_bytes (take 4 (drop 12 a)) = tag32 e ctx key \<and> p AND 0xFFFF = 0
         then Some (ucast (drop_bit 40 p AND 0xFFFFFF), ucast (drop_bit 16 p AND 0xFFFFFF))
         else None)"
  by (auto simp: decode_proxy_src_def unscramble_def Let_def)

lemma proxy_addr_split:
  assumes "length a = 16"
  shows "a = take 4 a @ take 8 (drop 4 a) @ take 4 (drop 12 a)"
proof -
  have "drop 12 a = take 4 (drop 12 a)" using assms by simp
  moreover have "drop 4 a = take 8 (drop 4 a) @ drop 12 a"
    using append_take_drop_id [of 8 "drop 4 a"] by simp
  ultimately show ?thesis by (metis append_take_drop_id)
qed

interpretation ps: partial_codec "\<lambda>(c, d). encode_proxy_src c d ctx key"
  "\<lambda>a. decode_proxy_src a ctx key" proxy_addr
proof
  fix cd a assume "(case cd of (c, d) \<Rightarrow> encode_proxy_src c d ctx key) = Some a"
  then show "proxy_addr a"
    by (auto simp: encode_proxy_src_eq proxy_addr_def Let_def split: prod.splits if_splits)
next
  fix a :: bytes and cd :: "u32 \<times> u32"
  assume a: "proxy_addr a"
  obtain c d where cd: "cd = (c, d)" by (cases cd)
  define B T where "B = take 8 (drop 4 a)" and "T = take 4 (drop 12 a)"
  have len: "length B = 8" "length T = 4" and sp: "a = PROXY_SRC_PREFIX @ B @ T"
    using a proxy_addr_split [of a] by (simp_all add: B_def T_def proxy_addr_def)
  define e where "e = (from_be_bytes B :: u64)"
  let ?s = "scramble (key_ctx_mix ctx key) (pack_ids c d)"
  have "decode_proxy_src a ctx key = Some (c, d) \<longleftrightarrow>
      c \<le> 0xFFFFFF \<and> d \<le> 0xFFFFFF \<and> e = ?s \<and> from_be_bytes T = tag32 e ctx key" (is "?L \<longleftrightarrow> ?R")
  proof
    assume ?L
    then show ?R
      by (auto simp: decode_proxy_src_eq B_def [symmetric] T_def [symmetric] e_def [symmetric]
          Let_def id24_masked pack_unpack_ids scr.inverse_right split: if_splits)
  next
    assume ?R
    then show ?L
      by (simp add: decode_proxy_src_eq B_def [symmetric] T_def [symmetric] e_def [symmetric]
          Let_def scr.inverse_left unpack_ids)
  qed
  also have "\<dots> \<longleftrightarrow> c \<le> 0xFFFFFF \<and> d \<le> 0xFFFFFF \<and> to_be_bytes ?s = B \<and>
      to_be_bytes (tag32 ?s ctx key) = T"
    using len by (auto simp: e_def from_be_eq_iff_u64 from_be_eq_iff_u32)
  also have "\<dots> \<longleftrightarrow> encode_proxy_src c d ctx key = Some a"
    using len by (auto simp: encode_proxy_src_eq sp Let_def)
  finally show "decode_proxy_src a ctx key = Some cd \<longleftrightarrow>
      (case cd of (c, d) \<Rightarrow> encode_proxy_src c d ctx key) = Some a"
    by (simp add: cd)
qed

lemma if_None_iff: "(if P \<and> Q then Some x else None) = None \<longleftrightarrow> \<not> P \<or> \<not> Q"
  by simp

lemma card_ids: "card {x :: u32. x \<le> 0xFFFFFF} = 2 ^ 24"
proof -
  have "bij_betw unat {x :: u32. x \<le> 0xFFFFFF} {..<2 ^ 24}"
    by (rule bij_betw_byWitness [where f' = word_of_nat])
      (auto simp: id24_nat unat_of_nat take_bit_nat_eq_self_iff simp flip: take_bit_eq_mod)
  then show ?thesis by (simp only: bij_betw_same_card card_lessThan)
qed

section \<open>Keys\<close>

lemma fold_or_zero:
  "fold (\<lambda>i acc. (acc OR f i) OR g i) is (a :: 'a::len word) = 0 \<longleftrightarrow>
     a = 0 \<and> (\<forall>i\<in>set is. f i = 0 \<and> g i = 0)"
  by (induction "is" arbitrary: a) (auto simp: or_eq_0_iff)

lemma is_zero_iff:
  "is_zero key \<longleftrightarrow> list_all (\<lambda>i. prince_key key ! i = 0 \<and> siphash_key key ! i = 0) [0..<16]"
  unfolding is_zero_def fold_or_zero list_all_iff by auto

text \<open>
  Everything the encoding uses of a key: two 64-bit words, one folded from each half.
\<close>

definition effective_key :: "ProxySrcKey \<Rightarrow> u64 \<times> u64" where
  "effective_key key =
     (word_rotl 11 (from_be_bytes (take 8 (prince_key key)))
        XOR word_rotr 7 (from_be_bytes (take 8 (drop 8 (prince_key key)))),
      word_rotl 13 (from_be_bytes (take 8 (siphash_key key)))
        XOR word_rotr 17 (from_be_bytes (take 8 (drop 8 (siphash_key key)))))"

lemma key_ctx_mix_effective:
  "key_ctx_mix ctx key = mix64 (hash_ctx ctx XOR fst (effective_key key) XOR 0x9e3779b97f4a7c15)"
  by (simp add: key_ctx_mix_def effective_key_def Let_def xor.assoc)

lemma tag32_effective:
  "tag32 e ctx key =
     (let t = mix64 (e XOR pack_ctx ctx XOR snd (effective_key key) XOR 0xa0761d6478bd642f)
      in ucast t XOR ucast (drop_bit 32 t))"
  by (simp add: tag32_def effective_key_def pack_ctx_def Let_def xor.assoc)

lemma effective_key_cong:
  assumes "effective_key key = effective_key key'"
  shows "encode_proxy_src c d ctx key = encode_proxy_src c d ctx key'"
    and "decode_proxy_src a ctx key = decode_proxy_src a ctx key'"
  by (simp_all only: encode_proxy_src_eq decode_proxy_src_eq key_ctx_mix_effective tag32_effective assms)

section \<open>Addresses\<close>

lemma length_synthetic_ipv6 [simp]: "length (synthetic_ipv6 d) = 16"
  by (simp add: synthetic_ipv6_def Let_def)

lemma length_client_vip [simp]: "length (client_vip_from_id24 c) = 16"
  by (simp add: client_vip_from_id24_def Let_def)

lemma nths_4: "length xs = 4 \<Longrightarrow> [xs ! 0, xs ! 1, xs ! 2, xs ! 3] = xs"
  by (erule length_4_exhaust) simp

lemma domain_id_synthetic: "domain_id_from_ipv6 (synthetic_ipv6 d) = d"
  using nths_4 [of "to_be_bytes d"]
  by (simp add: domain_id_from_ipv6_def synthetic_ipv6_def Let_def nth_append)

lemma prefix_synthetic: "take 4 (synthetic_ipv6 d) = SYNTHETIC_PREFIX"
  by (simp add: synthetic_ipv6_def Let_def)

lemma prefix_client_vip: "take 4 (client_vip_from_id24 c) = SYNTHETIC_PREFIX"
  by (simp add: client_vip_from_id24_def Let_def)

lemma client_id_of_vip: "from_be_bytes (drop 12 (client_vip_from_id24 c)) = c"
  by (simp add: client_vip_from_id24_def Let_def)

section \<open>A test vector\<close>

lemma TEST_KEY_words:
  "from_be_bytes (take 8 (prince_key TEST_KEY)) = (0x0123456789abcdef :: u64)"
  "from_be_bytes (take 8 (drop 8 (prince_key TEST_KEY))) = (0xfedcba9876543210 :: u64)"
  "from_be_bytes (take 8 (siphash_key TEST_KEY)) = (0x0001020304050607 :: u64)"
  "from_be_bytes (take 8 (drop 8 (siphash_key TEST_KEY))) = (0x08090a0b0c0d0e0f :: u64)"
  by (simp_all add: TEST_KEY_def from_be_bytes_def)

lemma TEST_KEY_mix: "key_ctx_mix (ProxySrcCtx_new 50000 443 6) TEST_KEY = 0x1d1de272f83977e7"
  by (simp add: key_ctx_mix_def hash_ctx_def mix64_def ProxySrcCtx_new_def TEST_KEY_words word_eval)

lemma TEST_KEY_tag: "tag32 0xbb3847d75daed242 (ProxySrcCtx_new 50000 443 6) TEST_KEY = 0xd13e429e"
  by (simp add: tag32_def mix64_def ProxySrcCtx_new_def TEST_KEY_words word_eval)

lemma TEST_KEY_scramble: "scramble 0x1d1de272f83977e7 (pack_ids 100 7) = 0xbb3847d75daed242"
  by (simp add: scramble_def pack_ids_def word_eval)

lemma TEST_KEY_vector:
  "encode_proxy_src 100 7 (ProxySrcCtx_new 50000 443 6) TEST_KEY =
     Some [0x20, 0x01, 0x0d, 0xb8, 0xbb, 0x38, 0x47, 0xd7, 0x5d, 0xae, 0xd2, 0x42, 0xd1, 0x3e, 0x42, 0x9e]"
  by (simp add: encode_proxy_src_eq TEST_KEY_mix TEST_KEY_scramble TEST_KEY_tag contract_defs
      to_be_bytes_def upt_rec)

lemma TEST_KEY_accepts:
  "decode_proxy_src [0x20, 0x01, 0x0d, 0xb8, 0xbb, 0x38, 0x47, 0xd7, 0x5d, 0xae, 0xd2, 0x42, 0xd1,
     0x3e, 0x42, 0x9e] (ProxySrcCtx_new 50000 443 6) TEST_KEY = Some (100, 7)"
  using ps.dec_enc [where a = "(100, 7)" and key = TEST_KEY] TEST_KEY_vector by simp

section \<open>Properties\<close>

text \<open>
  C18. The decoder accepts exactly what the encoder produces: for an address
  of 16 bytes with the proxy-source prefix, a flow context and a key,
  \<open>decode_proxy_src\<close> returns \<open>(client_id, domain_id)\<close> if and only if
  \<open>encode_proxy_src\<close> of those ids under the same context and key is that address.
\<close>

theorem proxy_src_codec:
  assumes "length addr = 16" and "take 4 addr = PROXY_SRC_PREFIX"
  shows "decode_proxy_src addr ctx key = Some (client_id, domain_id) \<longleftrightarrow>
    encode_proxy_src client_id domain_id ctx key = Some addr"
  using ps.dec_iff [where ctx = ctx and key = key and b = addr and a = "(client_id, domain_id)"] assms
  by (simp add: proxy_addr_def)

theorem proxy_src_codec_witness:
  "decode_proxy_src [0x20, 0x01, 0x0d, 0xb8, 0xbb, 0x38, 0x47, 0xd7, 0x5d, 0xae, 0xd2, 0x42, 0xd1,
      0x3e, 0x42, 0x9e] (ProxySrcCtx_new 50000 443 6) TEST_KEY = Some (100, 7)"
  by (subst proxy_src_codec) (simp_all add: TEST_KEY_vector contract_defs)

text \<open>
  Every pair of 24-bit ids is encoded, into a 16-byte address
  with the proxy-source prefix, and decoding it under the same context and key returns the
  ids.
\<close>

theorem encode_decode_roundtrip:
  assumes "client_id \<le> PROXY_SRC_CLIENT_ID_MAX" and "domain_id \<le> PROXY_SRC_DOMAIN_ID_MAX"
  shows "\<exists>addr. encode_proxy_src client_id domain_id ctx key = Some addr \<and> length addr = 16 \<and>
    take 4 addr = PROXY_SRC_PREFIX \<and>
    decode_proxy_src addr ctx key = Some (client_id, domain_id)"
proof -
  obtain addr where e: "encode_proxy_src client_id domain_id ctx key = Some addr"
    using assms by (simp add: encode_proxy_src_eq Let_def contract_defs)
  then show ?thesis
    using ps.enc_wf [where ctx = ctx and key = key and a = "(client_id, domain_id)" and b = addr]
      ps.dec_enc [where ctx = ctx and key = key and a = "(client_id, domain_id)" and b = addr]
    by (simp add: proxy_addr_def)
qed

theorem encode_decode_roundtrip_witness:
  "\<exists>addr. encode_proxy_src 0xFFFFFF 0xFFFFFF (ProxySrcCtx_new 65535 65535 6) TEST_KEY = Some addr \<and>
    length addr = 16 \<and> take 4 addr = PROXY_SRC_PREFIX \<and>
    decode_proxy_src addr (ProxySrcCtx_new 65535 65535 6) TEST_KEY = Some (0xFFFFFF, 0xFFFFFF)"
  by (rule encode_decode_roundtrip) (simp_all add: contract_defs)

text \<open>
  Encoding is refused exactly when an id does not fit 24 bits.
  The strongSwan pool of \<open>contract.toml\<close> ends at \<open>fd00:abcd:0:1::ffff:ffff\<close>, so a
  client VIP with suffix above \<open>ff:ffff\<close> is assignable but cannot be encoded.
\<close>

theorem encode_proxy_src_None:
  "encode_proxy_src client_id domain_id ctx key = None \<longleftrightarrow>
     unat client_id \<ge> 2 ^ 24 \<or> unat domain_id \<ge> 2 ^ 24"
  by (simp only: encode_proxy_src_eq Let_def id24_nat if_None_iff not_less)

text \<open>
  For each flow and key, exactly \<open>2 ^ 48\<close> of the
  \<open>2 ^ 96\<close> addresses below the proxy-source prefix are accepted by the decoder, one for
  each pair of ids: a random address passes with probability \<open>2 ^ -48\<close>.
\<close>

theorem proxy_src_accepted:
  "card {addr. length addr = 16 \<and> take 4 addr = PROXY_SRC_PREFIX \<and>
     decode_proxy_src addr ctx key \<noteq> None} = 2 ^ 48"
proof -
  have ids: "card {x :: u32. x \<le> 0xFFFFFF} = 2 ^ 24" by (rule card_ids)
  have "{cd. (case cd of (c, d) \<Rightarrow> encode_proxy_src c d ctx key) \<noteq> None} =
      {c. c \<le> 0xFFFFFF} \<times> {d. d \<le> 0xFFFFFF}"
    by (auto simp: encode_proxy_src_eq Let_def split: if_splits)
  then have "card {cd. (case cd of (c, d) \<Rightarrow> encode_proxy_src c d ctx key) \<noteq> None} = 2 ^ 24 * 2 ^ 24"
    by (simp only: card_cartesian_product ids)
  with ps.card_accepted [where ctx = ctx and key = key] show ?thesis
    by (simp add: proxy_addr_def conj_assoc)
qed

text \<open>
  An accepted address is rejected after any change of its tag bytes.
\<close>

theorem tag_tamper:
  assumes "decode_proxy_src addr ctx key \<noteq> None" and "length addr = 16" and "length addr' = 16"
    and "take 12 addr' = take 12 addr" and "addr' \<noteq> addr"
  shows "decode_proxy_src addr' ctx key = None"
proof -
  have t: "take 8 (drop 4 addr') = take 8 (drop 4 addr)"
    using assms(4) [THEN arg_cong, of "drop 4"] by (simp add: drop_take)
  have "drop 12 addr' \<noteq> drop 12 addr"
    using assms(4,5) append_take_drop_id [of 12 addr] append_take_drop_id [of 12 addr'] by auto
  then have "(from_be_bytes (drop 12 addr') :: u32) \<noteq> from_be_bytes (drop 12 addr)"
    using assms(2,3) by (simp add: from_be_bytes_inject_u32)
  then show ?thesis
    using assms(1-3) t by (auto simp: decode_proxy_src_eq Let_def split: if_splits)
qed


theorem tag_tamper_witness:
  "decode_proxy_src [0x20, 0x01, 0x0d, 0xb8, 0xbb, 0x38, 0x47, 0xd7, 0x5d, 0xae, 0xd2, 0x42, 0xd0,
     0x3e, 0x42, 0x9e] (ProxySrcCtx_new 50000 443 6) TEST_KEY = None"
  by (rule tag_tamper [OF _ _ _ _ _, of "[0x20, 0x01, 0x0d, 0xb8, 0xbb, 0x38, 0x47, 0xd7, 0x5d, 0xae,
        0xd2, 0x42, 0xd1, 0x3e, 0x42, 0x9e]"]) (simp_all add: TEST_KEY_accepts)

text \<open>
  The context hash separates flows: it is equal for two contexts
  exactly when source port, destination port and protocol are equal (the padding is not
  hashed), so distinct flows never share a keystream word under the same key.
\<close>

theorem hash_ctx_distinct:
  "(key_ctx_mix ctx key = key_ctx_mix ctx' key \<longleftrightarrow> hash_ctx ctx = hash_ctx ctx') \<and>
   (hash_ctx ctx = hash_ctx ctx' \<longleftrightarrow>
      src_port ctx = src_port ctx' \<and> dst_port ctx = dst_port ctx' \<and> proto ctx = proto ctx')"
  by (simp add: key_ctx_mix_effective mix.forward_inject xor.assoc xor_inject_right
      hash_ctx_mix pack_ctx_inject)

text \<open>
  The 256-bit key enters the encoding through two 64-bit words
  only: keys with the same effective key encode and decode alike for every flow, so the
  scheme has at most \<open>2 ^ 128\<close> distinguishable keys.
\<close>

theorem effective_key_only:
  assumes "effective_key key = effective_key key'"
  shows "encode_proxy_src c d ctx key = encode_proxy_src c d ctx key' \<and>
    decode_proxy_src a ctx key = decode_proxy_src a ctx key'"
  using effective_key_cong [OF assms] by blast

theorem effective_key_only_witness:
  "encode_proxy_src 100 7 (ProxySrcCtx_new 50000 443 6)
     \<lparr> prince_key = [0, 0, 0, 0, 0, 0, 0, 1, 0, 0, 0, 0, 0, 4, 0, 0],
       siphash_key = [0, 0, 0, 0, 0, 0, 0, 0, 0, 0, 0, 0, 0, 0, 0, 0] \<rparr> =
   encode_proxy_src 100 7 (ProxySrcCtx_new 50000 443 6)
     \<lparr> prince_key = [0, 0, 0, 0, 0, 0, 0, 0, 0, 0, 0, 0, 0, 0, 0, 0],
       siphash_key = [0, 0, 0, 0, 0, 0, 0, 0, 0, 0, 0, 0, 0, 0, 0, 0] \<rparr>"
  by (rule effective_key_only [THEN conjunct1])
    (simp add: effective_key_def from_be_bytes_def word_eval)

text \<open>
  C38. \<open>is_zero\<close> recognises exactly the all-zero key, yet there is a
  key it does not recognise that encodes and decodes every packet as the all-zero key does.
\<close>

theorem zero_key_twin:
  "(is_zero key \<longleftrightarrow> list_all (\<lambda>i. prince_key key ! i = 0 \<and> siphash_key key ! i = 0) [0..<16]) \<and>
   (\<exists>weak. length (prince_key weak) = 16 \<and> length (siphash_key weak) = 16 \<and> \<not> is_zero weak \<and>
      (\<exists>zero. is_zero zero \<and>
        (\<forall>c d ctx. encode_proxy_src c d ctx weak = encode_proxy_src c d ctx zero) \<and>
        (\<forall>a ctx. decode_proxy_src a ctx weak = decode_proxy_src a ctx zero)))"
proof -
  let ?z = "[0, 0, 0, 0, 0, 0, 0, 0, 0, 0, 0, 0, 0, 0, 0, 0] :: bytes"
  let ?weak = "\<lparr> prince_key = [0, 0, 0, 0, 0, 0, 0, 1, 0, 0, 0, 0, 0, 4, 0, 0], siphash_key = ?z \<rparr>"
  let ?zero = "\<lparr> prince_key = ?z, siphash_key = ?z \<rparr>"
  have e: "effective_key ?weak = effective_key ?zero"
    by (simp add: effective_key_def from_be_bytes_def word_eval)
  have "\<forall>c d ctx. encode_proxy_src c d ctx ?weak = encode_proxy_src c d ctx ?zero"
    using effective_key_cong(1) [OF e] by blast
  moreover have "\<forall>a ctx. decode_proxy_src a ctx ?weak = decode_proxy_src a ctx ?zero"
    using effective_key_cong(2) [OF e] by blast
  moreover have "\<not> is_zero ?weak" "is_zero ?zero"
    by (simp_all add: is_zero_def upt_16)
  ultimately show ?thesis
    by (intro conjI is_zero_iff exI [of _ ?weak] exI [of _ ?zero]) simp_all
qed

text \<open>
  \<open>domain_id_from_ipv6\<close> inverts \<open>synthetic_ipv6\<close>, every
  synthetic address and every client VIP is a 16-byte address below the synthetic prefix, and
  the last four bytes of a VIP are the client id.
\<close>

theorem synthetic_ipv6_roundtrip:
  "domain_id_from_ipv6 (synthetic_ipv6 domain_id) = domain_id \<and>
   length (synthetic_ipv6 domain_id) = 16 \<and> take 4 (synthetic_ipv6 domain_id) = SYNTHETIC_PREFIX \<and>
   length (client_vip_from_id24 client_id) = 16 \<and>
   take 4 (client_vip_from_id24 client_id) = SYNTHETIC_PREFIX \<and>
   from_be_bytes (drop 12 (client_vip_from_id24 client_id)) = client_id"
  by (simp add: domain_id_synthetic prefix_synthetic prefix_client_vip client_id_of_vip)

text \<open>
  The discriminator keeps synthetic addresses and client VIPs
  apart, with one exception: domain 1 and client 1 share the address
  \<open>fd00:abcd:0:1::1\<close>. A synthetic address carries the VIP discriminator exactly for domain 1.
\<close>

theorem vip_synthetic_overlap:
  "(synthetic_ipv6 domain_id = client_vip_from_id24 client_id \<longleftrightarrow> domain_id = 1 \<and> client_id = 1) \<and>
   (take 4 (drop 4 (synthetic_ipv6 domain_id)) = VIP_POOL_DISCRIMINATOR \<longleftrightarrow> domain_id = 1)"
proof -
  have one: "to_be_bytes (1 :: u32) = [0, 0, 0, 1]" by (simp add: to_be_bytes_def upt_rec)
  have eq: "to_be_bytes d = [0, 0, 0, 1] \<longleftrightarrow> d = 1" for d :: u32
    using to_be_bytes_inject_u32 [of d 1] by (simp only: one)
  have eq': "[0, 0, 0, 1] = to_be_bytes d \<longleftrightarrow> d = 1" for d :: u32
    using to_be_bytes_inject_u32 [of 1 d] by (simp only: one eq_commute [of 1])
  have app: "xs @ [0, 0, 0, 0, 0, 0, 0, 1] = 0 # 0 # 0 # 1 # 0 # 0 # 0 # 0 # ys \<longleftrightarrow>
      xs = [0, 0, 0, 1] \<and> [0, 0, 0, 1] = ys" if "length xs = 4" for xs ys :: bytes
    using that by (auto elim: length_4_exhaust)
  show ?thesis
    by (simp add: synthetic_ipv6_def client_vip_from_id24_def VIP_POOL_DISCRIMINATOR_def app eq eq')
qed

end
