(* ===== verification/UnitTests.thy ===== *)
theory UnitTests
  imports Prince SipHash ProxySrc
begin

text \<open>
  The unit tests of \<open>common/src/crypto.rs\<close> and \<open>common/src/lib.rs\<close> on the model: each
  test is the conjunction of its assertions, and an \<open>unwrap\<close> of \<open>None\<close> fails it. The frozen
  vectors tie the definitions of the model to the outputs of the code. The test of
  \<open>size_of\<close> is about the layout of types, which the model does not have.
\<close>

section \<open>Tests of the primitives\<close>

definition test_hash_ctx_zero :: bool where
  "test_hash_ctx_zero = (hash_ctx (ProxySrcCtx_new 0 0 0) = 0x0000000000000000)"

definition test_hash_ctx_443_50000_tcp :: bool where
  "test_hash_ctx_443_50000_tcp = (hash_ctx (ProxySrcCtx_new 443 50000 6) = 0xae510a47a775e0c3)"

definition test_hash_ctx_50000_443_tcp :: bool where
  "test_hash_ctx_50000_443_tcp = (hash_ctx (ProxySrcCtx_new 50000 443 6) = 0x6999dcb37e570b67)"

definition test_hash_ctx_443_50000_udp :: bool where
  "test_hash_ctx_443_50000_udp = (hash_ctx (ProxySrcCtx_new 443 50000 17) = 0x8e7b5430862b54bc)"

definition test_hash_ctx_1_1_1 :: bool where
  "test_hash_ctx_1_1_1 = (hash_ctx (ProxySrcCtx_new 1 1 1) = 0xfbf2b99b8d507220)"

definition test_hash_ctx_distinct_outputs :: bool where
  "test_hash_ctx_distinct_outputs =
     (let values = [0x0000000000000000 :: u64, 0xae510a47a775e0c3, 0x6999dcb37e570b67, 0x8e7b5430862b54bc,
            0xfbf2b99b8d507220]
      in list_all (\<lambda>i. list_all (\<lambda>j. values ! i \<noteq> values ! j) [i + 1..<length values]) [0..<length values])"

definition test_m_prime_is_involution :: bool where
  "test_m_prime_is_involution =
     list_all (\<lambda>x. m_prime (m_prime x) = x)
       [0, 1, 0xdeadbeef, 0x0123456789abcdef, 0xffffffffffffffff, 0xcafebabe00000000]"

text \<open>The assertions of the three tests of PRINCE vectors.\<close>

definition prince_test_vector :: "bytes \<Rightarrow> u64 \<Rightarrow> u64 \<Rightarrow> bool" where
  "prince_test_vector key pt expected =
     (let ct = prince_encrypt pt key in ct = expected \<and> prince_decrypt ct key = pt)"

definition test_prince_test_vector_all_zero :: bool where
  "test_prince_test_vector_all_zero = prince_test_vector (replicate 16 0) 0x0000000000000000 0x818665aa0d02dfda"

definition test_prince_test_vector_2 :: bool where
  "test_prince_test_vector_2 = prince_test_vector (replicate 16 0) 0xffffffffffffffff 0x604ae6ca03c20ada"

definition test_prince_test_vector_3 :: bool where
  "test_prince_test_vector_3 =
     prince_test_vector
       ((replicate 16 0)[8 := 0xfe, 9 := 0xdc, 10 := 0xba, 11 := 0x98, 12 := 0x76, 13 := 0x54, 14 := 0x32, 15 := 0x10])
       0x0123456789abcdef 0xae25ad3ca8fa9ccf"

definition test_prince_roundtrip_various :: bool where
  "test_prince_roundtrip_various =
     (let key = [0x01, 0x23, 0x45, 0x67, 0x89, 0xab, 0xcd, 0xef, 0xfe, 0xdc, 0xba, 0x98, 0x76, 0x54, 0x32, 0x10]
      in list_all (\<lambda>pt. let ct = prince_encrypt pt key in prince_decrypt ct key = pt \<and> ct \<noteq> pt)
           [0, 1, 0xdeadbeefcafe0000, 0xffffffffffffffff, 0x0123456789abcdef])"

definition test_prince_encrypt_decrypt_consistency :: bool where
  "test_prince_encrypt_decrypt_consistency =
     (let key = [0xde, 0xad, 0xbe, 0xef, 0xca, 0xfe, 0xba, 0xbe, 0x01, 0x02, 0x03, 0x04, 0x05, 0x06, 0x07, 0x08]
      in list_all (\<lambda>pt. prince_decrypt (prince_encrypt pt key) key = pt) (map word_of_nat [0..<100]))"

definition sip_test_key :: bytes where
  "sip_test_key = [0x00, 0x01, 0x02, 0x03, 0x04, 0x05, 0x06, 0x07, 0x08, 0x09, 0x0a, 0x0b, 0x0c, 0x0d, 0x0e, 0x0f]"

definition sip_expected :: "u64 list" where
  "sip_expected =
     [0x726fdb47dd0e0e31, 0x74f839c593dc67fd, 0x0d6c8009d9a94f5a, 0x85676696d7fb7e2d,
      0xcf2794e0277187b7, 0x18765564cd99a68d, 0xcbc9466e58fee3ce, 0xab0200f58b01d137,
      0x93f5f5799a932462, 0x9e0082df0ba9e4b0, 0x7a5dbbc594ddb9f3, 0xf4b32f46226bada7,
      0x751e8fbc860ee5fb, 0x14ea5627c0843d90, 0xf723ca908e7af2ee, 0xa129ca6149be45e5]"

definition test_siphash_reference_vectors :: "(bytes \<Rightarrow> bytes \<Rightarrow> u64) \<Rightarrow> bool" where
  "test_siphash_reference_vectors hasher =
     list_all (\<lambda>i. siphash_2_4 hasher sip_test_key (map word_of_nat [0..<i]) = sip_expected ! i) [0..<16]"

definition test_siphash_empty_input :: "(bytes \<Rightarrow> bytes \<Rightarrow> u64) \<Rightarrow> bool" where
  "test_siphash_empty_input hasher =
     (let key = replicate 16 0; h1 = siphash_2_4 hasher key []; h2 = siphash_2_4 hasher key [] in h1 = h2)"

definition test_siphash_fixed_17_matches_reference :: "(bytes \<Rightarrow> bytes \<Rightarrow> u64) \<Rightarrow> bool" where
  "test_siphash_fixed_17_matches_reference hasher =
     (let input = [0x20, 0x01, 0x0d, 0xb8, 0x13, 0x57, 0x9b, 0xdf, 0x24, 0x68, 0xac, 0xf0, 0x01, 0xbb, 0xc3, 0x50, 0x06];
          expected = siphash_2_4 hasher sip_test_key input;
          got = siphash_2_4_17 sip_test_key input
      in got = expected)"

definition test_siphash_fixed_17_many_inputs :: "(bytes \<Rightarrow> bytes \<Rightarrow> u64) \<Rightarrow> bool" where
  "test_siphash_fixed_17_many_inputs hasher =
     (let key = [0xf0, 0xe1, 0xd2, 0xc3, 0xb4, 0xa5, 0x96, 0x87, 0x78, 0x69, 0x5a, 0x4b, 0x3c, 0x2d, 0x1e, 0x0f]
      in list_all (\<lambda>seed.
           let input = map (\<lambda>i. word_of_nat seed * 17 + word_of_nat i * 29) [0..<17]
           in siphash_2_4_17 key input = siphash_2_4 hasher key input) [0..<32])"

definition crypto_tests :: "(bytes \<Rightarrow> bytes \<Rightarrow> u64) \<Rightarrow> bool list" where
  "crypto_tests hasher =
     [test_hash_ctx_zero, test_hash_ctx_443_50000_tcp, test_hash_ctx_50000_443_tcp, test_hash_ctx_443_50000_udp,
      test_hash_ctx_1_1_1, test_hash_ctx_distinct_outputs, test_m_prime_is_involution,
      test_prince_test_vector_all_zero, test_prince_test_vector_2, test_prince_test_vector_3,
      test_prince_roundtrip_various, test_prince_encrypt_decrypt_consistency,
      test_siphash_reference_vectors hasher, test_siphash_empty_input hasher,
      test_siphash_fixed_17_matches_reference hasher, test_siphash_fixed_17_many_inputs hasher]"

section \<open>Tests of the address encoding\<close>

definition tcp_ctx :: "u16 \<Rightarrow> u16 \<Rightarrow> ProxySrcCtx" where
  "tcp_ctx sp dp = ProxySrcCtx_new sp dp 6"

text \<open>\<open>unwrap\<close> in a test.\<close>

definition with_some :: "'a option \<Rightarrow> ('a \<Rightarrow> bool) \<Rightarrow> bool" where
  "with_some x P = (case x of None \<Rightarrow> False | Some y \<Rightarrow> P y)"

definition test_vip_discriminator_matches_client_vip_layout :: bool where
  "test_vip_discriminator_matches_client_vip_layout =
     (let vip = client_vip_from_id24 0x00010000
      in take 4 vip = SYNTHETIC_PREFIX \<and> take 4 (drop 4 vip) = VIP_POOL_DISCRIMINATOR \<and>
         take 4 (drop 8 vip) = replicate 4 0 \<and> take 4 (drop 12 vip) = to_be_bytes (0x00010000 :: u32))"

definition test_synthetic_ipv6_prefix_matches :: bool where
  "test_synthetic_ipv6_prefix_matches = (take 4 (synthetic_ipv6 42) = SYNTHETIC_PREFIX)"

definition test_xfrm_if_id_is_nonzero :: bool where
  "test_xfrm_if_id_is_nonzero = (XFRM_IF_ID > 0)"

definition test_encode_decode_roundtrip :: bool where
  "test_encode_decode_roundtrip =
     (let ctx = tcp_ctx 50000 443
      in with_some (encode_proxy_src 100 7 ctx TEST_KEY) (\<lambda>addr.
           take 4 addr = PROXY_SRC_PREFIX \<and>
           with_some (decode_proxy_src addr ctx TEST_KEY) (\<lambda>(cid, did). cid = 100 \<and> did = 7)))"

definition test_encode_decode_roundtrip_various :: bool where
  "test_encode_decode_roundtrip_various =
     list_all (\<lambda>(cid, did, sp, dp).
         let ctx = tcp_ctx sp dp
         in with_some (encode_proxy_src cid did ctx TEST_KEY) (\<lambda>addr.
              with_some (decode_proxy_src addr ctx TEST_KEY) (\<lambda>(c, d). (c, d) = (cid, did))))
       [(0, 0, 1024, 80), (1, 1, 443, 50000), (0x00FFFFFF, 0x00FFFFFF, 65535, 65535),
        (0x00010000, 7, 50000, 443), (42, 999, 8080, 3000)]"

definition test_different_ctx_different_enc64 :: bool where
  "test_different_ctx_different_enc64 =
     with_some (encode_proxy_src 100 7 (tcp_ctx 50000 443) TEST_KEY) (\<lambda>addr1.
       with_some (encode_proxy_src 100 7 (tcp_ctx 50001 443) TEST_KEY) (\<lambda>addr2.
         take 8 (drop 4 addr1) \<noteq> take 8 (drop 4 addr2)))"

definition test_same_ctx_same_enc64 :: bool where
  "test_same_ctx_same_enc64 =
     (let ctx = tcp_ctx 50000 443
      in with_some (encode_proxy_src 100 7 ctx TEST_KEY) (\<lambda>addr1.
           with_some (encode_proxy_src 100 7 ctx TEST_KEY) (\<lambda>addr2. addr1 = addr2)))"

definition test_wrong_key_decode_returns_none :: bool where
  "test_wrong_key_decode_returns_none =
     (let ctx = tcp_ctx 50000 443; wrong_key = \<lparr> prince_key = replicate 16 0xFF, siphash_key = replicate 16 0xFF \<rparr>
      in with_some (encode_proxy_src 100 7 ctx TEST_KEY) (\<lambda>addr. decode_proxy_src addr ctx wrong_key = None))"

definition test_tag32_tamper_returns_none :: bool where
  "test_tag32_tamper_returns_none =
     (let ctx = tcp_ctx 50000 443
      in with_some (encode_proxy_src 100 7 ctx TEST_KEY) (\<lambda>addr.
           decode_proxy_src (addr[12 := addr ! 12 XOR 0x01]) ctx TEST_KEY = None))"

definition test_enc64_tamper_returns_none :: bool where
  "test_enc64_tamper_returns_none =
     (let ctx = tcp_ctx 50000 443
      in with_some (encode_proxy_src 100 7 ctx TEST_KEY) (\<lambda>addr.
           decode_proxy_src (addr[6 := addr ! 6 XOR 0x01]) ctx TEST_KEY = None))"

definition test_client_id_over_24bit_returns_none :: bool where
  "test_client_id_over_24bit_returns_none =
     (encode_proxy_src 0x01000000 7 (tcp_ctx 50000 443) TEST_KEY = None)"

definition test_domain_id_over_24bit_returns_none :: bool where
  "test_domain_id_over_24bit_returns_none =
     (encode_proxy_src 100 0x01000000 (tcp_ctx 50000 443) TEST_KEY = None)"

definition test_proxy_src_key_is_zero :: bool where
  "test_proxy_src_key_is_zero =
     (is_zero \<lparr> prince_key = replicate 16 0, siphash_key = replicate 16 0 \<rparr> \<and> \<not> is_zero TEST_KEY)"

definition test_proxy_src_prefix_distinct_from_synthetic :: bool where
  "test_proxy_src_prefix_distinct_from_synthetic = (PROXY_SRC_PREFIX \<noteq> SYNTHETIC_PREFIX)"

definition lib_tests :: "bool list" where
  "lib_tests =
     [test_vip_discriminator_matches_client_vip_layout, test_synthetic_ipv6_prefix_matches,
      test_xfrm_if_id_is_nonzero, test_encode_decode_roundtrip, test_encode_decode_roundtrip_various,
      test_different_ctx_different_enc64, test_same_ctx_same_enc64, test_wrong_key_decode_returns_none,
      test_tag32_tamper_returns_none, test_enc64_tamper_returns_none, test_client_id_over_24bit_returns_none,
      test_domain_id_over_24bit_returns_none, test_proxy_src_key_is_zero,
      test_proxy_src_prefix_distinct_from_synthetic]"

section \<open>Results\<close>

lemma hash_ctx_tests:
  "test_hash_ctx_zero" "test_hash_ctx_443_50000_tcp" "test_hash_ctx_50000_443_tcp" "test_hash_ctx_443_50000_udp"
  "test_hash_ctx_1_1_1"
  by (simp_all add: test_hash_ctx_zero_def test_hash_ctx_443_50000_tcp_def test_hash_ctx_50000_443_tcp_def
      test_hash_ctx_443_50000_udp_def test_hash_ctx_1_1_1_def hash_ctx_def ProxySrcCtx_new_def word_eval Let_def
      cong: let_weak_cong)

lemma hash_ctx_distinct_test: "test_hash_ctx_distinct_outputs"
  by (simp add: test_hash_ctx_distinct_outputs_def upt_rec)

lemma m_prime_test: "test_m_prime_is_involution"
  by (simp add: test_m_prime_is_involution_def m_prime_involution)

lemmas prince_run = prince_encrypt_def prince_core_encrypt_def Let_def prince_eval from_be_bytes_def

lemma prince_zero_0: "prince_encrypt 0 [0, 0, 0, 0, 0, 0, 0, 0, 0, 0, 0, 0, 0, 0, 0, 0] = 0x818665aa0d02dfda"
  by (simp add: prince_run cong: let_weak_cong)

lemma prince_zero_1:
  "prince_encrypt 0xffffffffffffffff [0, 0, 0, 0, 0, 0, 0, 0, 0, 0, 0, 0, 0, 0, 0, 0] = 0x604ae6ca03c20ada"
  by (simp add: prince_run cong: let_weak_cong)

lemma zero_16: "replicate 16 0 = [0, 0, 0, 0, 0, 0, 0, 0, 0, 0, 0, 0, 0, 0, 0, 0 :: u8]"
  by (simp add: replicate_numeral_Cons)

lemma prince_test_vector_iff: "prince_test_vector key pt e \<longleftrightarrow> prince_encrypt pt key = e"
  by (auto simp: prince_test_vector_def Let_def prince.inverse_left)

lemma prince_vector_tests:
  "test_prince_test_vector_all_zero" "test_prince_test_vector_2" "test_prince_test_vector_3"
  by (simp_all add: test_prince_test_vector_all_zero_def test_prince_test_vector_2_def test_prince_test_vector_3_def
      prince_test_vector_iff zero_16 prince_zero_0 prince_zero_1 prince_vector)

abbreviation various_key :: bytes where
  "various_key \<equiv> [0x01, 0x23, 0x45, 0x67, 0x89, 0xab, 0xcd, 0xef, 0xfe, 0xdc, 0xba, 0x98, 0x76, 0x54, 0x32, 0x10]"

lemma prince_moves_0: "prince_encrypt 0 various_key \<noteq> 0"
  by (simp add: prince_run cong: let_weak_cong)

lemma prince_moves_1: "prince_encrypt 1 various_key \<noteq> 1"
  by (simp add: prince_run cong: let_weak_cong)

lemma prince_moves_2: "prince_encrypt 0xdeadbeefcafe0000 various_key \<noteq> 0xdeadbeefcafe0000"
  by (simp add: prince_run cong: let_weak_cong)

lemma prince_moves_3: "prince_encrypt 0xffffffffffffffff various_key \<noteq> 0xffffffffffffffff"
  by (simp add: prince_run cong: let_weak_cong)

lemma prince_moves_4: "prince_encrypt 0x0123456789abcdef various_key \<noteq> 0x0123456789abcdef"
  by (simp add: prince_run cong: let_weak_cong)

lemma prince_roundtrip_tests: "test_prince_roundtrip_various" "test_prince_encrypt_decrypt_consistency"
  unfolding test_prince_roundtrip_various_def test_prince_encrypt_decrypt_consistency_def Let_def
  using prince_moves_0 prince_moves_1 prince_moves_2 prince_moves_3 prince_moves_4
  by (simp_all only: list.pred_inject prince.inverse_left simp_thms) (simp add: list_all_length)

lemma sip_reference_0:
  "siphash 2 4 sip_test_key (map word_of_nat [0..<0]) = 0x726fdb47dd0e0e31"
  "siphash 2 4 sip_test_key (map word_of_nat [0..<1]) = 0x74f839c593dc67fd"
  "siphash 2 4 sip_test_key (map word_of_nat [0..<2]) = 0x0d6c8009d9a94f5a"
  "siphash 2 4 sip_test_key (map word_of_nat [0..<3]) = 0x85676696d7fb7e2d"
  by (simp_all add: sip_test_key_def sip_eval upt_rec cong: let_weak_cong)

lemma sip_reference_1:
  "siphash 2 4 sip_test_key (map word_of_nat [0..<4]) = 0xcf2794e0277187b7"
  "siphash 2 4 sip_test_key (map word_of_nat [0..<5]) = 0x18765564cd99a68d"
  "siphash 2 4 sip_test_key (map word_of_nat [0..<6]) = 0xcbc9466e58fee3ce"
  "siphash 2 4 sip_test_key (map word_of_nat [0..<7]) = 0xab0200f58b01d137"
  by (simp_all add: sip_test_key_def sip_eval upt_rec cong: let_weak_cong)

lemma sip_reference_2:
  "siphash 2 4 sip_test_key (map word_of_nat [0..<8]) = 0x93f5f5799a932462"
  "siphash 2 4 sip_test_key (map word_of_nat [0..<9]) = 0x9e0082df0ba9e4b0"
  "siphash 2 4 sip_test_key (map word_of_nat [0..<10]) = 0x7a5dbbc594ddb9f3"
  "siphash 2 4 sip_test_key (map word_of_nat [0..<11]) = 0xf4b32f46226bada7"
  by (simp_all add: sip_test_key_def sip_eval upt_rec cong: let_weak_cong)

lemma sip_reference_3:
  "siphash 2 4 sip_test_key (map word_of_nat [0..<12]) = 0x751e8fbc860ee5fb"
  "siphash 2 4 sip_test_key (map word_of_nat [0..<13]) = 0x14ea5627c0843d90"
  "siphash 2 4 sip_test_key (map word_of_nat [0..<14]) = 0xf723ca908e7af2ee"
  "siphash 2 4 sip_test_key (map word_of_nat [0..<15]) = 0xa129ca6149be45e5"
  by (simp_all add: sip_test_key_def sip_eval upt_rec cong: let_weak_cong)

context sip_hasher
begin

lemma sip_vector: "siphash_2_4 hasher sip_test_key data = siphash 2 4 sip_test_key data"
  by (simp add: siphash_2_4_def sip24 sip_test_key_def)

lemma sip_vectors: "test_siphash_reference_vectors hasher"
  unfolding test_siphash_reference_vectors_def sip_vector upt_16 list.pred_inject
  by (simp add: sip_reference_0 [simplified] sip_reference_1 sip_reference_2 sip_reference_3 sip_expected_def
      sip_reference_0 del: upt_rec_numeral)

lemma sip_fixed_tests:
  "test_siphash_empty_input hasher" "test_siphash_fixed_17_matches_reference hasher"
  "test_siphash_fixed_17_many_inputs hasher"
  by (simp_all add: test_siphash_empty_input_def test_siphash_fixed_17_matches_reference_def
      test_siphash_fixed_17_many_inputs_def fixed_17 sip_test_key_def list_all_length)

end

lemma TEST_KEY_encoded:
  "encode_proxy_src 100 7 (tcp_ctx 50000 443) TEST_KEY =
     Some [0x20, 0x01, 0x0d, 0xb8, 0xbb, 0x38, 0x47, 0xd7, 0x5d, 0xae, 0xd2, 0x42, 0xd1, 0x3e, 0x42, 0x9e]"
  by (simp add: tcp_ctx_def TEST_KEY_vector)

lemma layout_tests:
  "test_vip_discriminator_matches_client_vip_layout" "test_synthetic_ipv6_prefix_matches" "test_xfrm_if_id_is_nonzero"
  "test_client_id_over_24bit_returns_none" "test_domain_id_over_24bit_returns_none"
  "test_proxy_src_prefix_distinct_from_synthetic" "test_proxy_src_key_is_zero"
  by (simp_all add: test_vip_discriminator_matches_client_vip_layout_def test_synthetic_ipv6_prefix_matches_def
      test_xfrm_if_id_is_nonzero_def test_client_id_over_24bit_returns_none_def
      test_domain_id_over_24bit_returns_none_def test_proxy_src_prefix_distinct_from_synthetic_def
      test_proxy_src_key_is_zero_def client_vip_from_id24_def synthetic_ipv6_def contract_defs to_be_bytes_def
      encode_proxy_src_def is_zero_def TEST_KEY_def upt_16 upt_rec replicate_numeral_Cons Let_def)

lemma roundtrip_tests:
  "test_encode_decode_roundtrip" "test_encode_decode_roundtrip_various" "test_same_ctx_same_enc64"
proof -
  have r: "with_some (encode_proxy_src c d ctx TEST_KEY) (\<lambda>addr. with_some (decode_proxy_src addr ctx TEST_KEY) (\<lambda>(c', d'). (c', d') = (c, d)))"
    if "c \<le> 0xFFFFFF" "d \<le> 0xFFFFFF" for c d ctx
    using encode_decode_roundtrip [of c d ctx TEST_KEY] that by (auto simp: with_some_def contract_defs)
  show "test_encode_decode_roundtrip_various"
    unfolding test_encode_decode_roundtrip_various_def Let_def list.pred_inject prod.case by (intro conjI r TrueI) simp_all
  show "test_encode_decode_roundtrip" "test_same_ctx_same_enc64"
    by (simp_all add: test_encode_decode_roundtrip_def test_same_ctx_same_enc64_def Let_def with_some_def TEST_KEY_encoded
        TEST_KEY_accepts [folded tcp_ctx_def] contract_defs)
qed

lemma other_ctx_mix: "key_ctx_mix (ProxySrcCtx_new 50001 443 6) TEST_KEY = 0x90a531aff09173fc"
  by (simp add: key_ctx_mix_def hash_ctx_def mix64_def ProxySrcCtx_new_def TEST_KEY_words word_eval)

lemma other_ctx_scramble: "scramble 0x90a531aff09173fc (pack_ids 100 7) = 0x3500924a5534a659"
  by (simp add: scramble_def pack_ids_def word_eval)

lemma other_ctx_test: "test_different_ctx_different_enc64"
proof -
  have "encode_proxy_src 100 7 (tcp_ctx 50001 443) TEST_KEY =
      Some (PROXY_SRC_PREFIX @ to_be_bytes (0x3500924a5534a659 :: u64) @ to_be_bytes (tag32 0x3500924a5534a659 (tcp_ctx 50001 443) TEST_KEY))"
    by (simp add: encode_proxy_src_eq tcp_ctx_def other_ctx_mix other_ctx_scramble contract_defs)
  moreover have "to_be_bytes (0x3500924a5534a659 :: u64) \<noteq> [0xbb, 0x38, 0x47, 0xd7, 0x5d, 0xae, 0xd2, 0x42]"
    by (simp add: to_be_bytes_def upt_rec)
  ultimately show ?thesis
    by (simp add: test_different_ctx_different_enc64_def with_some_def TEST_KEY_encoded contract_defs)
qed

lemma tampered_tag: "tag32 0xbb3846d75daed242 (ProxySrcCtx_new 50000 443 6) TEST_KEY = 0x4398208f"
  by (simp add: tag32_def mix64_def ProxySrcCtx_new_def TEST_KEY_words word_eval)

lemma wrong_key_tag:
  "tag32 0xbb3847d75daed242 (ProxySrcCtx_new 50000 443 6) \<lparr> prince_key = replicate 16 0xFF, siphash_key = replicate 16 0xFF \<rparr> =
     0x8c1ec23e"
  by (simp add: tag32_def mix64_def ProxySrcCtx_new_def replicate_numeral_Cons from_be_bytes_def word_eval)

lemma tamper_tests:
  "test_wrong_key_decode_returns_none" "test_tag32_tamper_returns_none" "test_enc64_tamper_returns_none"
  unfolding test_wrong_key_decode_returns_none_def test_tag32_tamper_returns_none_def test_enc64_tamper_returns_none_def
    with_some_def TEST_KEY_encoded Let_def option.case decode_proxy_src_eq
  by (simp_all add: tcp_ctx_def from_be_bytes_def TEST_KEY_tag tampered_tag wrong_key_tag word_eval)



end
