(* ===== verification/Buffers.thy ===== *)
theory Buffers
  imports Prelude
begin

text \<open>
  Byte buffers: reading and overwriting a range, and the 16-bit ones' complement sum of
  RFC 1071 up to its congruence modulo \<open>65535\<close>. Shared by the XDP and TC programs.
\<close>

section \<open>Ranges of a buffer\<close>

definition bslice :: "nat \<Rightarrow> nat \<Rightarrow> 'a list \<Rightarrow> 'a list" where
  "bslice off n xs = take n (drop off xs)"

definition put :: "nat \<Rightarrow> 'a list \<Rightarrow> 'a list \<Rightarrow> 'a list" where
  "put off ys xs = take off xs @ ys @ drop (off + length ys) xs"

named_theorems buffer_simps

lemma length_slice [buffer_simps]: "off + n \<le> length xs \<Longrightarrow> length (bslice off n xs) = n"
  by (simp add: bslice_def)

lemma length_put [buffer_simps]: "off + length ys \<le> length xs \<Longrightarrow> length (put off ys xs) = length xs"
  by (simp add: put_def)

lemma nth_slice: "i < n \<Longrightarrow> off + i < length xs \<Longrightarrow> bslice off n xs ! i = xs ! (off + i)"
  by (simp add: bslice_def)

lemma nth_put:
  "off + length ys \<le> length xs \<Longrightarrow> i < length xs \<Longrightarrow>
     put off ys xs ! i = (if off \<le> i \<and> i < off + length ys then ys ! (i - off) else xs ! i)"
  by (auto simp: put_def nth_append min_def)

lemma nth_put_other [buffer_simps]:
  "off + length ys \<le> length xs \<Longrightarrow> i < length xs \<Longrightarrow> i < off \<or> off + length ys \<le> i \<Longrightarrow>
     put off ys xs ! i = xs ! i"
  by (auto simp: nth_put)

lemma slice_put_same [buffer_simps]:
  "off + length ys \<le> length xs \<Longrightarrow> n = length ys \<Longrightarrow> bslice off n (put off ys xs) = ys"
  by (simp add: bslice_def put_def min_def)

lemma slice_put_other [buffer_simps]:
  "off + length ys \<le> length xs \<Longrightarrow> off' + n \<le> length xs \<Longrightarrow> off' + n \<le> off \<or> off + length ys \<le> off' \<Longrightarrow>
     bslice off' n (put off ys xs) = bslice off' n xs"
  by (rule nth_equalityI) (auto simp: length_slice length_put nth_slice nth_put)

lemma put_slice_same: "off + n \<le> length xs \<Longrightarrow> put off (bslice off n xs) xs = xs"
  by (rule nth_equalityI) (auto simp: length_slice length_put nth_slice nth_put)

lemma put_put_same: "off + length ys \<le> length xs \<Longrightarrow> length zs = length ys \<Longrightarrow>
    put off zs (put off ys xs) = put off zs xs"
  by (rule nth_equalityI) (auto simp: length_put nth_put)

lemma put_put_commute:
  "off + length ys \<le> length xs \<Longrightarrow> off' + length zs \<le> length xs \<Longrightarrow>
     off' + length zs \<le> off \<or> off + length ys \<le> off' \<Longrightarrow>
     put off' zs (put off ys xs) = put off ys (put off' zs xs)"
  by (rule nth_equalityI) (auto simp: length_put nth_put)

lemma list_update_put: "off < length xs \<Longrightarrow> xs[off := y] = put off [y] xs"
  by (simp add: put_def upd_conv_take_nth_drop)

lemma put_Cons:
  "off + Suc (length ys) \<le> length xs \<Longrightarrow> put (Suc off) ys (put off [y] xs) = put off (y # ys) xs"
  by (rule nth_equalityI) (auto simp: length_put nth_put nth_Cons')

lemma put_Nil [simp]: "put off [] xs = xs"
  by (simp add: put_def)

lemma slice_take_4:
  "length xs = 4 \<Longrightarrow> xs = ys \<longleftrightarrow> length ys = 4 \<and> xs ! 0 = ys ! 0 \<and> xs ! 1 = ys ! 1 \<and> xs ! 2 = ys ! 2 \<and> xs ! 3 = ys ! 3"
  by (auto intro!: nth_equalityI dest!: less_4_cases)

section \<open>The ones' complement sum\<close>

fun sum16 :: "bytes \<Rightarrow> int" where
  "sum16 (a # b # xs) = 256 * uint a + uint b + sum16 xs"
| "sum16 [a] = 256 * uint a"
| "sum16 [] = 0"

definition csum_eq :: "int \<Rightarrow> int \<Rightarrow> bool" where
  "csum_eq a b \<longleftrightarrow> (a - b) mod 65535 = 0"

lemma csum_eq_refl [simp]: "csum_eq a a"
  by (simp add: csum_eq_def)

lemma csum_eq_dvd: "csum_eq a b \<longleftrightarrow> 65535 dvd a - b"
  by (simp add: csum_eq_def dvd_eq_mod_eq_0)

lemma csum_eq_sym: "csum_eq a b \<Longrightarrow> csum_eq b a"
  unfolding csum_eq_dvd by (metis dvd_minus_iff minus_diff_eq)

lemma csum_eq_trans: "csum_eq a b \<Longrightarrow> csum_eq b c \<Longrightarrow> csum_eq a c"
  unfolding csum_eq_dvd using dvd_add [of 65535 "a - b" "b - c"] by simp

lemma csum_eq_cong: "csum_eq a b \<Longrightarrow> csum_eq a c \<longleftrightarrow> csum_eq b c"
  using csum_eq_sym csum_eq_trans by blast

lemma csum_eq_add: "csum_eq a b \<Longrightarrow> csum_eq c d \<Longrightarrow> csum_eq (a + c) (b + d)"
  unfolding csum_eq_dvd using dvd_add [of 65535 "a - b" "c - d"] by (simp add: algebra_simps)

lemma csum_eq_scale: "csum_eq a b \<Longrightarrow> csum_eq (c * a) (c * b)"
  unfolding csum_eq_dvd by (metis dvd_mult right_diff_distrib)

lemma csum_eq_unscale:
  assumes "csum_eq (c * c) 1" and "csum_eq (c * a) (c * b)"
  shows "csum_eq a b"
proof -
  have "65535 dvd c * (c * a - c * b)" using assms(2) by (simp add: csum_eq_dvd)
  then have "65535 dvd (c * c) * (a - b)" by (simp add: algebra_simps)
  moreover have "65535 dvd (c * c - 1) * (a - b)" using assms(1) by (simp add: csum_eq_dvd)
  ultimately have "65535 dvd (c * c) * (a - b) - (c * c - 1) * (a - b)" by (rule dvd_diff)
  then show ?thesis by (simp add: csum_eq_dvd algebra_simps)
qed

lemma sum16_append: "even (length xs) \<Longrightarrow> sum16 (xs @ ys) = sum16 xs + sum16 ys"
  by (induction xs rule: sum16.induct) auto

lemma sum16_nonneg: "0 \<le> sum16 xs"
  by (induction xs rule: sum16.induct) auto

lemma sum16_put:
  assumes "even off" and "off + length ys \<le> length xs" and "even (length ys)"
  shows "sum16 (put off ys xs) = sum16 xs - sum16 (bslice off (length ys) xs) + sum16 ys"
proof -
  have "xs = take off xs @ bslice off (length ys) xs @ drop (off + length ys) xs"
    using append_take_drop_id [of "length ys" "drop off xs"] append_take_drop_id [of off xs]
    by (simp add: bslice_def add.commute [of off])
  moreover have "even (length (take off xs))" "even (length (bslice off (length ys) xs))"
    using assms by (simp_all add: length_slice)
  ultimately have "sum16 xs = sum16 (take off xs) + (sum16 (bslice off (length ys) xs)
      + sum16 (drop (off + length ys) xs))"
    by (metis sum16_append)
  then show ?thesis
    using assms by (simp add: put_def sum16_append)
qed

lemma slice_slice: "off' + k \<le> n \<Longrightarrow> bslice off' k (bslice off n xs) = bslice (off + off') k xs"
  by (simp add: bslice_def drop_take min_def add.commute)

lemma slice_put_inside:
  assumes "k + length ys \<le> n" "off + k + length ys \<le> length xs"
  shows "bslice off n (put (off + k) ys xs) = put k ys (bslice off n xs)"
proof -
  have len: "length (bslice off n zs) = min n (length zs - off)" for zs :: "'a list"
    by (simp add: bslice_def)
  then have "k + length ys \<le> length (bslice off n xs)" using assms by simp
  then show ?thesis
    using assms by (intro nth_equalityI) (auto simp: len length_put nth_put nth_slice)
qed

end
