(* ===== verification/Skb.thy ===== *)
theory Skb
  imports Buffers ProxySrc
begin

text \<open>
  What the eBPF programs of \<open>ebpf/src/main.rs\<close> share: the maps, bounds-checked access to
  packet memory, the header fields they read, and the kernel helpers they call. The helpers
  (\<open>aya\<close>'s \<open>TcContext\<close> methods and the \<open>bpf_*\<close> functions) are not part of the
  repository: they are the fields of a record \<open>kernel\<close>, an argument of the TC programs, and
  what the programs rely on of them is the locale \<open>bpf_kernel\<close>. Packet headers are at
  their wire offsets (IEEE 802.3, RFC 8200, RFC 9293, RFC 768).
\<close>

section \<open>Results and maps\<close>

text \<open>\<open>Result<T, ()>\<close>.\<close>

datatype 'a res = Ok 'a | Err

record ReplyTrackKey =
  rt_origin_ipv6 :: bytes
  rt_origin_port :: u16
  rt_translated_port :: u16
  rt_proto :: u8
  rt_pad :: bytes

record ReplyTrackValue =
  rt_proxy_src :: bytes

text \<open>
  The statics of the program. An \<open>Array\<close> map is a list; \<open>Array::get\<close> beyond its
  entries is \<open>None\<close>. \<open>DEV_WAN_IPV6\<close>, \<open>REPLY_TRACK\<close> and \<open>DBG_COUNTERS\<close> exist
  under the feature \<open>dev-mode\<close> only; without it nothing reads or writes them.
\<close>

record bpf_maps =
  NAT_MAP :: "u32 \<rightharpoonup> NatEntry"
  XFRM_IFINDEX :: "u32 list"
  OBFS_KEYS :: "ProxySrcKey list"
  DEV_WAN_IPV6 :: "bytes list"
  REPLY_TRACK :: "ReplyTrackKey \<rightharpoonup> ReplyTrackValue"
  DBG_COUNTERS :: "u64 list"

definition array_get :: "'a list \<Rightarrow> nat \<Rightarrow> 'a option" where
  "array_get a i = (if i < length a then Some (a ! i) else None)"

definition dbg_inc :: "nat \<Rightarrow> bpf_maps \<Rightarrow> bpf_maps" where
  "dbg_inc idx m =
     (case array_get (DBG_COUNTERS m) idx of
        Some val \<Rightarrow> m\<lparr>DBG_COUNTERS := (DBG_COUNTERS m)[idx := val + 1]\<rparr>
      | None \<Rightarrow> m)"

text \<open>\<open>u16::to_be\<close> on the little-endian BPF target.\<close>

definition u16_to_be :: "u16 \<Rightarrow> u16" where
  "u16_to_be x = push_bit 8 x OR drop_bit 8 x"

section \<open>Header fields\<close>

definition EthHdr_LEN :: nat where "EthHdr_LEN = 14"

definition Ipv6Hdr_LEN :: nat where "Ipv6Hdr_LEN = 40"

definition TcpHdr_LEN :: nat where "TcpHdr_LEN = 20"

definition UdpHdr_LEN :: nat where "UdpHdr_LEN = 8"

definition IpProto_Tcp :: u8 where "IpProto_Tcp = 6"

definition IpProto_Udp :: u8 where "IpProto_Udp = 17"

definition IpProto_Ipv6Icmp :: u8 where "IpProto_Ipv6Icmp = 58"

definition ether_type_ipv6 :: "bytes \<Rightarrow> nat \<Rightarrow> bool" where
  "ether_type_ipv6 p eth \<longleftrightarrow> bslice (eth + 12) 2 p = [0x86, 0xDD]"

definition next_hdr :: "bytes \<Rightarrow> nat \<Rightarrow> u8" where
  "next_hdr p ip = p ! (ip + 6)"

definition src_addr :: "bytes \<Rightarrow> nat \<Rightarrow> bytes" where
  "src_addr p ip = bslice (ip + 8) 16 p"

definition dst_addr :: "bytes \<Rightarrow> nat \<Rightarrow> bytes" where
  "dst_addr p ip = bslice (ip + 24) 16 p"

definition l4_source :: "bytes \<Rightarrow> nat \<Rightarrow> u16" where
  "l4_source p l4 = from_be_bytes (bslice l4 2 p)"

definition l4_dest :: "bytes \<Rightarrow> nat \<Rightarrow> u16" where
  "l4_dest p l4 = from_be_bytes (bslice (l4 + 2) 2 p)"

lemmas header_lens = EthHdr_LEN_def Ipv6Hdr_LEN_def TcpHdr_LEN_def UdpHdr_LEN_def

lemmas ip_protos = IpProto_Tcp_def IpProto_Udp_def IpProto_Ipv6Icmp_def

text \<open>The comparison of the first four bytes of an address with a prefix, as written out in the programs.\<close>

definition has_prefix :: "bytes \<Rightarrow> bytes \<Rightarrow> bool" where
  "has_prefix a p \<longleftrightarrow> a ! 0 = p ! 0 \<and> a ! 1 = p ! 1 \<and> a ! 2 = p ! 2 \<and> a ! 3 = p ! 3"

lemma has_prefix_take: "length p = 4 \<Longrightarrow> 4 \<le> length a \<Longrightarrow> has_prefix a p \<longleftrightarrow> take 4 a = p"
  by (subst slice_take_4) (auto simp: has_prefix_def)

definition zero_addr :: bytes where
  "zero_addr = [0, 0, 0, 0, 0, 0, 0, 0, 0, 0, 0, 0, 0, 0, 0, 0]"

section \<open>Socket buffers and helpers\<close>

text \<open>
  A socket buffer: the packet's bytes, how many of them are in the linear part that direct
  access can reach (\<open>data_end - data\<close>), and whether its checksum is \<open>CHECKSUM_PARTIAL\<close>,
  i.e. still to be completed by the transmit path.
\<close>

record skb =
  pkt :: bytes
  headlen :: nat
  csum_partial :: bool

definition skb_ok :: "skb \<Rightarrow> bool" where
  "skb_ok s \<longleftrightarrow> headlen s \<le> length (pkt s)"

definition ptr_at :: "skb \<Rightarrow> nat \<Rightarrow> nat \<Rightarrow> nat res" where
  "ptr_at s offset sz = (if offset + sz > headlen s then Err else Ok offset)"

text \<open>
  The helpers: \<open>ctx.load::<u8>\<close>, \<open>ctx.store\<close> of one byte, \<open>bpf_csum_diff\<close>,
  \<open>ctx.l4_csum_replace\<close>, \<open>bpf_redirect\<close> and \<open>HashMap::insert\<close> on
  \<open>REPLY_TRACK\<close>. \<open>None\<close> is an error return, after which the buffer is unchanged.
\<close>

record kernel =
  k_load :: "skb \<Rightarrow> nat \<Rightarrow> u8 option"
  k_store :: "skb \<Rightarrow> nat \<Rightarrow> u8 \<Rightarrow> u64 \<Rightarrow> skb option"
  k_csum_diff :: "bytes \<Rightarrow> bytes \<Rightarrow> u32 \<Rightarrow> u64"
  k_l4_csum_replace :: "skb \<Rightarrow> nat \<Rightarrow> u64 \<Rightarrow> u64 \<Rightarrow> u64 \<Rightarrow> skb option"
  k_redirect :: "u32 \<Rightarrow> u64 \<Rightarrow> int"
  k_reply_insert ::
    "(ReplyTrackKey \<rightharpoonup> ReplyTrackValue) \<Rightarrow> ReplyTrackKey \<Rightarrow> ReplyTrackValue \<Rightarrow> u64 \<Rightarrow>
      (ReplyTrackKey \<rightharpoonup> ReplyTrackValue) option"

definition BPF_F_PSEUDO_HDR :: u64 where
  "BPF_F_PSEUDO_HDR = push_bit 4 1"

definition BPF_F_MARK_MANGLED_0 :: u64 where
  "BPF_F_MARK_MANGLED_0 = push_bit 5 1"

definition update_addr_csum ::
  "kernel \<Rightarrow> skb \<Rightarrow> nat \<Rightarrow> bytes \<Rightarrow> bytes \<Rightarrow> unit res \<times> skb" where
  "update_addr_csum K s csum_offset old_addr new_addr =
     (let diff = k_csum_diff K old_addr new_addr 0
      in case k_l4_csum_replace K s csum_offset 0 diff BPF_F_PSEUDO_HDR of
           None \<Rightarrow> (Err, s)
         | Some s' \<Rightarrow> (Ok (), s'))"

definition ipv6_offset :: "kernel \<Rightarrow> skb \<Rightarrow> nat res" where
  "ipv6_offset K s =
     (case k_load K s 0 of
        None \<Rightarrow> Err
      | Some first_byte \<Rightarrow>
          if drop_bit 4 first_byte = 6 then Ok 0
          else case ptr_at s 0 EthHdr_LEN of
                 Err \<Rightarrow> Err
               | Ok ethhdr \<Rightarrow> if \<not> ether_type_ipv6 (pkt s) ethhdr then Err else Ok EthHdr_LEN)"

text \<open>
  The last branch of \<open>extract_l4_ports\<close> is \<open>unreachable_unchecked\<close>: its callers
  have checked the protocol.
\<close>

definition extract_l4_ports :: "skb \<Rightarrow> nat \<Rightarrow> u8 \<Rightarrow> (u16 \<times> u16) res" where
  "extract_l4_ports s l4_base pr =
     (if pr = IpProto_Tcp then
        case ptr_at s l4_base TcpHdr_LEN of
          Err \<Rightarrow> Err
        | Ok tcp \<Rightarrow> Ok (l4_source (pkt s) tcp, l4_dest (pkt s) tcp)
      else if pr = IpProto_Udp then
        case ptr_at s l4_base UdpHdr_LEN of
          Err \<Rightarrow> Err
        | Ok udp \<Rightarrow> Ok (l4_source (pkt s) udp, l4_dest (pkt s) udp)
      else Err)"

text \<open>The loops \<open>for (i, byte) in addr.iter().enumerate() { ctx.store(off + i, byte, 0)? }\<close>.\<close>

fun store_bytes :: "kernel \<Rightarrow> nat \<Rightarrow> bytes \<Rightarrow> skb \<Rightarrow> unit res \<times> skb" where
  "store_bytes K off [] s = (Ok (), s)"
| "store_bytes K off (b # bs) s =
     (case k_store K s off b 0 of
        None \<Rightarrow> (Err, s)
      | Some s' \<Rightarrow> store_bytes K (Suc off) bs s')"

section \<open>What the programs rely on\<close>

text \<open>
  The documented behaviour of the helpers. \<open>e\<close> is the weight of host byte order in ones'
  complement arithmetic: \<open>1\<close> on a big-endian host, \<open>256\<close> on a little-endian one; in
  both cases \<open>e * e\<close> is congruent to \<open>1\<close>. A store changes the addressed byte and
  nothing else. \<open>bpf_csum_diff\<close> returns a 32-bit sum congruent to the difference of its
  buffers plus the seed. \<open>bpf_l4_csum_replace\<close> with \<open>from = 0\<close> and size 0 writes two
  bytes and subtracts \<open>to\<close> from the complemented checksum of a packet that is not
  \<open>CHECKSUM_PARTIAL\<close>; with \<open>BPF_F_MARK_MANGLED_0\<close> a null checksum stays as it is.
\<close>

locale bpf_kernel =
  fixes K :: kernel and e :: int
  assumes host_order: "csum_eq (e * e) 1"
    and load: "k_load K s 0 = (if pkt s = [] then None else Some (pkt s ! 0))"
    and store: "k_store K s i b f = Some s' \<Longrightarrow>
      i < length (pkt s) \<and> pkt s' = (pkt s)[i := b] \<and> csum_partial s' = csum_partial s"
    and csum_diff: "length x mod 4 = 0 \<Longrightarrow> length y mod 4 = 0 \<Longrightarrow>
      csum_eq (uint (k_csum_diff K x y seed)) (e * (sum16 y - sum16 x) + uint seed)"
    and csum_diff_32: "uint (k_csum_diff K x y seed) < 2 ^ 32"
    and csum_replace: "k_l4_csum_replace K s off 0 to f = Some s' \<Longrightarrow> f AND 0xF = 0 \<Longrightarrow>
      \<exists>a b. off + 2 \<le> length (pkt s) \<and> pkt s' = put off [a, b] (pkt s) \<and>
        csum_partial s' = csum_partial s"
    and csum_replace_sum: "k_l4_csum_replace K s off 0 to f = Some s' \<Longrightarrow> f AND 0xF = 0 \<Longrightarrow>
      \<not> csum_partial s \<Longrightarrow> uint to < 2 ^ 32 \<Longrightarrow>
      f AND BPF_F_MARK_MANGLED_0 = 0 \<or> to = 0 \<Longrightarrow>
      csum_eq (e * sum16 (bslice off 2 (pkt s'))) (e * sum16 (bslice off 2 (pkt s)) - uint to)"
    and insert: "k_reply_insert K t k v f = Some t' \<Longrightarrow> t' = t(k \<mapsto> v)"
begin

lemma update_addr_csum:
  assumes "update_addr_csum K s off old new = (Ok (), s')" "length old = 16" "length new = 16"
  shows "\<exists>a b. off + 2 \<le> length (pkt s) \<and> pkt s' = put off [a, b] (pkt s) \<and>
      csum_partial s' = csum_partial s \<and>
      (csum_partial s \<or>
        csum_eq (sum16 [a, b] + sum16 new) (sum16 (bslice off 2 (pkt s)) + sum16 old))"
proof -
  define d where "d = k_csum_diff K old new 0"
  have r: "k_l4_csum_replace K s off 0 d BPF_F_PSEUDO_HDR = Some s'"
    using assms(1) by (simp add: update_addr_csum_def d_def split: option.splits)
  have f: "BPF_F_PSEUDO_HDR AND 0xF = 0" "BPF_F_PSEUDO_HDR AND BPF_F_MARK_MANGLED_0 = 0"
    by (simp_all add: BPF_F_PSEUDO_HDR_def BPF_F_MARK_MANGLED_0_def)
  obtain a b where ab: "off + 2 \<le> length (pkt s)" "pkt s' = put off [a, b] (pkt s)"
      "csum_partial s' = csum_partial s"
    using csum_replace [OF r f(1)] by blast
  have "csum_eq (sum16 [a, b] + sum16 new) (sum16 (bslice off 2 (pkt s)) + sum16 old)"
    if "\<not> csum_partial s"
  proof -
    have "bslice off 2 (pkt s') = [a, b]"
      unfolding ab(2) by (rule slice_put_same) (use ab(1) in simp_all)
    moreover have "uint d < 2 ^ 32" unfolding d_def by (rule csum_diff_32)
    ultimately have A: "csum_eq (e * sum16 [a, b]) (e * sum16 (bslice off 2 (pkt s)) - uint d)"
      using csum_replace_sum [OF r f(1) that] f(2) by metis
    have B: "csum_eq (e * (sum16 new - sum16 old)) (uint d)"
      by (rule csum_eq_sym) (use csum_diff [of old new 0] assms(2,3) in \<open>simp add: d_def\<close>)
    from csum_eq_add [OF csum_eq_add [OF A B] csum_eq_refl [of "e * sum16 old"]]
    have "csum_eq (e * (sum16 [a, b] + sum16 new)) (e * (sum16 (bslice off 2 (pkt s)) + sum16 old))"
      by (simp only: distrib_left right_diff_distrib diff_add_cancel add.assoc)
    with host_order show ?thesis by (rule csum_eq_unscale)
  qed
  with ab show ?thesis by blast
qed

lemma store_bytes:
  "store_bytes K off bs s = (Ok (), s') \<Longrightarrow> bs \<noteq> [] \<Longrightarrow>
     off + length bs \<le> length (pkt s) \<and> pkt s' = put off bs (pkt s) \<and> csum_partial s' = csum_partial s"
proof (induction bs arbitrary: off s)
  case (Cons b bs)
  obtain t where t: "k_store K s off b 0 = Some t" "store_bytes K (Suc off) bs t = (Ok (), s')"
    using Cons.prems(1) by (auto split: option.splits)
  then have st: "off < length (pkt s)" "pkt t = put off [b] (pkt s)" "csum_partial t = csum_partial s"
    using store [OF t(1)] by (simp_all add: list_update_put)
  show ?case
  proof (cases "bs = []")
    case True
    then show ?thesis using st t(2) by simp
  next
    case False
    then show ?thesis using Cons.IH [OF t(2)] st by (simp add: length_put put_Cons)
  qed
qed simp

end

text \<open>Helpers that fail only outside the packet: no allocation failure.\<close>

locale bpf_kernel_live = bpf_kernel +
  assumes store_ok: "i < length (pkt s) \<Longrightarrow> k_store K s i b f \<noteq> None"
    and csum_replace_ok: "off + 2 \<le> length (pkt s) \<Longrightarrow> f AND 0xF = 0 \<Longrightarrow>
      k_l4_csum_replace K s off 0 to f \<noteq> None"
begin

lemma store_bytes_ok: "off + length bs \<le> length (pkt s) \<Longrightarrow> \<exists>s'. store_bytes K off bs s = (Ok (), s')"
proof (induction bs arbitrary: off s)
  case (Cons b bs)
  then obtain t where t: "k_store K s off b 0 = Some t" using store_ok by fastforce
  then have "length (pkt t) = length (pkt s)" using store by fastforce
  then show ?case using Cons t by simp
qed simp

lemma update_addr_csum_ok:
  "off + 2 \<le> length (pkt s) \<Longrightarrow> \<exists>s'. update_addr_csum K s off old new = (Ok (), s')"
  using csum_replace_ok [of off s BPF_F_PSEUDO_HDR "k_csum_diff K old new 0"]
  by (auto simp: update_addr_csum_def BPF_F_PSEUDO_HDR_def)

end

end
