(* ===== verification/Xdp.thy ===== *)
theory Xdp
  imports Skb
begin

text \<open>
  The XDP filter on the WAN interface (\<open>xdp_wan\<close> of \<open>ebpf/src/main.rs\<close>). An XDP
  program sees the whole frame as one linear buffer and calls no helper that can fail. The
  argument \<open>dev\<close> says whether the program is built with the feature \<open>dev-mode\<close>.
\<close>

section \<open>The program\<close>

definition XDP_DROP :: u32 where "XDP_DROP = 1"

definition XDP_PASS :: u32 where "XDP_PASS = 2"

definition ptr_at_xdp :: "bytes \<Rightarrow> nat \<Rightarrow> nat \<Rightarrow> nat res" where
  "ptr_at_xdp p offset sz = (if offset + sz > length p then Err else Ok offset)"

definition extract_l4_ports_xdp :: "bytes \<Rightarrow> nat \<Rightarrow> u8 \<Rightarrow> (u16 \<times> u16) res" where
  "extract_l4_ports_xdp p l4_base pr =
     (if pr = IpProto_Tcp then
        case ptr_at_xdp p l4_base TcpHdr_LEN of
          Err \<Rightarrow> Err
        | Ok tcp \<Rightarrow> Ok (l4_source p tcp, l4_dest p tcp)
      else if pr = IpProto_Udp then
        case ptr_at_xdp p l4_base UdpHdr_LEN of
          Err \<Rightarrow> Err
        | Ok udp \<Rightarrow> Ok (l4_source p udp, l4_dest p udp)
      else Err)"

text \<open>
  The key under which a connection is tracked: \<open>ReplyTrackKey { .., ..Default::default() }\<close>.
\<close>

definition reply_track_key :: "bytes \<Rightarrow> u16 \<Rightarrow> u16 \<Rightarrow> u8 \<Rightarrow> ReplyTrackKey" where
  "reply_track_key origin oport tport pr =
     \<lparr> rt_origin_ipv6 = origin, rt_origin_port = oport, rt_translated_port = tport, rt_proto = pr,
       rt_pad = [0, 0, 0] \<rparr>"

text \<open>
  The \<open>dev-mode\<close> block of \<open>try_xdp_wan\<close>. Its first result is the action of a
  \<open>return\<close> statement, or \<open>None\<close> when control reaches the end of the block.
\<close>

definition xdp_dev_block ::
  "bpf_maps \<Rightarrow> bytes \<Rightarrow> nat \<Rightarrow> bytes \<Rightarrow> u32 option \<times> bpf_maps \<times> bytes" where
  "xdp_dev_block m p ipv6hdr dst_ipv6 =
     (case array_get (DEV_WAN_IPV6 m) 0 of
        Some wan \<Rightarrow>
          if wan \<noteq> zero_addr \<and> dst_ipv6 = wan then
            let m = dbg_inc 2 m;
                nexthdr = next_hdr p ipv6hdr
            in if \<not> (nexthdr = IpProto_Tcp \<or> nexthdr = IpProto_Udp) then (Some XDP_PASS, m, p)
               else
                 let proto_num = (if nexthdr = IpProto_Tcp then 6 else 17);
                     l4_base = EthHdr_LEN + Ipv6Hdr_LEN
                 in case extract_l4_ports_xdp p l4_base nexthdr of
                      Err \<Rightarrow> (Some XDP_PASS, m, p)
                    | Ok (sport, dport) \<Rightarrow>
                        let src_ipv6 = src_addr p ipv6hdr;
                            track_key =
                              reply_track_key src_ipv6 (u16_to_be sport) (u16_to_be dport) proto_num
                        in case REPLY_TRACK m track_key of
                             Some track_val \<Rightarrow>
                               (Some XDP_PASS, dbg_inc 3 m, put (ipv6hdr + 24) (rt_proxy_src track_val) p)
                           | None \<Rightarrow> (Some XDP_PASS, dbg_inc 4 m, p)
          else (None, dbg_inc 6 m, p)
      | None \<Rightarrow> (None, dbg_inc 7 m, p))"

definition try_xdp_wan :: "bool \<Rightarrow> bpf_maps \<Rightarrow> bytes \<Rightarrow> u32 res \<times> bpf_maps \<times> bytes" where
  "try_xdp_wan dev m p =
     (case ptr_at_xdp p 0 EthHdr_LEN of
        Err \<Rightarrow> (Err, m, p)
      | Ok ethhdr \<Rightarrow>
          if \<not> ether_type_ipv6 p ethhdr then (Ok XDP_PASS, m, p)
          else
            case ptr_at_xdp p EthHdr_LEN Ipv6Hdr_LEN of
              Err \<Rightarrow> (Err, m, p)
            | Ok ipv6hdr \<Rightarrow>
                if next_hdr p ipv6hdr = IpProto_Ipv6Icmp then (Ok XDP_PASS, m, p)
                else
                  let dst_ipv6 = dst_addr p ipv6hdr;
                      m = (if dev then dbg_inc 0 m else m)
                  in if has_prefix dst_ipv6 PROXY_SRC_PREFIX
                     then (Ok XDP_PASS, if dev then dbg_inc 1 m else m, p)
                     else
                       let (ret, m, p) =
                             (if dev then xdp_dev_block m p ipv6hdr dst_ipv6 else (None, m, p))
                       in case ret of
                            Some action \<Rightarrow> (Ok action, m, p)
                          | None \<Rightarrow> (Ok XDP_DROP, if dev then dbg_inc 5 m else m, p))"

definition xdp_wan :: "bool \<Rightarrow> bpf_maps \<Rightarrow> bytes \<Rightarrow> u32 \<times> bpf_maps \<times> bytes" where
  "xdp_wan dev m p =
     (case try_xdp_wan dev m p of
        (Ok action, m', p') \<Rightarrow> (action, m', p')
      | (Err, m', p') \<Rightarrow> (XDP_PASS, m', p'))"

lemmas xdp_defs = xdp_wan_def try_xdp_wan_def xdp_dev_block_def ptr_at_xdp_def

section \<open>Verdicts\<close>

text \<open>A frame that carries a whole IPv6 header behind an Ethernet header.\<close>

definition ipv6_frame :: "bytes \<Rightarrow> bool" where
  "ipv6_frame p \<longleftrightarrow> 54 \<le> length p \<and> ether_type_ipv6 p 0"

definition dev_wan :: "bpf_maps \<Rightarrow> bytes option" where
  "dev_wan m = (case array_get (DEV_WAN_IPV6 m) 0 of
     Some wan \<Rightarrow> if wan = zero_addr then None else Some wan | None \<Rightarrow> None)"

lemma length_dst: "54 \<le> length p \<Longrightarrow> length (dst_addr p 14) = 16"
  by (simp add: dst_addr_def length_slice)

lemma xdp_production:
  "xdp_wan False m p =
     (if ipv6_frame p \<and> next_hdr p 14 \<noteq> IpProto_Ipv6Icmp \<and> take 4 (dst_addr p 14) \<noteq> PROXY_SRC_PREFIX
      then XDP_DROP else XDP_PASS, m, p)"
  by (auto simp: xdp_defs header_lens ipv6_frame_def has_prefix_take length_dst)

lemma dbg_inc_frame [simp]:
  "NAT_MAP (dbg_inc i m) = NAT_MAP m" "XFRM_IFINDEX (dbg_inc i m) = XFRM_IFINDEX m"
  "OBFS_KEYS (dbg_inc i m) = OBFS_KEYS m" "DEV_WAN_IPV6 (dbg_inc i m) = DEV_WAN_IPV6 m"
  "REPLY_TRACK (dbg_inc i m) = REPLY_TRACK m"
  by (simp_all add: dbg_inc_def split: option.split)

definition counter :: "bpf_maps \<Rightarrow> nat \<Rightarrow> u64" where
  "counter m i = DBG_COUNTERS m ! i"

lemma length_dbg_inc [simp]: "length (DBG_COUNTERS (dbg_inc i m)) = length (DBG_COUNTERS m)"
  by (simp add: dbg_inc_def split: option.split)

lemma counter_dbg_inc:
  "length (DBG_COUNTERS m) = 8 \<Longrightarrow> i < 8 \<Longrightarrow>
     counter (dbg_inc i m) j = (if i = j then counter m j + 1 else counter m j)"
  by (simp add: counter_def dbg_inc_def array_get_def)

text \<open>The bookkeeping of the debug counters: every counted packet takes one exit.\<close>

definition counters_ok :: "bpf_maps \<Rightarrow> bool" where
  "counters_ok m \<longleftrightarrow> length (DBG_COUNTERS m) = 8 \<and>
     counter m 0 = counter m 1 + counter m 2 + counter m 5 \<and>
     counter m 5 = counter m 6 + counter m 7"

text \<open>What one run of the \<open>dev-mode\<close> block does to the counters.\<close>

lemma xdp_dev_block_counters:
  assumes "xdp_dev_block m p h dst = (ret, m', p')" and "length (DBG_COUNTERS m) = 8"
  shows "length (DBG_COUNTERS m') = 8 \<and> counter m' 0 = counter m 0 \<and> counter m' 1 = counter m 1 \<and>
    counter m' 5 = counter m 5 \<and>
    (if ret = None
     then counter m' 2 = counter m 2 \<and> counter m' 6 + counter m' 7 = counter m 6 + counter m 7 + 1
     else counter m' 2 = counter m 2 + 1 \<and> counter m' 6 = counter m 6 \<and> counter m' 7 = counter m 7)"
  using assms unfolding xdp_dev_block_def Let_def
  by (auto simp: counter_dbg_inc split: option.splits if_splits res.splits prod.splits)

lemma counters_ok_step: "counters_ok m \<Longrightarrow> counters_ok (fst (snd (xdp_wan True m p)))"
proof (cases "ipv6_frame p \<and> next_hdr p 14 \<noteq> IpProto_Ipv6Icmp \<and> \<not> has_prefix (dst_addr p 14) PROXY_SRC_PREFIX")
  case True
  assume ok: "counters_ok m"
  obtain ret m' p' where b: "xdp_dev_block (dbg_inc 0 m) p 14 (dst_addr p 14) = (ret, m', p')"
    by (metis prod.exhaust)
  have "fst (snd (xdp_wan True m p)) = (if ret = None then dbg_inc 5 m' else m')"
    using True b by (auto simp: xdp_wan_def try_xdp_wan_def ptr_at_xdp_def header_lens ipv6_frame_def
        split: option.splits)
  then show ?thesis
    using xdp_dev_block_counters [OF b] ok
    by (auto simp: counters_ok_def counter_dbg_inc split: if_splits)
next
  case False
  assume ok: "counters_ok m"
  have "fst (snd (xdp_wan True m p)) = m \<or> fst (snd (xdp_wan True m p)) = dbg_inc 1 (dbg_inc 0 m)"
    using False by (auto simp: xdp_wan_def try_xdp_wan_def ptr_at_xdp_def header_lens ipv6_frame_def)
  then show ?thesis using ok by (auto simp: counters_ok_def counter_dbg_inc)
qed

section \<open>Properties\<close>

text \<open>
  C29. The verdict of the filter on every frame. It drops exactly the IPv6
  packets, other than ICMPv6, whose destination is outside the proxy-source prefix and, in
  dev-mode, is not the configured WAN address; everything else passes, truncated and non-IPv6
  frames included. A destination below the synthetic prefix is dropped.
\<close>

theorem xdp_wan_verdict:
  "fst (xdp_wan dev m p) =
     (if ipv6_frame p \<and> next_hdr p 14 \<noteq> IpProto_Ipv6Icmp \<and> take 4 (dst_addr p 14) \<noteq> PROXY_SRC_PREFIX \<and>
         \<not> (dev \<and> dev_wan m = Some (dst_addr p 14))
      then XDP_DROP else XDP_PASS)"
  by (auto simp: xdp_defs header_lens ipv6_frame_def has_prefix_take length_dst dev_wan_def Let_def
      split: option.splits res.splits prod.splits)

text \<open>The proxy-source address tracked for a reply to the WAN address.\<close>

definition tracked_reply :: "bpf_maps \<Rightarrow> bytes \<Rightarrow> bytes option" where
  "tracked_reply m p =
     (if ipv6_frame p \<and> take 4 (dst_addr p 14) \<noteq> PROXY_SRC_PREFIX \<and> dev_wan m = Some (dst_addr p 14) \<and>
         (next_hdr p 14 = IpProto_Tcp \<and> 74 \<le> length p \<or> next_hdr p 14 = IpProto_Udp \<and> 62 \<le> length p)
      then map_option rt_proxy_src
        (REPLY_TRACK m (reply_track_key (src_addr p 14) (u16_to_be (l4_source p 54))
           (u16_to_be (l4_dest p 54)) (next_hdr p 14)))
      else None)"

lemma tracked_reply_dbg_inc [simp]: "tracked_reply (dbg_inc i m) p = tracked_reply m p"
  unfolding tracked_reply_def dev_wan_def by (simp only: dbg_inc_frame)

lemma dbg_inc_only [simp]: "(dbg_inc i m)\<lparr>DBG_COUNTERS := x\<rparr> = m\<lparr>DBG_COUNTERS := x\<rparr>"
  by (simp add: dbg_inc_def split: option.splits)

lemma xdp_dev_block_packet:
  assumes "ipv6_frame p" and "take 4 (dst_addr p 14) \<noteq> PROXY_SRC_PREFIX"
  shows "snd (snd (xdp_dev_block m p 14 (dst_addr p 14))) =
    (case tracked_reply m p of Some a \<Rightarrow> put 38 a p | None \<Rightarrow> p)"
  using assms unfolding xdp_dev_block_def Let_def
  by (auto simp: tracked_reply_def dev_wan_def extract_l4_ports_xdp_def ptr_at_xdp_def header_lens
      ip_protos split: option.splits)

lemma xdp_dev_packet:
  "snd (snd (xdp_wan True m p)) = (case tracked_reply m p of Some a \<Rightarrow> put 38 a p | None \<Rightarrow> p)"
proof (cases "ipv6_frame p \<and> next_hdr p 14 \<noteq> IpProto_Ipv6Icmp \<and> take 4 (dst_addr p 14) \<noteq> PROXY_SRC_PREFIX")
  case True
  obtain ret m' p' where b: "xdp_dev_block (dbg_inc 0 m) p 14 (dst_addr p 14) = (ret, m', p')"
    by (metis prod.exhaust)
  then have "snd (snd (xdp_wan True m p)) = p'"
    using True by (auto simp: xdp_wan_def try_xdp_wan_def ptr_at_xdp_def header_lens ipv6_frame_def
        has_prefix_take length_dst split: option.splits)
  then show ?thesis using xdp_dev_block_packet [of p "dbg_inc 0 m"] True b by simp
next
  case False
  then have "tracked_reply m p = None" by (auto simp: tracked_reply_def ip_protos)
  with False show ?thesis
    by (auto simp: xdp_wan_def try_xdp_wan_def ptr_at_xdp_def header_lens ipv6_frame_def
        has_prefix_take length_dst)
qed

text \<open>
  The filter changes nothing but the destination address of a tracked
  reply in dev-mode, which becomes the tracked proxy-source address; the NAT table, the keys,
  the interface index and the reply table are never changed, and without dev-mode neither are
  the counters.
\<close>

theorem xdp_wan_effect:
  "snd (snd (xdp_wan dev m p)) =
     (case (if dev then tracked_reply m p else None) of Some a \<Rightarrow> put 38 a p | None \<Rightarrow> p) \<and>
   (fst (snd (xdp_wan dev m p)))\<lparr>DBG_COUNTERS := DBG_COUNTERS m\<rparr> = m \<and>
   fst (snd (xdp_wan False m p)) = m"
proof (intro conjI)
  show "fst (snd (xdp_wan False m p)) = m" by (simp add: xdp_production)
  show "(fst (snd (xdp_wan dev m p)))\<lparr>DBG_COUNTERS := DBG_COUNTERS m\<rparr> = m"
    by (auto simp: xdp_defs Let_def dbg_inc_only split: option.splits res.splits prod.splits)
  show "snd (snd (xdp_wan dev m p)) =
      (case (if dev then tracked_reply m p else None) of Some a \<Rightarrow> put 38 a p | None \<Rightarrow> p)"
    by (cases dev) (simp_all add: xdp_production xdp_dev_packet)
qed

fun xdp_run :: "bpf_maps \<Rightarrow> bytes list \<Rightarrow> bpf_maps" where
  "xdp_run m [] = m"
| "xdp_run m (p # ps) = xdp_run (fst (snd (xdp_wan True m p))) ps"

lemma xdp_run_ok: "counters_ok m \<Longrightarrow> counters_ok (xdp_run m ps)"
  by (induction ps arbitrary: m) (simp_all add: counters_ok_step)

text \<open>
  After any sequence of frames the debug counters add up:
  every counted packet matched the proxy-source prefix, matched the WAN address or was dropped,
  and every dropped packet failed the WAN comparison or found no WAN address.
\<close>

theorem xdp_counters_consistent:
  "let m' = xdp_run (m\<lparr>DBG_COUNTERS := [0, 0, 0, 0, 0, 0, 0, 0]\<rparr>) ps
   in counter m' 0 = counter m' 1 + counter m' 2 + counter m' 5 \<and>
      counter m' 5 = counter m' 6 + counter m' 7"
proof -
  have "counters_ok (m\<lparr>DBG_COUNTERS := [0, 0, 0, 0, 0, 0, 0, 0]\<rparr>)"
    by (simp add: counters_ok_def counter_def)
  from xdp_run_ok [OF this, of ps] show ?thesis by (simp add: counters_ok_def Let_def)
qed

end
