(* ===== verification/Tc.thy ===== *)
theory Tc
  imports Xdp
begin

text \<open>
  The TC programs of \<open>ebpf/src/main.rs\<close>: \<open>tc_ingress\<close> on the tunnel interface
  (client to origin) and \<open>tc_ingress_wan\<close> on the WAN interface (origin to client). Each
  program takes the helpers \<open>K\<close>, the feature flag \<open>dev\<close>, the maps and a socket
  buffer, and returns its action with the maps and the buffer as it leaves them, also on the
  error paths: a helper that fails half-way leaves a half-rewritten packet.
\<close>

section \<open>The programs\<close>

definition TC_ACT_OK :: int where "TC_ACT_OK = 0"

definition TC_ACT_SHOT :: int where "TC_ACT_SHOT = 2"

definition TC_ACT_REDIRECT :: int where "TC_ACT_REDIRECT = 7"

lemmas tc_acts = TC_ACT_OK_def TC_ACT_SHOT_def TC_ACT_REDIRECT_def

text \<open>The checksum field: \<open>l4_base + 16\<close> for TCP, \<open>l4_base + 6\<close> for UDP.\<close>

definition csum_off :: "nat \<Rightarrow> u8 \<Rightarrow> nat" where
  "csum_off l4_base nexthdr = (if nexthdr = IpProto_Tcp then l4_base + 16 else l4_base + 6)"

definition proto_num :: "u8 \<Rightarrow> u8" where
  "proto_num nexthdr = (if nexthdr = IpProto_Tcp then 6 else 17)"

text \<open>The source address of an outgoing packet, and in dev-mode the tracking of its connection.\<close>

definition select_final_src ::
  "kernel \<Rightarrow> bool \<Rightarrow> bpf_maps \<Rightarrow> bytes \<Rightarrow> u16 \<Rightarrow> u16 \<Rightarrow> u8 \<Rightarrow> bytes \<Rightarrow> bytes \<times> bpf_maps" where
  "select_final_src K dev m origin sport dport pr proxy_src =
     (if dev then
        case array_get (DEV_WAN_IPV6 m) 0 of
          Some wan \<Rightarrow>
            if wan \<noteq> zero_addr then
              let track_key = reply_track_key origin (u16_to_be dport) (u16_to_be sport) pr;
                  track_val = \<lparr> rt_proxy_src = proxy_src \<rparr>
              in case k_reply_insert K (REPLY_TRACK m) track_key track_val 0 of
                   Some t \<Rightarrow> (wan, m\<lparr>REPLY_TRACK := t\<rparr>)
                 | None \<Rightarrow> (wan, m)
            else (proxy_src, m)
        | None \<Rightarrow> (proxy_src, m)
      else (proxy_src, m))"

text \<open>The rewriting half of \<open>try_tc_ingress\<close>.\<close>

definition ingress_rewrite ::
  "kernel \<Rightarrow> bool \<Rightarrow> bpf_maps \<Rightarrow> skb \<Rightarrow> nat \<Rightarrow> u8 \<Rightarrow> bytes \<Rightarrow> bytes \<Rightarrow> bytes \<Rightarrow> u16 \<Rightarrow> u16 \<Rightarrow> bytes \<Rightarrow>
    int res \<times> bpf_maps \<times> skb" where
  "ingress_rewrite K dev m s ip_off nexthdr orig_src dst_ipv6 origin sport dport proxy_src =
     (let ipv6_src_offset = ip_off + 8;
          ipv6_dst_offset = ip_off + 24;
          csum_offset = csum_off (ip_off + Ipv6Hdr_LEN) nexthdr
      in case store_bytes K ipv6_dst_offset origin s of
           (Err, s1) \<Rightarrow> (Err, m, s1)
         | (Ok _, s1) \<Rightarrow>
             let (final_src, m1) = select_final_src K dev m origin sport dport (proto_num nexthdr) proxy_src
             in case store_bytes K ipv6_src_offset final_src s1 of
                  (Err, s2) \<Rightarrow> (Err, m1, s2)
                | (Ok _, s2) \<Rightarrow>
                    case update_addr_csum K s2 csum_offset orig_src final_src of
                      (Err, s3) \<Rightarrow> (Err, m1, s3)
                    | (Ok _, s3) \<Rightarrow>
                        case update_addr_csum K s3 csum_offset dst_ipv6 origin of
                          (Err, s4) \<Rightarrow> (Err, m1, s4)
                        | (Ok _, s4) \<Rightarrow> (Ok TC_ACT_OK, m1, s4))"

definition try_tc_ingress :: "kernel \<Rightarrow> bool \<Rightarrow> bpf_maps \<Rightarrow> skb \<Rightarrow> int res \<times> bpf_maps \<times> skb" where
  "try_tc_ingress K dev m s =
     (case ipv6_offset K s of
        Err \<Rightarrow> (Err, m, s)
      | Ok ip_off \<Rightarrow>
     case ptr_at s ip_off Ipv6Hdr_LEN of
        Err \<Rightarrow> (Err, m, s)
      | Ok ipv6hdr \<Rightarrow>
     let nexthdr = next_hdr (pkt s) ipv6hdr in
     if \<not> (nexthdr = IpProto_Tcp \<or> nexthdr = IpProto_Udp) then (Ok TC_ACT_OK, m, s)
     else
     let dst_ipv6 = dst_addr (pkt s) ipv6hdr in
     if \<not> has_prefix dst_ipv6 SYNTHETIC_PREFIX then (Ok TC_ACT_OK, m, s)
     else
     let domain_id = from_be_bytes [dst_ipv6 ! 4, dst_ipv6 ! 5, dst_ipv6 ! 6, dst_ipv6 ! 7] in
     case NAT_MAP m domain_id of
        None \<Rightarrow> (Ok TC_ACT_SHOT, m, s)
      | Some nat_entry \<Rightarrow>
     let orig_src = src_addr (pkt s) ipv6hdr;
         client_id = from_be_bytes [orig_src ! 12, orig_src ! 13, orig_src ! 14, orig_src ! 15];
         l4_base = ip_off + Ipv6Hdr_LEN in
     case extract_l4_ports s l4_base nexthdr of
        Err \<Rightarrow> (Err, m, s)
      | Ok (sport, dport) \<Rightarrow>
     case array_get (OBFS_KEYS m) 0 of
        None \<Rightarrow> (Ok TC_ACT_SHOT, m, s)
      | Some key \<Rightarrow>
     if is_zero key then (Ok TC_ACT_SHOT, m, s)
     else
     let flow_ctx = ProxySrcCtx_new sport dport (proto_num nexthdr) in
     case encode_proxy_src client_id domain_id flow_ctx key of
        None \<Rightarrow> (Ok TC_ACT_SHOT, m, s)
      | Some proxy_src \<Rightarrow>
          ingress_rewrite K dev m s ip_off nexthdr orig_src dst_ipv6 (origin_ipv6 nat_entry)
            sport dport proxy_src)"

definition tc_ingress :: "kernel \<Rightarrow> bool \<Rightarrow> bpf_maps \<Rightarrow> skb \<Rightarrow> int \<times> bpf_maps \<times> skb" where
  "tc_ingress K dev m s =
     (case try_tc_ingress K dev m s of
        (Ok action, m', s') \<Rightarrow> (action, m', s')
      | (Err, m', s') \<Rightarrow> (TC_ACT_OK, m', s'))"

definition try_decode_with_active_key :: "bpf_maps \<Rightarrow> bytes \<Rightarrow> ProxySrcCtx \<Rightarrow> (u32 \<times> u32) option" where
  "try_decode_with_active_key m addr flow_ctx =
     (case array_get (OBFS_KEYS m) 0 of
        Some key0 \<Rightarrow>
          if \<not> is_zero key0 then
            case decode_proxy_src addr flow_ctx key0 of
              Some ids \<Rightarrow> Some ids
            | None \<Rightarrow> None
          else None
      | None \<Rightarrow> None)"

text \<open>The \<open>dev-mode\<close> checksum compensation of \<open>try_tc_ingress_wan\<close>.\<close>

definition wan_csum_fixup :: "kernel \<Rightarrow> bool \<Rightarrow> bpf_maps \<Rightarrow> skb \<Rightarrow> nat \<Rightarrow> bytes \<Rightarrow> unit res \<times> skb" where
  "wan_csum_fixup K dev m s csum_offset dst_ipv6 =
     (if dev then
        case array_get (DEV_WAN_IPV6 m) 0 of
          Some wan \<Rightarrow>
            if wan \<noteq> zero_addr then update_addr_csum K s csum_offset wan dst_ipv6
            else (Ok (), s)
        | None \<Rightarrow> (Ok (), s)
      else (Ok (), s))"

text \<open>The rewriting half of \<open>try_tc_ingress_wan\<close>.\<close>

definition wan_rewrite ::
  "kernel \<Rightarrow> bool \<Rightarrow> bpf_maps \<Rightarrow> skb \<Rightarrow> nat \<Rightarrow> u8 \<Rightarrow> bytes \<Rightarrow> bytes \<Rightarrow> bytes \<Rightarrow> bytes \<Rightarrow> int res \<times> skb" where
  "wan_rewrite K dev m s ip_off nexthdr src_ipv6 dst_ipv6 synthetic client_ipv6 =
     (let ipv6_src_offset = ip_off + 8;
          ipv6_dst_offset = ip_off + 24;
          csum_offset = csum_off (ip_off + Ipv6Hdr_LEN) nexthdr
      in case store_bytes K ipv6_src_offset synthetic s of
           (Err, s1) \<Rightarrow> (Err, s1)
         | (Ok _, s1) \<Rightarrow>
         case store_bytes K ipv6_dst_offset client_ipv6 s1 of
           (Err, s2) \<Rightarrow> (Err, s2)
         | (Ok _, s2) \<Rightarrow>
         case update_addr_csum K s2 csum_offset src_ipv6 synthetic of
           (Err, s3) \<Rightarrow> (Err, s3)
         | (Ok _, s3) \<Rightarrow>
         case update_addr_csum K s3 csum_offset dst_ipv6 client_ipv6 of
           (Err, s4) \<Rightarrow> (Err, s4)
         | (Ok _, s4) \<Rightarrow>
         case wan_csum_fixup K dev m s4 csum_offset dst_ipv6 of
           (Err, s5) \<Rightarrow> (Err, s5)
         | (Ok _, s5) \<Rightarrow>
         case k_l4_csum_replace K s5 csum_offset 0 0 (BPF_F_PSEUDO_HDR OR BPF_F_MARK_MANGLED_0) of
           None \<Rightarrow> (Err, s5)
         | Some s6 \<Rightarrow>
         case array_get (XFRM_IFINDEX m) 0 of
           None \<Rightarrow> (Ok TC_ACT_SHOT, s6)
         | Some idx \<Rightarrow>
             if idx = 0 then (Ok TC_ACT_SHOT, s6) else (Ok (k_redirect K idx 0), s6))"

definition try_tc_ingress_wan :: "kernel \<Rightarrow> bool \<Rightarrow> bpf_maps \<Rightarrow> skb \<Rightarrow> int res \<times> skb" where
  "try_tc_ingress_wan K dev m s =
     (case ipv6_offset K s of
        Err \<Rightarrow> (Err, s)
      | Ok ip_off \<Rightarrow>
     case ptr_at s ip_off Ipv6Hdr_LEN of
        Err \<Rightarrow> (Err, s)
      | Ok ipv6hdr \<Rightarrow>
     let nexthdr = next_hdr (pkt s) ipv6hdr in
     if \<not> (nexthdr = IpProto_Tcp \<or> nexthdr = IpProto_Udp) then (Ok TC_ACT_OK, s)
     else
     let dst_ipv6 = dst_addr (pkt s) ipv6hdr in
     if \<not> has_prefix dst_ipv6 PROXY_SRC_PREFIX then (Ok TC_ACT_OK, s)
     else
     let l4_base = ip_off + Ipv6Hdr_LEN in
     case extract_l4_ports s l4_base nexthdr of
        Err \<Rightarrow> (Err, s)
      | Ok (reply_src_port, reply_dst_port) \<Rightarrow>
     let flow_ctx = ProxySrcCtx_new reply_dst_port reply_src_port (proto_num nexthdr) in
     case try_decode_with_active_key m dst_ipv6 flow_ctx of
        None \<Rightarrow> (Ok TC_ACT_SHOT, s)
      | Some (client_id, domain_id) \<Rightarrow>
     let client_ipv6 = client_vip_from_id24 client_id;
         src_ipv6 = src_addr (pkt s) ipv6hdr in
     case NAT_MAP m domain_id of
        None \<Rightarrow> (Ok TC_ACT_SHOT, s)
      | Some nat_entry \<Rightarrow>
     if src_ipv6 \<noteq> origin_ipv6 nat_entry then (Ok TC_ACT_SHOT, s)
     else
       let synthetic = synthetic_ipv6 domain_id in
       wan_rewrite K dev m s ip_off nexthdr src_ipv6 dst_ipv6 synthetic client_ipv6)"

definition tc_ingress_wan :: "kernel \<Rightarrow> bool \<Rightarrow> bpf_maps \<Rightarrow> skb \<Rightarrow> int \<times> skb" where
  "tc_ingress_wan K dev m s =
     (case try_tc_ingress_wan K dev m s of
        (Ok action, s') \<Rightarrow> (action, s')
      | (Err, s') \<Rightarrow> (TC_ACT_OK, s'))"

end
