(* ===== verification/Kernel_Ref.thy ===== *)
theory Kernel_Ref
  imports Skb
begin

text \<open>
  Helpers that satisfy the laws of \<open>bpf_kernel_live\<close>, for concrete runs of the programs.
\<close>

section \<open>Reference helpers\<close>

text \<open>
  Helpers as the kernel implements them on a little-endian host, without allocation
  failures: the checksum update folds with end-around carry and complements
  (\<open>inet_proto_csum_replace_by_diff\<close>); a hash map accepts an insertion while it has the
  key or room for it.
\<close>

definition csum_fold :: "int \<Rightarrow> int" where
  "csum_fold x = (if x \<le> 0 then 0 else (x - 1) mod 65535 + 1)"

definition bytes_of_sum :: "int \<Rightarrow> bytes" where
  "bytes_of_sum c = [word_of_int (c div 256), word_of_int (c mod 256)]"

definition ref_csum_replace :: "skb \<Rightarrow> nat \<Rightarrow> u64 \<Rightarrow> u64 \<Rightarrow> u64 \<Rightarrow> skb option" where
  "ref_csum_replace s off from to f =
     (if length (pkt s) < off + 2 \<or> f AND 0xF \<noteq> 0 then None
      else
        let c = sum16 (bslice off 2 (pkt s));
            mangled = (f AND BPF_F_MARK_MANGLED_0 \<noteq> 0)
        in if mangled \<and> c = 0 then Some s
           else
             let c' = (if csum_partial s then csum_fold (c + 256 * uint to)
                       else 65535 - csum_fold (65535 - c + 256 * uint to));
                 c'' = (if mangled \<and> c' = 0 then 65535 else c')
             in Some (s\<lparr>pkt := put off (bytes_of_sum c'') (pkt s)\<rparr>))"

definition ref_kernel :: kernel where
  "ref_kernel =
     \<lparr> k_load = (\<lambda>s i. if i < length (pkt s) then Some (pkt s ! i) else None),
       k_store = (\<lambda>s i b f. if i < length (pkt s) then Some (s\<lparr>pkt := (pkt s)[i := b]\<rparr>) else None),
       k_csum_diff = (\<lambda>x y seed. word_of_int ((256 * (sum16 y - sum16 x) + uint seed) mod 65535)),
       k_l4_csum_replace = ref_csum_replace,
       k_redirect = (\<lambda>ifindex flags. if flags = 0 then 7 else 2),
       k_reply_insert = (\<lambda>t k v f. if k \<in> dom t \<or> card (dom t) < 65536 then Some (t(k \<mapsto> v)) else None) \<rparr>"

lemma csum_fold_eq:
  assumes "0 \<le> x"
  shows "csum_eq (csum_fold x) x"
proof (cases "x = 0")
  case False
  have "(x - 1) mod 65535 + 1 - x = - (65535 * ((x - 1) div 65535))"
    using mult_div_mod_eq [of 65535 "x - 1"] by linarith
  then show ?thesis using False assms by (simp add: csum_fold_def csum_eq_dvd)
qed (simp add: csum_fold_def)

lemma csum_fold_range: "0 \<le> csum_fold x \<and> csum_fold x \<le> 65535"
proof -
  have "0 \<le> (x - 1) mod 65535 \<and> (x - 1) mod 65535 < 65535" by simp
  then show ?thesis unfolding csum_fold_def by (cases "x \<le> 0") (simp_all only: if_True if_False, linarith+)
qed

lemma sum16_bytes_of_sum:
  assumes "0 \<le> c" "c \<le> 65535"
  shows "sum16 (bytes_of_sum c) = c"
proof -
  have "c div 256 < 256" using assms by linarith
  then have "uint (word_of_int (c div 256) :: u8) = c div 256"
    using assms by (simp add: uint_word_of_int)
  moreover have "uint (word_of_int (c mod 256) :: u8) = c mod 256" by (simp add: uint_word_of_int)
  ultimately show ?thesis by (simp add: bytes_of_sum_def)
qed

lemma uint_u8: "0 \<le> uint (a :: u8) \<and> uint a \<le> 255"
  using uint_bounded [of a] by simp

lemma sum16_two: "length xs = 2 \<Longrightarrow> 0 \<le> sum16 xs \<and> sum16 xs \<le> 65535"
proof (cases xs rule: sum16.cases)
  case (1 a b ys)
  assume "length xs = 2"
  then have "sum16 xs = 256 * uint a + uint b" using 1 by simp
  then show ?thesis using uint_u8 [of a] uint_u8 [of b] by linarith
qed simp_all

lemma ref_csum_replace:
  assumes "ref_csum_replace s off from to f = Some s'"
  shows "\<exists>a b. off + 2 \<le> length (pkt s) \<and> pkt s' = put off [a, b] (pkt s) \<and> csum_partial s' = csum_partial s"
proof -
  have len: "off + 2 \<le> length (pkt s)" using assms by (auto simp: ref_csum_replace_def split: if_splits)
  then have "length (bslice off 2 (pkt s)) = 2" by (rule length_slice)
  then obtain x y where xy: "bslice off 2 (pkt s) = [x, y]"
    by (auto simp: numeral_2_eq_2 length_Suc_conv)
  then have id: "put off [x, y] (pkt s) = pkt s"
    using put_slice_same [OF len] by simp
  have "csum_partial s' = csum_partial s"
    and "pkt s' = pkt s \<or> (\<exists>z. pkt s' = put off (bytes_of_sum z) (pkt s))"
    using assms by (auto simp: ref_csum_replace_def Let_def split: if_splits)
  then show ?thesis using len id unfolding bytes_of_sum_def by metis
qed

lemma ref_csum_replace_sum:
  assumes "ref_csum_replace s off 0 to f = Some s'" "\<not> csum_partial s"
    and "f AND BPF_F_MARK_MANGLED_0 = 0 \<or> to = 0"
  shows "csum_eq (256 * sum16 (bslice off 2 (pkt s'))) (256 * sum16 (bslice off 2 (pkt s)) - uint to)"
proof -
  let ?c = "sum16 (bslice off 2 (pkt s))" and ?c' = "sum16 (bslice off 2 (pkt s'))"
  let ?v = "65535 - csum_fold (65535 - ?c + 256 * uint to)"
  have len: "off + 2 \<le> length (pkt s)" using assms(1) by (auto simp: ref_csum_replace_def split: if_splits)
  then have c: "0 \<le> ?c" "?c \<le> 65535" using sum16_two [of "bslice off 2 (pkt s)"] by (simp_all add: length_slice)
  have v: "0 \<le> ?v" "?v \<le> 65535" using csum_fold_range [of "65535 - ?c + 256 * uint to"] by simp_all
  have "csum_eq (65535 - ?v) (65535 - ?c + 256 * uint to)" using c by (simp add: csum_fold_eq)
  then have v': "csum_eq ?v (?c - 256 * uint to)"
    using csum_eq_sym by (simp add: csum_eq_dvd algebra_simps)
  have sm: "sum16 (bslice off 2 (put off (bytes_of_sum z) (pkt s))) = z" if "0 \<le> z" "z \<le> 65535" for z
    using that len by (simp add: slice_put_same bytes_of_sum_def) (simp add: sum16_bytes_of_sum [unfolded bytes_of_sum_def, simplified])
  have "?c' = ?v \<or> (?c' = 65535 \<and> ?v = 0) \<or> (?c' = ?c \<and> to = 0)"
    using assms v by (auto simp: ref_csum_replace_def Let_def sm split: if_splits)
  then have "csum_eq ?c' (?c - 256 * uint to)"
  proof (elim disjE conjE)
    assume "?c' = 65535" "?v = 0"
    then have "csum_eq ?c' ?v" by (simp only:) (simp add: csum_eq_def)
    then show ?thesis using v' by (rule csum_eq_trans)
  qed (use v' in simp_all)
  then have "csum_eq (256 * ?c') (256 * (?c - 256 * uint to))" by (rule csum_eq_scale)
  moreover have "csum_eq (256 * (?c - 256 * uint to)) (256 * ?c - uint to)"
    by (simp add: csum_eq_dvd algebra_simps)
  ultimately show ?thesis by (rule csum_eq_trans)
qed

interpretation ref: bpf_kernel_live ref_kernel 256
proof unfold_locales
  fix x y :: bytes and seed
  let ?d = "(256 * (sum16 y - sum16 x) + uint (seed :: u32)) mod 65535"
  have "0 \<le> ?d" "?d < 65535" by simp_all
  then have u: "uint (k_csum_diff ref_kernel x y seed) = ?d"
    by (simp add: ref_kernel_def uint_word_of_int)
  then show "csum_eq (uint (k_csum_diff ref_kernel x y seed)) (256 * (sum16 y - sum16 x) + uint seed)"
    by (simp add: csum_eq_def mod_diff_left_eq)
  show "uint (k_csum_diff ref_kernel x y seed) < 2 ^ 32" unfolding u by (rule order.strict_trans [OF \<open>?d < 65535\<close>]) simp
next
  fix s off to f s'
  assume "k_l4_csum_replace ref_kernel s off 0 to f = Some s'"
  then have r: "ref_csum_replace s off 0 to f = Some s'" by (simp add: ref_kernel_def)
  show "\<exists>a b. off + 2 \<le> length (pkt s) \<and> pkt s' = put off [a, b] (pkt s) \<and> csum_partial s' = csum_partial s"
    by (rule ref_csum_replace [OF r])
  show "csum_eq (256 * sum16 (bslice off 2 (pkt s'))) (256 * sum16 (bslice off 2 (pkt s)) - uint to)"
    if "\<not> csum_partial s" "f AND BPF_F_MARK_MANGLED_0 = 0 \<or> to = 0"
    by (rule ref_csum_replace_sum [OF r that])
qed (auto simp: ref_kernel_def csum_eq_def ref_csum_replace_def Let_def split: if_splits)

end
