(* ===== verification/Tc_Correct.thy ===== *)
theory Tc_Correct
  imports Tc Kernel_Ref
begin

text \<open>
  Correctness of the TC programs over any helpers that satisfy \<open>bpf_kernel\<close>: which packets
  are translated and how, that a packet is translated completely or left alone, that L4
  checksums stay valid, and that only authenticated replies reach a client.
\<close>

section \<open>Flows\<close>

text \<open>
  \<open>l4_flow K s ip pr sport dport\<close>: the packet has its IPv6 header at \<open>ip\<close>, directly
  followed by a TCP or UDP header in the linear part, with these ports.
\<close>

definition l4_len :: "u8 \<Rightarrow> nat" where
  "l4_len pr = (if pr = IpProto_Tcp then TcpHdr_LEN else UdpHdr_LEN)"

definition l4_flow :: "kernel \<Rightarrow> skb \<Rightarrow> nat \<Rightarrow> u8 \<Rightarrow> u16 \<Rightarrow> u16 \<Rightarrow> bool" where
  "l4_flow K s ip pr sport dport \<longleftrightarrow>
     ipv6_offset K s = Ok ip \<and> (pr = IpProto_Tcp \<or> pr = IpProto_Udp) \<and>
     next_hdr (pkt s) ip = pr \<and> ip + 40 + l4_len pr \<le> headlen s \<and>
     l4_source (pkt s) (ip + 40) = sport \<and> l4_dest (pkt s) (ip + 40) = dport"

definition active_key :: "bpf_maps \<Rightarrow> ProxySrcKey option" where
  "active_key m = (case array_get (OBFS_KEYS m) 0 of
     Some k \<Rightarrow> if is_zero k then None else Some k | None \<Rightarrow> None)"

definition client_id_of :: "bytes \<Rightarrow> u32" where
  "client_id_of a = from_be_bytes (bslice 12 4 a)"

text \<open>
  Validity of the TCP or UDP checksum of a segment of \<open>n\<close> bytes: the pseudo-header and the
  segment sum to zero in ones' complement arithmetic (RFC 8200, section 8.1).
\<close>

definition l4_sum :: "nat \<Rightarrow> bytes \<Rightarrow> nat \<Rightarrow> int" where
  "l4_sum n p ip = sum16 (src_addr p ip) + sum16 (dst_addr p ip) + int n + uint (next_hdr p ip)
     + sum16 (bslice (ip + 40) n p)"

definition l4_csum_valid :: "nat \<Rightarrow> bytes \<Rightarrow> nat \<Rightarrow> bool" where
  "l4_csum_valid n p ip \<longleftrightarrow> csum_eq (l4_sum n p ip) 0"

text \<open>A packet with its addresses and its checksum field replaced.\<close>

definition readdressed :: "nat \<Rightarrow> u8 \<Rightarrow> bytes \<Rightarrow> bytes \<Rightarrow> bytes \<Rightarrow> bytes \<Rightarrow> bytes" where
  "readdressed ip pr src dst csum p =
     put (csum_off (ip + 40) pr) csum (put (ip + 8) src (put (ip + 24) dst p))"

lemma proto_num_id: "pr = IpProto_Tcp \<or> pr = IpProto_Udp \<Longrightarrow> proto_num pr = pr"
  by (auto simp: proto_num_def ip_protos)

lemma extract_l4_ports_flow:
  "l4_flow K s ip pr sport dport \<Longrightarrow> extract_l4_ports s (ip + Ipv6Hdr_LEN) pr = Ok (sport, dport)"
  by (auto simp: l4_flow_def extract_l4_ports_def ptr_at_def header_lens l4_len_def ip_protos)

lemma flow_ptr_at: "l4_flow K s ip pr sport dport \<Longrightarrow> ptr_at s ip Ipv6Hdr_LEN = Ok ip"
  by (simp add: l4_flow_def ptr_at_def header_lens)

lemma flow_fits:
  assumes "l4_flow K s ip pr sport dport" and "skb_ok s"
  shows "ip + 40 \<le> csum_off (ip + 40) pr \<and> csum_off (ip + 40) pr + 2 \<le> ip + 40 + l4_len pr \<and>
    ip + 40 + l4_len pr \<le> length (pkt s)"
  using assms by (auto simp: l4_flow_def csum_off_def l4_len_def header_lens skb_ok_def)

lemma client_id_of_nth:
  assumes "length a = 16"
  shows "from_be_bytes [a ! 12, a ! 13, a ! 14, a ! 15] = client_id_of a"
proof -
  have "bslice 12 4 a = [a ! 12, a ! 13, a ! 14, a ! 15]"
    using assms nths_4 [of "bslice 12 4 a"] by (simp add: length_slice nth_slice)
  then show ?thesis by (simp add: client_id_of_def)
qed

lemma client_id_of_vip24 [simp]: "client_id_of (client_vip_from_id24 c) = c"
  using client_id_of_vip [of c] by (simp add: client_id_of_def bslice_def)

section \<open>Which branch is taken\<close>

lemma flow_addr_lengths:
  assumes "l4_flow K s ip pr sport dport" and "skb_ok s"
  shows "length (src_addr (pkt s) ip) = 16" "length (dst_addr (pkt s) ip) = 16"
  using flow_fits [OF assms] by (simp_all add: src_addr_def dst_addr_def length_slice)

lemma try_tc_ingress_flow:
  assumes flow: "l4_flow K s ip pr sport dport" and "skb_ok s"
    and "take 4 (dst_addr (pkt s) ip) = SYNTHETIC_PREFIX"
  shows "try_tc_ingress K dev m s =
    (case NAT_MAP m (domain_id_from_ipv6 (dst_addr (pkt s) ip)) of
       None \<Rightarrow> (Ok TC_ACT_SHOT, m, s)
     | Some entry \<Rightarrow>
    case active_key m of
       None \<Rightarrow> (Ok TC_ACT_SHOT, m, s)
     | Some key \<Rightarrow>
    case encode_proxy_src (client_id_of (src_addr (pkt s) ip))
           (domain_id_from_ipv6 (dst_addr (pkt s) ip)) (ProxySrcCtx_new sport dport pr) key of
       None \<Rightarrow> (Ok TC_ACT_SHOT, m, s)
     | Some proxy_src \<Rightarrow>
         ingress_rewrite K dev m s ip pr (src_addr (pkt s) ip) (dst_addr (pkt s) ip)
           (origin_ipv6 entry) sport dport proxy_src)"
proof -
  have pr: "ipv6_offset K s = Ok ip" "pr = IpProto_Tcp \<or> pr = IpProto_Udp" "next_hdr (pkt s) ip = pr"
    using flow by (simp_all add: l4_flow_def)
  then have np: "\<not> (pr \<noteq> IpProto_Tcp \<and> pr \<noteq> IpProto_Udp)" by blast
  have "has_prefix (dst_addr (pkt s) ip) SYNTHETIC_PREFIX"
    using assms(3) flow_addr_lengths [OF flow assms(2)] by (simp add: has_prefix_take)
  then show ?thesis
    using pr(1,3) flow_ptr_at [OF flow] extract_l4_ports_flow [OF flow] proto_num_id [OF pr(2)]
      client_id_of_nth [OF flow_addr_lengths(1) [OF flow assms(2)]]
    by (simp add: np try_tc_ingress_def domain_id_from_ipv6_def active_key_def split: option.splits)
qed

lemma try_tc_ingress_wan_flow:
  assumes flow: "l4_flow K s ip pr sport dport" and "skb_ok s"
    and "take 4 (dst_addr (pkt s) ip) = PROXY_SRC_PREFIX"
  shows "try_tc_ingress_wan K dev m s =
    (case active_key m of
       None \<Rightarrow> (Ok TC_ACT_SHOT, s)
     | Some key \<Rightarrow>
    case decode_proxy_src (dst_addr (pkt s) ip) (ProxySrcCtx_new dport sport pr) key of
       None \<Rightarrow> (Ok TC_ACT_SHOT, s)
     | Some (client_id, domain_id) \<Rightarrow>
    case NAT_MAP m domain_id of
       None \<Rightarrow> (Ok TC_ACT_SHOT, s)
     | Some entry \<Rightarrow>
         if src_addr (pkt s) ip \<noteq> origin_ipv6 entry then (Ok TC_ACT_SHOT, s)
         else wan_rewrite K dev m s ip pr (src_addr (pkt s) ip) (dst_addr (pkt s) ip)
                (synthetic_ipv6 domain_id) (client_vip_from_id24 client_id))"
proof -
  have pr: "ipv6_offset K s = Ok ip" "pr = IpProto_Tcp \<or> pr = IpProto_Udp" "next_hdr (pkt s) ip = pr"
    using flow by (simp_all add: l4_flow_def)
  then have np: "\<not> (pr \<noteq> IpProto_Tcp \<and> pr \<noteq> IpProto_Udp)" by blast
  have "has_prefix (dst_addr (pkt s) ip) PROXY_SRC_PREFIX"
    using assms(3) flow_addr_lengths [OF flow assms(2)] by (simp add: has_prefix_take)
  then show ?thesis
    using pr(1,3) flow_ptr_at [OF flow] extract_l4_ports_flow [OF flow] proto_num_id [OF pr(2)]
    by (simp add: np try_tc_ingress_wan_def try_decode_with_active_key_def active_key_def
        split: option.splits)
qed

section \<open>Readdressed packets\<close>

lemma readdressed_fields:
  assumes "length src = 16" "length dst = 16" "length c = 2"
    and "ip + 40 \<le> csum_off (ip + 40) pr" "csum_off (ip + 40) pr + 2 \<le> length p"
  shows "src_addr (readdressed ip pr src dst c p) ip = src"
    and "dst_addr (readdressed ip pr src dst c p) ip = dst"
    and "next_hdr (readdressed ip pr src dst c p) ip = next_hdr p ip"
    and "length (readdressed ip pr src dst c p) = length p"
  using assms
  by (simp_all add: readdressed_def src_addr_def dst_addr_def next_hdr_def buffer_simps)

lemma readdressed_frame:
  assumes "length src = 16" "length dst = 16" "length c = 2"
    and "ip + 40 \<le> csum_off (ip + 40) pr" "csum_off (ip + 40) pr + 2 \<le> length p" "i < length p"
    and "i < ip + 8 \<or> ip + 40 \<le> i" "i < csum_off (ip + 40) pr \<or> csum_off (ip + 40) pr + 2 \<le> i"
  shows "readdressed ip pr src dst c p ! i = p ! i"
  using assms by (auto simp: readdressed_def nth_put length_put)

lemma readdressed_ports:
  assumes "length src = 16" "length dst = 16" "length c = 2"
    and "csum_off (ip + 40) pr + 2 \<le> length p"
  shows "l4_source (readdressed ip pr src dst c p) (ip + 40) = l4_source p (ip + 40)"
    and "l4_dest (readdressed ip pr src dst c p) (ip + 40) = l4_dest p (ip + 40)"
proof -
  have "ip + 44 \<le> csum_off (ip + 40) pr" by (simp add: csum_off_def)
  then show "l4_source (readdressed ip pr src dst c p) (ip + 40) = l4_source p (ip + 40)"
    and "l4_dest (readdressed ip pr src dst c p) (ip + 40) = l4_dest p (ip + 40)"
    using assms by (simp_all add: readdressed_def l4_source_def l4_dest_def buffer_simps)
qed

lemma l4_sum_readdressed:
  assumes "length src = 16" "length dst = 16" "length c = 2" "l4_len pr \<le> n" "ip + 40 + n \<le> length p"
  shows "l4_sum n (readdressed ip pr src dst c p) ip =
    l4_sum n p ip - sum16 (src_addr p ip) - sum16 (dst_addr p ip)
      - sum16 (bslice (csum_off (ip + 40) pr) 2 p) + sum16 src + sum16 dst + sum16 c"
proof -
  define k where "k = (if pr = IpProto_Tcp then 16 else 6 :: nat)"
  have k: "csum_off (ip + 40) pr = ip + 40 + k" "even k" "k + 2 \<le> n"
    using assms(4) by (auto simp: k_def csum_off_def l4_len_def header_lens)
  let ?q = "put (ip + 8) src (put (ip + 24) dst p)"
  have q: "length ?q = length p" "bslice (ip + 40) n ?q = bslice (ip + 40) n p"
    using assms by (simp_all add: buffer_simps)
  have "bslice (ip + 40) n (put (ip + 40 + k) c ?q) = put k c (bslice (ip + 40) n p)"
    using assms k q by (simp add: slice_put_inside)
  also have "sum16 \<dots> = sum16 (bslice (ip + 40) n p) - sum16 (bslice (ip + 40 + k) 2 p) + sum16 c"
    using assms k by (subst sum16_put) (simp_all add: length_slice slice_slice)
  finally have "sum16 (bslice (ip + 40) n (readdressed ip pr src dst c p)) =
      sum16 (bslice (ip + 40) n p) - sum16 (bslice (csum_off (ip + 40) pr) 2 p) + sum16 c"
    by (simp add: readdressed_def k(1))
  moreover have "ip + 40 \<le> csum_off (ip + 40) pr" "csum_off (ip + 40) pr + 2 \<le> length p"
    using k assms by simp_all
  ultimately show ?thesis
    using readdressed_fields [OF assms(1-3)] by (simp add: l4_sum_def)
qed

section \<open>The rewriting halves\<close>

text \<open>\<open>csum_moved co d s s'\<close>: only the checksum field at \<open>co\<close> changed, by \<open>d\<close>.\<close>

definition csum_moved :: "nat \<Rightarrow> int \<Rightarrow> skb \<Rightarrow> skb \<Rightarrow> bool" where
  "csum_moved co d s s' \<longleftrightarrow>
     (\<exists>a b. co + 2 \<le> length (pkt s) \<and> pkt s' = put co [a, b] (pkt s) \<and>
        csum_partial s' = csum_partial s \<and>
        (csum_partial s \<or> csum_eq (sum16 [a, b]) (sum16 (bslice co 2 (pkt s)) + d)))"

lemma csum_moved_trans:
  assumes "csum_moved co d s t" "csum_moved co d' t u"
  shows "csum_moved co (d + d') s u"
proof -
  obtain a b where s: "co + 2 \<le> length (pkt s)" "pkt t = put co [a, b] (pkt s)"
      "csum_partial t = csum_partial s"
      "csum_partial s \<or> csum_eq (sum16 [a, b]) (sum16 (bslice co 2 (pkt s)) + d)"
    using assms(1) unfolding csum_moved_def by blast
  obtain x y where t: "pkt u = put co [x, y] (pkt t)" "csum_partial u = csum_partial t"
      "csum_partial t \<or> csum_eq (sum16 [x, y]) (sum16 (bslice co 2 (pkt t)) + d')"
    using assms(2) unfolding csum_moved_def by blast
  have sl: "bslice co 2 (pkt t) = [a, b]" unfolding s(2) by (rule slice_put_same) (use s(1) in simp_all)
  have "csum_eq (sum16 [x, y]) (sum16 (bslice co 2 (pkt s)) + (d + d'))" if "\<not> csum_partial s"
  proof -
    have 1: "csum_eq (sum16 [x, y]) (sum16 [a, b] + d')" using t(2,3) s(3) that sl by metis
    have "csum_eq (sum16 [a, b] + d') (sum16 (bslice co 2 (pkt s)) + d + d')"
      using s(4) that by (intro csum_eq_add csum_eq_refl) simp
    from csum_eq_trans [OF 1 this] show ?thesis by (simp only: add.assoc)
  qed
  moreover have "pkt u = put co [x, y] (pkt s)"
    using t(1) s(1,2) by (simp add: put_put_same)
  ultimately show ?thesis using s t(2) unfolding csum_moved_def by metis
qed

text \<open>
  \<open>translated ip pr src dst s s'\<close>: the packet of \<open>s'\<close> is that of \<open>s\<close> with these
  addresses, and nothing else of it changed but the checksum field.
\<close>

definition translated :: "nat \<Rightarrow> u8 \<Rightarrow> bytes \<Rightarrow> bytes \<Rightarrow> skb \<Rightarrow> skb \<Rightarrow> bool" where
  "translated ip pr src dst s s' \<longleftrightarrow>
     csum_partial s' = csum_partial s \<and> (\<exists>a b. pkt s' = readdressed ip pr src dst [a, b] (pkt s))"

lemma moved_translated:
  assumes t: "pkt t = put (ip + 8) src (put (ip + 24) dst (pkt s))" "csum_partial t = csum_partial s"
    and mv: "csum_moved (csum_off (ip + 40) pr) d t s'"
    and len: "length src = 16" "length dst = 16" "ip + 40 + l4_len pr \<le> length (pkt s)"
  shows "translated ip pr src dst s s'"
    and "\<not> csum_partial s \<Longrightarrow> l4_len pr \<le> n \<Longrightarrow> ip + 40 + n \<le> length (pkt s) \<Longrightarrow>
      csum_eq (l4_sum n (pkt s') ip) (l4_sum n (pkt s) ip + (sum16 src - sum16 (src_addr (pkt s) ip))
        + (sum16 dst - sum16 (dst_addr (pkt s) ip)) + d)"
proof -
  let ?co = "csum_off (ip + 40) pr"
  obtain a b where ab: "pkt s' = put ?co [a, b] (pkt t)" "csum_partial s' = csum_partial t"
      "csum_partial t \<or> csum_eq (sum16 [a, b]) (sum16 (bslice ?co 2 (pkt t)) + d)"
    using mv unfolding csum_moved_def by blast
  have s': "pkt s' = readdressed ip pr src dst [a, b] (pkt s)"
    using ab(1) t(1) by (simp add: readdressed_def)
  then show "translated ip pr src dst s s'" using ab(2) t(2) unfolding translated_def by metis
  have co: "ip + 40 \<le> ?co" "?co + 2 \<le> ip + 40 + l4_len pr"
    by (simp_all add: csum_off_def l4_len_def header_lens)
  have sl: "bslice ?co 2 (pkt t) = bslice ?co 2 (pkt s)"
    unfolding t(1) using len co by (simp add: buffer_simps)
  assume n: "\<not> csum_partial s" "l4_len pr \<le> n" "ip + 40 + n \<le> length (pkt s)"
  have "csum_eq (sum16 [a, b]) (sum16 (bslice ?co 2 (pkt s)) + d)"
    using ab(3) t(2) n(1) sl by metis
  from csum_eq_add [OF this csum_eq_refl [of "l4_sum n (pkt s) ip - sum16 (src_addr (pkt s) ip)
      - sum16 (dst_addr (pkt s) ip) - sum16 (bslice ?co 2 (pkt s)) + sum16 src + sum16 dst"]]
  show "csum_eq (l4_sum n (pkt s') ip) (l4_sum n (pkt s) ip + (sum16 src - sum16 (src_addr (pkt s) ip))
        + (sum16 dst - sum16 (dst_addr (pkt s) ip)) + d)"
    unfolding s' by (subst l4_sum_readdressed [OF len(1,2) _ n(2,3)]) (simp_all add: algebra_simps)
qed

text \<open>The action after a completed rewrite of a reply.\<close>

definition wan_action :: "kernel \<Rightarrow> bpf_maps \<Rightarrow> int" where
  "wan_action K m = (case array_get (XFRM_IFINDEX m) 0 of
     None \<Rightarrow> TC_ACT_SHOT | Some idx \<Rightarrow> if idx = 0 then TC_ACT_SHOT else k_redirect K idx 0)"

context bpf_kernel
begin

lemma update_moved:
  assumes "update_addr_csum K s co old new = (Ok (), s')" "length old = 16" "length new = 16"
  shows "csum_moved co (sum16 old - sum16 new) s s'"
proof -
  have "csum_eq x (y + (o' - n))" if "csum_eq (x + n) (y + o')" for x y n o'
    using that by (simp add: csum_eq_dvd algebra_simps)
  then show ?thesis
    using update_addr_csum [OF assms] unfolding csum_moved_def by metis
qed

lemma mangled_moved:
  assumes "k_l4_csum_replace K s co 0 0 (BPF_F_PSEUDO_HDR OR BPF_F_MARK_MANGLED_0) = Some s'"
  shows "csum_moved co 0 s s'"
proof -
  have f: "(BPF_F_PSEUDO_HDR OR BPF_F_MARK_MANGLED_0) AND 0xF = 0"
    by (simp add: BPF_F_PSEUDO_HDR_def BPF_F_MARK_MANGLED_0_def)
  obtain a b where ab: "co + 2 \<le> length (pkt s)" "pkt s' = put co [a, b] (pkt s)"
      "csum_partial s' = csum_partial s"
    using csum_replace [OF assms f] by blast
  have "bslice co 2 (pkt s') = [a, b]"
    unfolding ab(2) by (rule slice_put_same) (use ab(1) in simp_all)
  then have "csum_eq (e * sum16 [a, b]) (e * sum16 (bslice co 2 (pkt s)))" if "\<not> csum_partial s"
    using csum_replace_sum [OF assms f that] by simp
  then show ?thesis
    using ab csum_eq_unscale [OF host_order] unfolding csum_moved_def by auto
qed

lemma ingress_rewrite_moved:
  assumes r: "ingress_rewrite K dev m s ip pr osrc odst origin sport dport px = (Ok act, m', s')"
    and sel: "select_final_src K dev m origin sport dport (proto_num pr) px = (src, m1)"
    and len: "length osrc = 16" "length odst = 16" "length origin = 16" "length src = 16"
  shows "act = TC_ACT_OK \<and> m' = m1 \<and>
    (\<exists>t. pkt t = put (ip + 8) src (put (ip + 24) origin (pkt s)) \<and> csum_partial t = csum_partial s \<and>
      csum_moved (csum_off (ip + 40) pr) (sum16 osrc - sum16 src + (sum16 odst - sum16 origin)) t s')"
proof -
  let ?co = "csum_off (ip + 40) pr"
  obtain s1 s2 s3 where s1: "store_bytes K (ip + 24) origin s = (Ok (), s1)"
    and s2: "store_bytes K (ip + 8) src s1 = (Ok (), s2)"
    and s3: "update_addr_csum K s2 ?co osrc src = (Ok (), s3)"
    and s4: "update_addr_csum K s3 ?co odst origin = (Ok (), s')"
    and am: "act = TC_ACT_OK" "m' = m1"
    using r sel by (auto simp: ingress_rewrite_def header_lens Let_def split: prod.splits res.splits)
  have "pkt s2 = put (ip + 8) src (put (ip + 24) origin (pkt s))" "csum_partial s2 = csum_partial s"
    using store_bytes [OF s1] store_bytes [OF s2] len by force+
  moreover have "csum_moved ?co (sum16 osrc - sum16 src + (sum16 odst - sum16 origin)) s2 s'"
    using update_moved [OF s3] update_moved [OF s4] len by (blast intro: csum_moved_trans)
  ultimately show ?thesis using am by blast
qed

text \<open>The shift that the dev-mode compensation adds to the checksum.\<close>

lemma wan_csum_fixup_moved:
  assumes "wan_csum_fixup K dev m s co dst = (Ok (), s')" "length dst = 16"
    and "\<And>wan. dev_wan m = Some wan \<Longrightarrow> length wan = 16" and "co + 2 \<le> length (pkt s)"
  shows "csum_moved co (case if dev then dev_wan m else None of
      None \<Rightarrow> 0 | Some wan \<Rightarrow> sum16 wan - sum16 dst) s s'"
proof -
  have refl: "csum_moved co 0 s s"
  proof -
    have "length (bslice co 2 (pkt s)) = 2" using assms(4) by (rule length_slice)
    then obtain a b where ab: "bslice co 2 (pkt s) = [a, b]" by (auto simp: numeral_2_eq_2 length_Suc_conv)
    then show ?thesis
      using put_slice_same [OF assms(4)] assms(4) unfolding csum_moved_def
      by (intro exI [of _ a] exI [of _ b]) simp
  qed
  show ?thesis
  proof (cases "if dev then dev_wan m else None")
    case None
    then have "s' = s"
      using assms(1) by (auto simp: wan_csum_fixup_def dev_wan_def split: option.splits if_splits)
    with None refl show ?thesis by simp
  next
    case (Some wan)
    then have "update_addr_csum K s co wan dst = (Ok (), s')" "length wan = 16"
      using assms by (auto simp: wan_csum_fixup_def dev_wan_def split: option.splits if_splits)
    with update_moved [OF _ _ assms(2)] Some show ?thesis by simp
  qed
qed

lemma wan_rewrite_moved:
  assumes r: "wan_rewrite K dev m s ip pr src dst synthetic client = (Ok act, s')"
    and len: "length src = 16" "length dst = 16" "length synthetic = 16" "length client = 16"
    and wan: "\<And>wan. dev_wan m = Some wan \<Longrightarrow> length wan = 16"
    and fits: "ip + 40 + l4_len pr \<le> length (pkt s)"
  shows "act = wan_action K m \<and>
    (\<exists>t. pkt t = put (ip + 8) synthetic (put (ip + 24) client (pkt s)) \<and> csum_partial t = csum_partial s \<and>
      csum_moved (csum_off (ip + 40) pr)
        (sum16 src - sum16 synthetic + (sum16 dst - sum16 client)
          + (case if dev then dev_wan m else None of None \<Rightarrow> 0 | Some wan \<Rightarrow> sum16 wan - sum16 dst) + 0) t s')"
proof -
  let ?co = "csum_off (ip + 40) pr"
  obtain s1 s2 s3 s4 s5 where s1: "store_bytes K (ip + 8) synthetic s = (Ok (), s1)"
    and s2: "store_bytes K (ip + 24) client s1 = (Ok (), s2)"
    and s3: "update_addr_csum K s2 ?co src synthetic = (Ok (), s3)"
    and s4: "update_addr_csum K s3 ?co dst client = (Ok (), s4)"
    and s5: "wan_csum_fixup K dev m s4 ?co dst = (Ok (), s5)"
    and s6: "k_l4_csum_replace K s5 ?co 0 0 (BPF_F_PSEUDO_HDR OR BPF_F_MARK_MANGLED_0) = Some s'"
    and act: "act = wan_action K m"
    using r by (auto simp: wan_rewrite_def wan_action_def header_lens Let_def
        split: prod.splits res.splits option.splits if_splits)
  have st: "pkt s1 = put (ip + 8) synthetic (pkt s)" "pkt s2 = put (ip + 24) client (pkt s1)"
      "csum_partial s2 = csum_partial s"
    using store_bytes [OF s1] store_bytes [OF s2] len by force+
  have pk: "pkt s2 = put (ip + 8) synthetic (put (ip + 24) client (pkt s))"
    unfolding st(1,2) by (rule put_put_commute) (use len fits in simp_all)
  have co: "?co + 2 \<le> length (pkt s2)"
    using fits len unfolding pk by (auto simp: csum_off_def l4_len_def header_lens length_put)
  have mv: "csum_moved ?co (sum16 src - sum16 synthetic + (sum16 dst - sum16 client)) s2 s4"
    using update_moved [OF s3] update_moved [OF s4] len by (blast intro: csum_moved_trans)
  then have "length (pkt s4) = length (pkt s2)"
    unfolding csum_moved_def by (metis length_put length_Cons list.size(3) numeral_2_eq_2)
  then have "csum_moved ?co (case if dev then dev_wan m else None of
      None \<Rightarrow> 0 | Some wan \<Rightarrow> sum16 wan - sum16 dst) s4 s5"
    using wan_csum_fixup_moved [OF s5 len(2) wan] co by simp
  from csum_moved_trans [OF csum_moved_trans [OF mv this] mangled_moved [OF s6]]
  show ?thesis using act pk st(3) by blast
qed

end

text \<open>With helpers that fail only outside the packet, the rewriting halves complete.\<close>

context bpf_kernel_live
begin

lemma update_length:
  "update_addr_csum K s co old new = (Ok (), s') \<Longrightarrow> length old = 16 \<Longrightarrow> length new = 16 \<Longrightarrow>
     length (pkt s') = length (pkt s)"
  using update_addr_csum [of s co old new s'] by (auto simp: length_put)

lemma store_length:
  "store_bytes K off bs s = (Ok (), s') \<Longrightarrow> length (pkt s') = length (pkt s)"
  by (cases "bs = []") (use store_bytes [of off bs s s'] in \<open>auto simp: length_put\<close>)

lemma ingress_rewrite_ok:
  assumes len: "length osrc = 16" "length odst = 16" "length origin = 16"
    and sel: "select_final_src K dev m origin sport dport (proto_num pr) px = (src, m1)" "length src = 16"
    and fits: "ip + 40 + l4_len pr \<le> length (pkt s)"
  shows "\<exists>s'. ingress_rewrite K dev m s ip pr osrc odst origin sport dport px = (Ok TC_ACT_OK, m1, s')"
proof -
  let ?co = "csum_off (ip + 40) pr"
  have co: "?co + 2 \<le> length (pkt s)"
    using fits by (auto simp: csum_off_def l4_len_def header_lens)
  obtain s1 where s1: "store_bytes K (ip + 24) origin s = (Ok (), s1)"
    using store_bytes_ok [of "ip + 24" origin s] len fits by auto
  obtain s2 where s2: "store_bytes K (ip + 8) src s1 = (Ok (), s2)"
    using store_bytes_ok [of "ip + 8" src s1] store_length [OF s1] sel fits by auto
  obtain s3 where s3: "update_addr_csum K s2 ?co osrc src = (Ok (), s3)"
    using update_addr_csum_ok [of ?co s2] store_length [OF s1] store_length [OF s2] co by auto
  obtain s4 where s4: "update_addr_csum K s3 ?co odst origin = (Ok (), s4)"
    using update_addr_csum_ok [of ?co s3] update_length [OF s3] store_length [OF s1] store_length [OF s2]
      co len sel by auto
  show ?thesis
    using s1 s2 s3 s4 sel by (simp add: ingress_rewrite_def header_lens Let_def)
qed

lemma wan_csum_fixup_ok:
  assumes "co + 2 \<le> length (pkt s)" "length dst = 16"
    and "\<And>wan. dev_wan m = Some wan \<Longrightarrow> length wan = 16"
  shows "\<exists>s'. wan_csum_fixup K dev m s co dst = (Ok (), s') \<and> length (pkt s') = length (pkt s)"
proof (cases "if dev then dev_wan m else None")
  case None
  then have "wan_csum_fixup K dev m s co dst = (Ok (), s)"
    by (auto simp: wan_csum_fixup_def dev_wan_def split: option.splits if_splits)
  then show ?thesis by simp
next
  case (Some wan)
  then have "wan_csum_fixup K dev m s co dst = update_addr_csum K s co wan dst" "length wan = 16"
    using assms(3) by (auto simp: wan_csum_fixup_def dev_wan_def split: option.splits if_splits)
  then show ?thesis
    using update_addr_csum_ok [OF assms(1), of wan dst] update_length [of s co wan dst] assms(2) by auto
qed

lemma wan_rewrite_ok:
  assumes len: "length src = 16" "length dst = 16" "length synthetic = 16" "length client = 16"
    and wan: "\<And>wan. dev_wan m = Some wan \<Longrightarrow> length wan = 16"
    and fits: "ip + 40 + l4_len pr \<le> length (pkt s)"
  shows "\<exists>s'. wan_rewrite K dev m s ip pr src dst synthetic client = (Ok (wan_action K m), s')"
proof -
  let ?co = "csum_off (ip + 40) pr"
  have co: "?co + 2 \<le> length (pkt s)"
    using fits by (auto simp: csum_off_def l4_len_def header_lens)
  obtain s1 where s1: "store_bytes K (ip + 8) synthetic s = (Ok (), s1)"
    using store_bytes_ok [of "ip + 8" synthetic s] len fits by auto
  obtain s2 where s2: "store_bytes K (ip + 24) client s1 = (Ok (), s2)"
    using store_bytes_ok [of "ip + 24" client s1] store_length [OF s1] len fits by auto
  have l2: "length (pkt s2) = length (pkt s)" using store_length [OF s1] store_length [OF s2] by simp
  obtain s3 where s3: "update_addr_csum K s2 ?co src synthetic = (Ok (), s3)"
    using update_addr_csum_ok [of ?co s2] l2 co by auto
  have l3: "length (pkt s3) = length (pkt s)" using update_length [OF s3] l2 len by simp
  obtain s4 where s4: "update_addr_csum K s3 ?co dst client = (Ok (), s4)"
    using update_addr_csum_ok [of ?co s3] l3 co by auto
  have l4: "length (pkt s4) = length (pkt s)" using update_length [OF s4] l3 len by simp
  obtain s5 where s5: "wan_csum_fixup K dev m s4 ?co dst = (Ok (), s5)" "length (pkt s5) = length (pkt s)"
    using wan_csum_fixup_ok [of ?co s4 dst m dev] l4 co len wan by auto
  have "(BPF_F_PSEUDO_HDR OR BPF_F_MARK_MANGLED_0) AND 0xF = 0"
    by (simp add: BPF_F_PSEUDO_HDR_def BPF_F_MARK_MANGLED_0_def)
  then obtain s6 where s6: "k_l4_csum_replace K s5 ?co 0 0 (BPF_F_PSEUDO_HDR OR BPF_F_MARK_MANGLED_0) = Some s6"
    using csum_replace_ok [of ?co s5 "BPF_F_PSEUDO_HDR OR BPF_F_MARK_MANGLED_0" 0] s5(2) co by auto
  show ?thesis
    using s1 s2 s3 s4 s5 s6
    by (simp add: wan_rewrite_def wan_action_def header_lens Let_def split: option.split)
qed

end

end
