(* ===== verification/Nat66.thy ===== *)
theory Nat66
  imports Tc_Correct
begin

text \<open>
  The address translation of the TC programs: the properties of each direction, of both
  composed, and of the dev-mode detour through the XDP filter.
\<close>

section \<open>Well-formed maps\<close>

text \<open>Addresses stored in the maps are \<open>[u8; 16]\<close>.\<close>

definition maps_ok :: "bpf_maps \<Rightarrow> bool" where
  "maps_ok m \<longleftrightarrow> (\<forall>d n. NAT_MAP m d = Some n \<longrightarrow> length (origin_ipv6 n) = 16) \<and>
     (\<forall>wan \<in> set (DEV_WAN_IPV6 m). length wan = 16)"

lemma maps_ok_nat: "maps_ok m \<Longrightarrow> NAT_MAP m d = Some n \<Longrightarrow> length (origin_ipv6 n) = 16"
  by (simp add: maps_ok_def)

lemma maps_ok_wan: "maps_ok m \<Longrightarrow> dev_wan m = Some wan \<Longrightarrow> length wan = 16"
  by (auto simp: maps_ok_def dev_wan_def array_get_def split: option.splits if_splits)

lemma length_encode: "encode_proxy_src c d ctx key = Some a \<Longrightarrow> length a = 16"
  by (auto simp: encode_proxy_src_eq Let_def split: if_splits)

lemma prefix_encode: "encode_proxy_src c d ctx key = Some a \<Longrightarrow> take 4 a = PROXY_SRC_PREFIX"
  by (auto simp: encode_proxy_src_eq Let_def split: if_splits)

text \<open>The source address of a translated outgoing packet.\<close>

definition outer_src :: "bool \<Rightarrow> bpf_maps \<Rightarrow> bytes \<Rightarrow> bytes" where
  "outer_src dev m px = (case if dev then dev_wan m else None of Some wan \<Rightarrow> wan | None \<Rightarrow> px)"

lemma select_final_src_fst:
  "fst (select_final_src K dev m origin sport dport pr px) = outer_src dev m px"
  by (auto simp: select_final_src_def outer_src_def dev_wan_def Let_def split: option.splits)

lemma select_final_src_prod: "select_final_src K False m origin sport dport pr px = (px, m)"
  by (simp add: select_final_src_def)

lemma length_outer_src: "maps_ok m \<Longrightarrow> length px = 16 \<Longrightarrow> length (outer_src dev m px) = 16"
  by (auto simp: outer_src_def dest: maps_ok_wan split: option.splits)

section \<open>Branches\<close>

lemma flowI:
  assumes "ipv6_offset K s = Ok ip" "next_hdr (pkt s) ip = IpProto_Tcp \<or> next_hdr (pkt s) ip = IpProto_Udp"
    and "extract_l4_ports s (ip + Ipv6Hdr_LEN) (next_hdr (pkt s) ip) = Ok (sport, dport)"
  shows "l4_flow K s ip (next_hdr (pkt s) ip) sport dport"
  using assms
  by (auto simp: l4_flow_def extract_l4_ports_def ptr_at_def header_lens l4_len_def ip_protos
      split: if_splits)

lemma flow_has_prefix:
  "l4_flow K s ip pr sport dport \<Longrightarrow> skb_ok s \<Longrightarrow> length p = 4 \<Longrightarrow>
     has_prefix (dst_addr (pkt s) ip) p \<longleftrightarrow> take 4 (dst_addr (pkt s) ip) = p"
  using flow_addr_lengths(2) by (simp add: has_prefix_take)

lemma ingress_no_flow:
  assumes "skb_ok s"
    and "\<And>ip pr sport dport. l4_flow K s ip pr sport dport \<Longrightarrow>
      take 4 (dst_addr (pkt s) ip) \<noteq> SYNTHETIC_PREFIX"
  shows "tc_ingress K dev m s = (TC_ACT_OK, m, s) \<or> tc_ingress K dev m s = (TC_ACT_SHOT, m, s)"
proof -
  have "\<not> (\<exists>ip sport dport. ipv6_offset K s = Ok ip \<and>
      (next_hdr (pkt s) ip = IpProto_Tcp \<or> next_hdr (pkt s) ip = IpProto_Udp) \<and>
      has_prefix (dst_addr (pkt s) ip) SYNTHETIC_PREFIX \<and>
      extract_l4_ports s (ip + Ipv6Hdr_LEN) (next_hdr (pkt s) ip) = Ok (sport, dport))"
    using assms flowI flow_has_prefix length_contract(1) by metis
  then show ?thesis
    unfolding tc_ingress_def try_tc_ingress_def Let_def
    by (auto simp: ptr_at_def split: res.splits option.splits if_splits prod.splits)
qed

lemma wan_no_flow:
  assumes "skb_ok s"
    and "\<And>ip pr sport dport. l4_flow K s ip pr sport dport \<Longrightarrow>
      take 4 (dst_addr (pkt s) ip) \<noteq> PROXY_SRC_PREFIX"
  shows "tc_ingress_wan K dev m s = (TC_ACT_OK, s)"
proof -
  have "\<not> (\<exists>ip sport dport. ipv6_offset K s = Ok ip \<and>
      (next_hdr (pkt s) ip = IpProto_Tcp \<or> next_hdr (pkt s) ip = IpProto_Udp) \<and>
      has_prefix (dst_addr (pkt s) ip) PROXY_SRC_PREFIX \<and>
      extract_l4_ports s (ip + Ipv6Hdr_LEN) (next_hdr (pkt s) ip) = Ok (sport, dport))"
    using assms flowI flow_has_prefix length_contract(3) by metis
  then show ?thesis
    unfolding tc_ingress_wan_def try_tc_ingress_wan_def Let_def
    by (auto simp: ptr_at_def split: res.splits option.splits if_splits prod.splits)
qed

text \<open>A flow that is translated, with the table entry, the key and the address it gets.\<close>

definition outgoing :: "bpf_maps \<Rightarrow> skb \<Rightarrow> nat \<Rightarrow> u8 \<Rightarrow> u16 \<Rightarrow> u16 \<Rightarrow> (bytes \<times> bytes) option" where
  "outgoing m s ip pr sport dport =
     (case (NAT_MAP m (domain_id_from_ipv6 (dst_addr (pkt s) ip)), active_key m) of
        (Some n, Some key) \<Rightarrow>
          map_option (\<lambda>px. (px, origin_ipv6 n))
            (encode_proxy_src (client_id_of (src_addr (pkt s) ip))
               (domain_id_from_ipv6 (dst_addr (pkt s) ip)) (ProxySrcCtx_new sport dport pr) key)
      | _ \<Rightarrow> None)"

lemma outgoing_lengths:
  "maps_ok m \<Longrightarrow> outgoing m s ip pr sport dport = Some (px, origin) \<Longrightarrow> length px = 16 \<and> length origin = 16"
  by (auto simp: outgoing_def dest: maps_ok_nat length_encode split: option.splits)

lemma ingress_flow_cases:
  assumes "l4_flow K s ip pr sport dport" "skb_ok s" "take 4 (dst_addr (pkt s) ip) = SYNTHETIC_PREFIX"
  shows "try_tc_ingress K dev m s =
    (case outgoing m s ip pr sport dport of
       None \<Rightarrow> (Ok TC_ACT_SHOT, m, s)
     | Some (px, origin) \<Rightarrow>
         ingress_rewrite K dev m s ip pr (src_addr (pkt s) ip) (dst_addr (pkt s) ip) origin sport dport px)"
  unfolding try_tc_ingress_flow [OF assms] by (auto simp: outgoing_def split: option.splits)

text \<open>A reply that is delivered, with the addresses it gets.\<close>

definition incoming :: "bpf_maps \<Rightarrow> skb \<Rightarrow> nat \<Rightarrow> u8 \<Rightarrow> u16 \<Rightarrow> u16 \<Rightarrow> (bytes \<times> bytes) option" where
  "incoming m s ip pr sport dport =
     (case active_key m of
        None \<Rightarrow> None
      | Some key \<Rightarrow>
          (case decode_proxy_src (dst_addr (pkt s) ip) (ProxySrcCtx_new dport sport pr) key of
             None \<Rightarrow> None
           | Some (c, d) \<Rightarrow>
               (case NAT_MAP m d of
                  None \<Rightarrow> None
                | Some n \<Rightarrow>
                    if src_addr (pkt s) ip = origin_ipv6 n
                    then Some (synthetic_ipv6 d, client_vip_from_id24 c) else None)))"

lemma incoming_lengths:
  "incoming m s ip pr sport dport = Some (a, b) \<Longrightarrow> length a = 16 \<and> length b = 16"
  by (auto simp: incoming_def split: option.splits if_splits)

lemma wan_flow_cases:
  assumes "l4_flow K s ip pr sport dport" "skb_ok s" "take 4 (dst_addr (pkt s) ip) = PROXY_SRC_PREFIX"
  shows "try_tc_ingress_wan K dev m s =
    (case incoming m s ip pr sport dport of
       None \<Rightarrow> (Ok TC_ACT_SHOT, s)
     | Some (synthetic, client) \<Rightarrow>
         wan_rewrite K dev m s ip pr (src_addr (pkt s) ip) (dst_addr (pkt s) ip) synthetic client)"
  unfolding try_tc_ingress_wan_flow [OF assms] by (auto simp: incoming_def split: option.splits)

text \<open>A parsed packet is parsed in one way only.\<close>

lemma flow_unique:
  "l4_flow K s ip pr sport dport \<Longrightarrow> l4_flow K s ip' pr' sport' dport' \<Longrightarrow>
     ip' = ip \<and> pr' = pr \<and> sport' = sport \<and> dport' = dport"
  by (auto simp: l4_flow_def)

lemma flow_length: "l4_flow K s ip pr sport dport \<Longrightarrow> skb_ok s \<Longrightarrow> ip + 40 + l4_len pr \<le> length (pkt s)"
  using flow_fits by blast

lemma flow_other_passes:
  assumes flow: "l4_flow K s ip pr sport dport" and "skb_ok s"
    and "take 4 (dst_addr (pkt s) ip) \<noteq> SYNTHETIC_PREFIX"
  shows "tc_ingress K dev m s = (TC_ACT_OK, m, s)"
proof -
  have "\<not> has_prefix (dst_addr (pkt s) ip) SYNTHETIC_PREFIX"
    using flow_has_prefix [OF assms(1,2) length_contract(1)] assms(3) by simp
  then show ?thesis
    using flow flow_ptr_at [OF flow]
    by (simp add: tc_ingress_def try_tc_ingress_def l4_flow_def Let_def)
qed

lemma encode_None_nat:
  "encode_proxy_src c d ctx key = None \<longleftrightarrow> unat c \<ge> 2 ^ 24 \<or> unat d \<ge> 2 ^ 24"
  by (simp only: encode_proxy_src_eq Let_def id24_nat if_None_iff not_less)

context bpf_kernel_live
begin

lemma ingress_translates:
  assumes flow: "l4_flow K s ip pr sport dport" "skb_ok s"
    and "take 4 (dst_addr (pkt s) ip) = SYNTHETIC_PREFIX" and "maps_ok m"
    and out: "outgoing m s ip pr sport dport = Some (px, origin)"
  shows "\<exists>s'. tc_ingress K dev m s =
      (TC_ACT_OK, snd (select_final_src K dev m origin sport dport (proto_num pr) px), s') \<and>
    translated ip pr (outer_src dev m px) origin s s' \<and>
    (\<forall>n. \<not> csum_partial s \<longrightarrow> l4_len pr \<le> n \<longrightarrow> ip + 40 + n \<le> length (pkt s) \<longrightarrow>
      csum_eq (l4_sum n (pkt s') ip) (l4_sum n (pkt s) ip))"
proof -
  obtain src m1 where sel: "select_final_src K dev m origin sport dport (proto_num pr) px = (src, m1)"
    by (metis prod.exhaust)
  then have src: "src = outer_src dev m px" using select_final_src_fst by (metis fst_conv)
  note len = outgoing_lengths [OF assms(4) out] length_outer_src [OF assms(4)]
    flow_addr_lengths [OF flow] flow_length [OF flow]
  obtain s' where r: "ingress_rewrite K dev m s ip pr (src_addr (pkt s) ip) (dst_addr (pkt s) ip) origin
      sport dport px = (Ok TC_ACT_OK, m1, s')"
    using ingress_rewrite_ok [OF _ _ _ sel] len src by metis
  then have tc: "tc_ingress K dev m s = (TC_ACT_OK, m1, s')"
    using ingress_flow_cases [OF flow assms(3)] out by (simp add: tc_ingress_def)
  obtain t where t: "pkt t = put (ip + 8) src (put (ip + 24) origin (pkt s))" "csum_partial t = csum_partial s"
      "csum_moved (csum_off (ip + 40) pr) (sum16 (src_addr (pkt s) ip) - sum16 src
        + (sum16 (dst_addr (pkt s) ip) - sum16 origin)) t s'"
    using ingress_rewrite_moved [OF r sel] len src by metis
  have "translated ip pr src origin s s'"
    using moved_translated(1) [OF t] len src by metis
  moreover have "csum_eq (l4_sum n (pkt s') ip) (l4_sum n (pkt s) ip)"
    if "\<not> csum_partial s" "l4_len pr \<le> n" "ip + 40 + n \<le> length (pkt s)" for n
    using moved_translated(2) [OF t _ _ _ that] len src by simp
  ultimately show ?thesis using tc sel src by auto
qed

lemma wan_translates:
  assumes flow: "l4_flow K s ip pr sport dport" "skb_ok s"
    and "take 4 (dst_addr (pkt s) ip) = PROXY_SRC_PREFIX" and "maps_ok m"
    and inc: "incoming m s ip pr sport dport = Some (synthetic, client)"
  shows "\<exists>s'. tc_ingress_wan K dev m s = (wan_action K m, s') \<and>
    translated ip pr synthetic client s s' \<and>
    (\<forall>n. \<not> csum_partial s \<longrightarrow> l4_len pr \<le> n \<longrightarrow> ip + 40 + n \<le> length (pkt s) \<longrightarrow>
      csum_eq (l4_sum n (pkt s') ip) (l4_sum n (pkt s) ip +
        (case if dev then dev_wan m else None of
           None \<Rightarrow> 0 | Some wan \<Rightarrow> sum16 wan - sum16 (dst_addr (pkt s) ip))))"
proof -
  note len = incoming_lengths [OF inc] flow_addr_lengths [OF flow] flow_length [OF flow]
  obtain s' where r: "wan_rewrite K dev m s ip pr (src_addr (pkt s) ip) (dst_addr (pkt s) ip)
      synthetic client = (Ok (wan_action K m), s')"
    using wan_rewrite_ok [OF _ _ _ _ maps_ok_wan [OF assms(4)]] len by metis
  then have tc: "tc_ingress_wan K dev m s = (wan_action K m, s')"
    using wan_flow_cases [OF flow assms(3)] inc by (simp add: tc_ingress_wan_def)
  let ?shift = "case if dev then dev_wan m else None of
    None \<Rightarrow> 0 | Some wan \<Rightarrow> sum16 wan - sum16 (dst_addr (pkt s) ip)"
  obtain t where t: "pkt t = put (ip + 8) synthetic (put (ip + 24) client (pkt s))"
      "csum_partial t = csum_partial s"
      "csum_moved (csum_off (ip + 40) pr) (sum16 (src_addr (pkt s) ip) - sum16 synthetic
        + (sum16 (dst_addr (pkt s) ip) - sum16 client) + ?shift + 0) t s'"
    using wan_rewrite_moved [OF r _ _ _ _ maps_ok_wan [OF assms(4)]] len by blast
  have "translated ip pr synthetic client s s'"
    using moved_translated(1) [OF t] len by metis
  moreover have "csum_eq (l4_sum n (pkt s') ip) (l4_sum n (pkt s) ip + ?shift)"
    if "\<not> csum_partial s" "l4_len pr \<le> n" "ip + 40 + n \<le> length (pkt s)" for n
    using moved_translated(2) [OF t _ _ _ that] len by (simp add: algebra_simps)
  ultimately show ?thesis using tc by auto
qed

end

section \<open>A sample flow\<close>

text \<open>
  Client 100 sends a TCP packet from port 50000 to port 443 of domain 7, whose origin is
  \<open>2606:4700::1111\<close>, under the key of the unit tests.
\<close>

definition sample_origin :: bytes where
  "sample_origin = [0x26, 0x06, 0x47, 0, 0, 0, 0, 0, 0, 0, 0, 0, 0, 0, 0x11, 0x11]"

definition sample_proxy :: bytes where
  "sample_proxy =
     [0x20, 0x01, 0x0d, 0xb8, 0xbb, 0x38, 0x47, 0xd7, 0x5d, 0xae, 0xd2, 0x42, 0xd1, 0x3e, 0x42, 0x9e]"

definition sample_maps :: bpf_maps where
  "sample_maps =
     \<lparr> NAT_MAP = [7 \<mapsto> \<lparr> origin_ipv6 = sample_origin \<rparr>], XFRM_IFINDEX = [5],
       OBFS_KEYS = [TEST_KEY, \<lparr> prince_key = zero_addr, siphash_key = zero_addr \<rparr>],
       DEV_WAN_IPV6 = [zero_addr], REPLY_TRACK = Map.empty,
       DBG_COUNTERS = [0, 0, 0, 0, 0, 0, 0, 0] \<rparr>"

definition sample_tcp :: "bytes \<Rightarrow> bytes \<Rightarrow> bytes \<Rightarrow> bytes \<Rightarrow> bytes \<Rightarrow> skb" where
  "sample_tcp eth src dst ports csum =
     \<lparr> pkt = eth @ [0x60, 0, 0, 0, 0, 20, 6, 64] @ src @ dst @ ports @
         [0, 0, 0, 1, 0, 0, 0, 0, 0x50, 2, 0, 0] @ csum @ [0, 0],
       headlen = length eth + 60, csum_partial = False \<rparr>"

definition client_pkt :: skb where
  "client_pkt = sample_tcp [] (client_vip_from_id24 100) (synthetic_ipv6 7) [0xC3, 0x50, 0x01, 0xBB]
     [0x98, 0xCC]"

definition reply_pkt :: skb where
  "reply_pkt = sample_tcp [2, 0, 0, 0, 0, 1, 2, 0, 0, 0, 0, 2, 0x86, 0xDD] sample_origin sample_proxy
     [0x01, 0xBB, 0xC3, 0x50] [0xF8, 0x27]"

lemma sample_addresses:
  "client_vip_from_id24 100 = [0xfd, 0, 0xab, 0xcd, 0, 0, 0, 1, 0, 0, 0, 0, 0, 0, 0, 100]"
  "synthetic_ipv6 7 = [0xfd, 0, 0xab, 0xcd, 0, 0, 0, 7, 0, 0, 0, 0, 0, 0, 0, 1]"
  by (simp_all add: client_vip_from_id24_def synthetic_ipv6_def contract_defs to_be_bytes_def upt_rec)

lemmas sample_eval = client_pkt_def reply_pkt_def sample_tcp_def sample_addresses sample_origin_def
  sample_proxy_def l4_flow_def ipv6_offset_def ref_kernel_def ptr_at_def ether_type_ipv6_def bslice_def
  next_hdr_def src_addr_def dst_addr_def l4_source_def l4_dest_def l4_len_def header_lens ip_protos
  from_be_bytes_def

lemma client_flow: "l4_flow ref_kernel client_pkt 0 6 50000 443"
  by (simp add: sample_eval)

lemma reply_flow: "l4_flow ref_kernel reply_pkt 14 6 443 50000"
  by (simp add: sample_eval)

lemma sample_ok: "skb_ok client_pkt" "skb_ok reply_pkt" "maps_ok sample_maps"
  by (simp_all add: skb_ok_def sample_eval maps_ok_def sample_maps_def zero_addr_def)

lemma sample_addrs:
  "src_addr (pkt client_pkt) 0 = client_vip_from_id24 100" "dst_addr (pkt client_pkt) 0 = synthetic_ipv6 7"
  "src_addr (pkt reply_pkt) 14 = sample_origin" "dst_addr (pkt reply_pkt) 14 = sample_proxy"
  by (simp_all add: sample_eval)

lemma sample_key: "active_key sample_maps = Some TEST_KEY"
  by (simp add: active_key_def sample_maps_def array_get_def is_zero_def TEST_KEY_def upt_16)

lemma sample_nat: "NAT_MAP sample_maps 7 = Some \<lparr> origin_ipv6 = sample_origin \<rparr>"
  by (simp add: sample_maps_def)

lemma sample_encode: "encode_proxy_src 100 7 (ProxySrcCtx_new 50000 443 6) TEST_KEY = Some sample_proxy"
  by (simp add: TEST_KEY_vector sample_proxy_def)

lemma sample_decode: "decode_proxy_src sample_proxy (ProxySrcCtx_new 50000 443 6) TEST_KEY = Some (100, 7)"
  by (simp add: TEST_KEY_accepts sample_proxy_def)

lemma sample_outgoing:
  "outgoing sample_maps client_pkt 0 6 50000 443 = Some (sample_proxy, sample_origin)"
  by (simp add: outgoing_def sample_addrs domain_id_synthetic sample_nat sample_key sample_encode)

lemma sample_incoming:
  "incoming sample_maps reply_pkt 14 6 443 50000 = Some (synthetic_ipv6 7, client_vip_from_id24 100)"
  by (simp add: incoming_def sample_addrs sample_nat sample_key sample_decode)

lemma sample_prefixes:
  "take 4 (dst_addr (pkt client_pkt) 0) = SYNTHETIC_PREFIX" "take 4 (dst_addr (pkt reply_pkt) 14) = PROXY_SRC_PREFIX"
  by (simp_all add: sample_addrs prefix_synthetic sample_proxy_def contract_defs)

lemma sample_csums: "l4_csum_valid 20 (pkt client_pkt) 0" "l4_csum_valid 20 (pkt reply_pkt) 14"
  by (simp_all add: l4_csum_valid_def l4_sum_def csum_eq_def sample_eval)

lemma sample_sizes:
  "\<not> csum_partial client_pkt" "\<not> csum_partial reply_pkt" "l4_len 6 = 20"
  "length (pkt client_pkt) = 60" "length (pkt reply_pkt) = 74"
  by (simp_all add: sample_eval)

lemma surjective_triple: "x = (fst x, fst (snd x), snd (snd x))"
  by simp

end
