(* ===== verification/Translation.thy ===== *)
theory Translation
  imports Nat66
begin

text \<open>
  The properties of the two TC programs, one direction at a time. They hold for all helpers
  with the laws of \<open>bpf_kernel_live\<close>; the witnesses run them on the helpers of
  \<open>Kernel_Ref\<close> and the sample flow of \<open>Nat66\<close>.
\<close>

section \<open>From the client to the origin\<close>

text \<open>
  C6. A TCP or UDP packet to a synthetic address of a known domain,
  from a client whose id can be encoded, leaves \<open>tc_ingress\<close> with the encoded proxy-source
  address as its source and the origin as its destination; no byte outside the two addresses
  and the checksum field changes, and neither do the maps.
\<close>

theorem tc_ingress_translates:
  assumes "bpf_kernel_live K e" and "l4_flow K s ip pr sport dport" and "skb_ok s" and "maps_ok m"
    and "take 4 (dst_addr (pkt s) ip) = SYNTHETIC_PREFIX"
    and "NAT_MAP m (domain_id_from_ipv6 (dst_addr (pkt s) ip)) = Some nat_entry"
    and "active_key m = Some key"
    and "encode_proxy_src (client_id_of (src_addr (pkt s) ip))
      (domain_id_from_ipv6 (dst_addr (pkt s) ip)) (ProxySrcCtx_new sport dport pr) key = Some proxy_src"
  shows "\<exists>s'. tc_ingress K False m s = (TC_ACT_OK, m, s') \<and>
    translated ip pr proxy_src (origin_ipv6 nat_entry) s s'"
proof -
  have "outgoing m s ip pr sport dport = Some (proxy_src, origin_ipv6 nat_entry)"
    using assms(6-8) by (simp add: outgoing_def)
  from bpf_kernel_live.ingress_translates [OF assms(1-3,5,4) this, of False] show ?thesis
    by (auto simp: select_final_src_prod outer_src_def)
qed

theorem tc_ingress_translates_witness:
  "\<exists>s'. tc_ingress ref_kernel False sample_maps client_pkt = (TC_ACT_OK, sample_maps, s') \<and>
    translated 0 6 sample_proxy sample_origin client_pkt s'"
  using tc_ingress_translates [OF ref.bpf_kernel_live_axioms client_flow sample_ok(1,3)
      sample_prefixes(1), unfolded sample_addrs domain_id_synthetic client_id_of_vip24,
      OF sample_nat sample_key sample_encode]
  by simp





text \<open>
  C10. A TCP or UDP packet is dropped, unmodified, exactly when it goes to
  a synthetic address and the domain is unknown, no key is active, or one of the ids does not
  fit 24 bits; a packet to any other address passes unmodified.
\<close>

theorem tc_ingress_drop_iff:
  assumes "bpf_kernel_live K e" and "l4_flow K s ip pr sport dport" and "skb_ok s" and "maps_ok m"
  shows "(tc_ingress K dev m s = (TC_ACT_SHOT, m, s) \<longleftrightarrow>
      take 4 (dst_addr (pkt s) ip) = SYNTHETIC_PREFIX \<and>
      (NAT_MAP m (domain_id_from_ipv6 (dst_addr (pkt s) ip)) = None \<or> active_key m = None \<or>
       unat (client_id_of (src_addr (pkt s) ip)) \<ge> 2 ^ 24 \<or>
       unat (domain_id_from_ipv6 (dst_addr (pkt s) ip)) \<ge> 2 ^ 24)) \<and>
    (tc_ingress K dev m s = (TC_ACT_OK, m, s) \<or> take 4 (dst_addr (pkt s) ip) = SYNTHETIC_PREFIX)"
proof (cases "take 4 (dst_addr (pkt s) ip) = SYNTHETIC_PREFIX")
  case True
  have none: "outgoing m s ip pr sport dport = None \<longleftrightarrow>
      NAT_MAP m (domain_id_from_ipv6 (dst_addr (pkt s) ip)) = None \<or> active_key m = None \<or>
      unat (client_id_of (src_addr (pkt s) ip)) \<ge> 2 ^ 24 \<or>
      unat (domain_id_from_ipv6 (dst_addr (pkt s) ip)) \<ge> 2 ^ 24"
    unfolding outgoing_def by (auto simp: encode_None_nat split: option.splits)
  have "tc_ingress K dev m s = (TC_ACT_SHOT, m, s) \<longleftrightarrow> outgoing m s ip pr sport dport = None"
  proof (cases "outgoing m s ip pr sport dport")
    case None
    then show ?thesis
      using ingress_flow_cases [OF assms(2,3) True, of dev m] by (simp add: tc_ingress_def)
  next
    case (Some po)
    then obtain px origin where "outgoing m s ip pr sport dport = Some (px, origin)" by (cases po) simp
    from bpf_kernel_live.ingress_translates [OF assms(1-3) True assms(4) this, of dev] show ?thesis
      using Some by (auto simp: tc_acts)
  qed
  with none True show ?thesis by simp
next
  case False
  have "tc_ingress K dev m s = (TC_ACT_OK, m, s)"
    using flow_other_passes [OF assms(2,3) False] .
  then show ?thesis using False by (auto simp: tc_acts)
qed

theorem tc_ingress_drop_iff_witness:
  "tc_ingress ref_kernel False (sample_maps\<lparr>OBFS_KEYS := []\<rparr>) client_pkt =
     (TC_ACT_SHOT, sample_maps\<lparr>OBFS_KEYS := []\<rparr>, client_pkt)"
proof -
  have "maps_ok (sample_maps\<lparr>OBFS_KEYS := []\<rparr>)" using sample_ok(3) by (simp add: maps_ok_def)
  from tc_ingress_drop_iff [OF ref.bpf_kernel_live_axioms client_flow sample_ok(1) this, of False]
  show ?thesis using sample_prefixes(1) by (simp add: active_key_def array_get_def)
qed

section \<open>From the origin to the client\<close>

text \<open>
  C7. A reply from the registered origin to a proxy-source address
  that decodes under the active key, with the ports of the flow swapped, leaves
  \<open>tc_ingress_wan\<close> with the domain's synthetic address as its source and the client's VIP
  as its destination, and is redirected to the tunnel interface.
\<close>

theorem tc_ingress_wan_translates:
  assumes "bpf_kernel_live K e" and "l4_flow K s ip pr sport dport" and "skb_ok s" and "maps_ok m"
    and "take 4 (dst_addr (pkt s) ip) = PROXY_SRC_PREFIX" and "active_key m = Some key"
    and "decode_proxy_src (dst_addr (pkt s) ip) (ProxySrcCtx_new dport sport pr) key =
      Some (client_id, domain_id)"
    and "NAT_MAP m domain_id = Some nat_entry" and "src_addr (pkt s) ip = origin_ipv6 nat_entry"
    and "XFRM_IFINDEX m = [idx]" and "idx \<noteq> 0"
  shows "\<exists>s'. tc_ingress_wan K False m s = (k_redirect K idx 0, s') \<and>
    translated ip pr (synthetic_ipv6 domain_id) (client_vip_from_id24 client_id) s s'"
proof -
  have "incoming m s ip pr sport dport = Some (synthetic_ipv6 domain_id, client_vip_from_id24 client_id)"
    using assms(6-9) by (simp add: incoming_def)
  from bpf_kernel_live.wan_translates [OF assms(1-3,5,4) this, of False] show ?thesis
    using assms(10,11) by (auto simp: wan_action_def array_get_def)
qed

theorem tc_ingress_wan_translates_witness:
  "\<exists>s'. tc_ingress_wan ref_kernel False sample_maps reply_pkt = (TC_ACT_REDIRECT, s') \<and>
    translated 14 6 (synthetic_ipv6 7) (client_vip_from_id24 100) reply_pkt s'"
proof -
  have x: "XFRM_IFINDEX sample_maps = [5]" "(5 :: u32) \<noteq> 0" by (simp_all add: sample_maps_def)
  from tc_ingress_wan_translates [OF ref.bpf_kernel_live_axioms reply_flow sample_ok(2,3)
      sample_prefixes(2) sample_key _ sample_nat _ x, of 100]
  show ?thesis
    by (simp add: sample_addrs sample_decode) (simp add: ref_kernel_def tc_acts)
qed

text \<open>
  C5. Whatever the helpers do, a packet that \<open>tc_ingress_wan\<close>
  modifies or redirects is an authenticated reply: its destination is exactly the address that
  \<open>encode_proxy_src\<close> gives, under the active key, for the flow it answers, and its source
  is the origin registered for the encoded domain.
\<close>

theorem tc_ingress_wan_authentic:
  assumes "skb_ok s" and "tc_ingress_wan K dev m s = (act, s')"
    and "s' \<noteq> s \<or> (act \<noteq> TC_ACT_OK \<and> act \<noteq> TC_ACT_SHOT)"
  shows "\<exists>ip pr sport dport key client_id domain_id nat_entry.
    l4_flow K s ip pr sport dport \<and> active_key m = Some key \<and>
    encode_proxy_src client_id domain_id (ProxySrcCtx_new dport sport pr) key = Some (dst_addr (pkt s) ip) \<and>
    NAT_MAP m domain_id = Some nat_entry \<and> src_addr (pkt s) ip = origin_ipv6 nat_entry"
proof -
  obtain ip pr sport dport where flow: "l4_flow K s ip pr sport dport"
    and pre: "take 4 (dst_addr (pkt s) ip) = PROXY_SRC_PREFIX"
    using wan_no_flow [OF assms(1), of K dev m] assms(2,3) by fastforce
  have "incoming m s ip pr sport dport \<noteq> None"
  proof
    assume "incoming m s ip pr sport dport = None"
    then have "tc_ingress_wan K dev m s = (TC_ACT_SHOT, s)"
      using wan_flow_cases [OF flow assms(1) pre, of dev m] by (simp add: tc_ingress_wan_def)
    then show False using assms(2,3) by simp
  qed
  then obtain key c d n where k: "active_key m = Some key"
      "decode_proxy_src (dst_addr (pkt s) ip) (ProxySrcCtx_new dport sport pr) key = Some (c, d)"
      "NAT_MAP m d = Some n" "src_addr (pkt s) ip = origin_ipv6 n"
    by (auto simp: incoming_def split: option.splits if_splits)
  have "encode_proxy_src c d (ProxySrcCtx_new dport sport pr) key = Some (dst_addr (pkt s) ip)"
    using ps.dec_iff [where b = "dst_addr (pkt s) ip" and a = "(c, d)"] k(2) pre
      flow_addr_lengths(2) [OF flow assms(1)] by (simp add: proxy_addr_def)
  then show ?thesis using flow k by blast
qed

theorem tc_ingress_wan_authentic_witness:
  "\<exists>ip pr sport dport key client_id domain_id nat_entry.
    l4_flow ref_kernel reply_pkt ip pr sport dport \<and> active_key sample_maps = Some key \<and>
    encode_proxy_src client_id domain_id (ProxySrcCtx_new dport sport pr) key =
      Some (dst_addr (pkt reply_pkt) ip) \<and>
    NAT_MAP sample_maps domain_id = Some nat_entry \<and>
    src_addr (pkt reply_pkt) ip = origin_ipv6 nat_entry"
proof -
  obtain s' where r: "tc_ingress_wan ref_kernel False sample_maps reply_pkt = (wan_action ref_kernel sample_maps, s')"
    using ref.wan_translates [OF reply_flow sample_ok(2) sample_prefixes(2) sample_ok(3) sample_incoming]
    by blast
  have "wan_action ref_kernel sample_maps = 7"
    by (simp add: wan_action_def sample_maps_def array_get_def ref_kernel_def)
  then show ?thesis
    by (intro tc_ingress_wan_authentic [OF sample_ok(2) r]) (simp add: tc_acts)
qed

text \<open>
  C11. A TCP or UDP packet to the proxy-source prefix is dropped,
  unmodified, when it is not an authenticated reply; packets to other addresses pass
  unmodified, and so does anything that is not a complete TCP or UDP packet.
\<close>

theorem tc_ingress_wan_rejects:
  assumes "skb_ok s"
  shows "(l4_flow K s ip pr sport dport \<and> take 4 (dst_addr (pkt s) ip) = PROXY_SRC_PREFIX \<and>
      incoming m s ip pr sport dport = None \<longrightarrow> tc_ingress_wan K dev m s = (TC_ACT_SHOT, s)) \<and>
    ((\<forall>ip pr sport dport. l4_flow K s ip pr sport dport \<longrightarrow>
       take 4 (dst_addr (pkt s) ip) \<noteq> PROXY_SRC_PREFIX) \<longrightarrow>
     tc_ingress_wan K dev m s = (TC_ACT_OK, s))"
  using wan_flow_cases [OF _ assms, of K ip pr sport dport dev m] wan_no_flow [OF assms, of K dev m]
  by (auto simp: tc_ingress_wan_def)

theorem tc_ingress_wan_rejects_witness:
  "tc_ingress_wan ref_kernel False (sample_maps\<lparr>OBFS_KEYS := []\<rparr>) reply_pkt = (TC_ACT_SHOT, reply_pkt)"
proof -
  have "incoming (sample_maps\<lparr>OBFS_KEYS := []\<rparr>) reply_pkt 14 6 443 50000 = None"
    by (simp add: incoming_def active_key_def array_get_def)
  then show ?thesis
    using tc_ingress_wan_rejects [OF sample_ok(2), of ref_kernel 14 6 443 50000] reply_flow
      sample_prefixes(2) by blast
qed

text \<open>
  Without dev-mode \<open>tc_ingress_wan\<close> keeps L4 checksums: a
  delivered packet is valid exactly when the reply was.
\<close>

theorem tc_ingress_wan_checksum:
  assumes "bpf_kernel_live K e" and "l4_flow K s ip pr sport dport" and "skb_ok s" and "maps_ok m"
    and "\<not> csum_partial s" and "l4_len pr \<le> n" and "ip + 40 + n \<le> length (pkt s)"
    and "tc_ingress_wan K False m s = (act, s')"
  shows "l4_csum_valid n (pkt s') ip \<longleftrightarrow> l4_csum_valid n (pkt s) ip"
proof (cases "take 4 (dst_addr (pkt s) ip) = PROXY_SRC_PREFIX \<and> incoming m s ip pr sport dport \<noteq> None")
  case True
  then obtain a b where ab: "incoming m s ip pr sport dport = Some (a, b)" by auto
  from bpf_kernel_live.wan_translates [OF assms(1-3) _ assms(4) ab, of False] True assms(5-8)
  have "csum_eq (l4_sum n (pkt s') ip) (l4_sum n (pkt s) ip)" by auto
  then show ?thesis unfolding l4_csum_valid_def by (rule csum_eq_cong)
next
  case False
  have "s' = s"
  proof (cases "take 4 (dst_addr (pkt s) ip) = PROXY_SRC_PREFIX")
    case True
    with False have "incoming m s ip pr sport dport = None" by blast
    then show ?thesis
      using wan_flow_cases [OF assms(2,3) True, of False m] assms(8) by (simp add: tc_ingress_wan_def)
  next
    case False
    then show ?thesis
      using wan_no_flow [OF assms(3), of K False m] flow_unique [OF assms(2)] assms(8) by fastforce
  qed
  then show ?thesis by simp
qed

theorem tc_ingress_wan_checksum_witness:
  "l4_csum_valid 20 (pkt (snd (tc_ingress_wan ref_kernel False sample_maps reply_pkt))) 14 \<longleftrightarrow>
   l4_csum_valid 20 (pkt reply_pkt) 14"
  by (rule tc_ingress_wan_checksum [OF ref.bpf_kernel_live_axioms reply_flow sample_ok(2,3) sample_sizes(2)
        _ _ surjective_pairing]) (simp_all add: sample_sizes)

section \<open>Framing\<close>

text \<open>
  The framing test looks at the first byte only. An Ethernet frame whose
  destination MAC address begins with the nibble 6, and whose source MAC address does not
  begin with byte 6 or 17, is read as a raw IPv6 packet without TCP or UDP: both programs let it
  pass untranslated, whatever it carries. On a WAN interface with such a MAC address no reply is
  delivered.
\<close>

theorem mac_read_as_ipv6:
  assumes "bpf_kernel K e" and "pkt s \<noteq> []" and "drop_bit 4 (pkt s ! 0) = 6"
    and "pkt s ! 6 \<noteq> IpProto_Tcp" and "pkt s ! 6 \<noteq> IpProto_Udp"
  shows "ipv6_offset K s = Ok 0 \<and> tc_ingress_wan K dev m s = (TC_ACT_OK, s) \<and>
    tc_ingress K dev m s = (TC_ACT_OK, m, s)"
proof -
  have "ipv6_offset K s = Ok 0"
    using assms(2,3) by (simp add: ipv6_offset_def bpf_kernel.load [OF assms(1)])
  then show ?thesis
    using assms(4,5)
    by (simp add: tc_ingress_wan_def try_tc_ingress_wan_def tc_ingress_def try_tc_ingress_def
        ptr_at_def next_hdr_def)
qed

theorem mac_read_as_ipv6_witness:
  "let s = sample_tcp [0x60, 0x57, 0x18, 0, 0, 1, 2, 0, 0, 0, 0, 2, 0x86, 0xDD] sample_origin sample_proxy
       [0x01, 0xBB, 0xC3, 0x50] [0xF8, 0x27]
   in tc_ingress_wan ref_kernel False sample_maps s = (TC_ACT_OK, s)"
  using mac_read_as_ipv6 [OF ref.bpf_kernel_axioms,
      of "sample_tcp [0x60, 0x57, 0x18, 0, 0, 1, 2, 0, 0, 0, 0, 2, 0x86, 0xDD] sample_origin sample_proxy
       [0x01, 0xBB, 0xC3, 0x50] [0xF8, 0x27]" False sample_maps]
  by (simp add: sample_tcp_def ip_protos Let_def)

end
