(* ===== verification/DevMode.thy ===== *)
theory DevMode
  imports Nat66
begin

text \<open>
  The dev-mode detour. \<open>tc_ingress\<close> sends with the WAN address as source and records the
  proxy-source address; \<open>xdp_wan\<close> restores it in the reply without touching the checksum;
  \<open>tc_ingress_wan\<close> then decodes it and compensates the checksum.
\<close>

section \<open>The reply table\<close>

lemma select_final_src_dev:
  assumes "dev_wan m = Some wan"
    and "k_reply_insert K (REPLY_TRACK m) (reply_track_key origin (u16_to_be dport) (u16_to_be sport) pr)
      \<lparr> rt_proxy_src = px \<rparr> 0 = Some t"
  shows "select_final_src K True m origin sport dport pr px = (wan, m\<lparr>REPLY_TRACK := t\<rparr>)"
  using assms by (auto simp: select_final_src_def dev_wan_def Let_def split: option.splits if_splits)

lemma flow_tracked:
  assumes flow: "l4_flow K r 14 pr dport sport" and "skb_ok r" and wan: "dev_wan m = Some wan"
    and "take 4 wan \<noteq> PROXY_SRC_PREFIX" and "dst_addr (pkt r) 14 = wan"
    and "ether_type_ipv6 (pkt r) 0"
    and "REPLY_TRACK m (reply_track_key (src_addr (pkt r) 14) (u16_to_be dport) (u16_to_be sport) pr) =
      Some \<lparr> rt_proxy_src = px \<rparr>"
  shows "tracked_reply m (pkt r) = Some px"
  using assms flow_length [OF flow assms(2)]
  by (auto simp: tracked_reply_def ipv6_frame_def l4_flow_def l4_len_def header_lens ip_protos)

text \<open>The frame after \<open>xdp_wan\<close> has restored the proxy-source address.\<close>

lemma flow_put_dst:
  assumes "bpf_kernel K e" and flow: "l4_flow K r 14 pr sport dport" and "skb_ok r" "length px = 16"
  defines "r2 \<equiv> r\<lparr>pkt := put 38 px (pkt r)\<rparr>"
  shows "l4_flow K r2 14 pr sport dport" and "skb_ok r2"
    and "dst_addr (pkt r2) 14 = px" and "src_addr (pkt r2) 14 = src_addr (pkt r) 14"
    and "length (pkt r2) = length (pkt r)"
    and "l4_len pr \<le> n \<Longrightarrow> 54 + n \<le> length (pkt r) \<Longrightarrow>
      l4_sum n (pkt r2) 14 = l4_sum n (pkt r) 14 - sum16 (dst_addr (pkt r) 14) + sum16 px"
proof -
  have len: "54 + l4_len pr \<le> length (pkt r)" using flow_length [OF flow assms(3)] by simp
  then show l: "length (pkt r2) = length (pkt r)" using assms(4) by (simp add: r2_def length_put)
  have sl: "bslice i k (pkt r2) = bslice i k (pkt r)" if "i + k \<le> 38 \<or> 54 \<le> i" "i + k \<le> length (pkt r)" for i k
    unfolding r2_def using that len assms(4) by (simp add: slice_put_other)
  have nth: "pkt r2 ! i = pkt r ! i" if "i < 38" for i
    unfolding r2_def using that len assms(4) by (simp add: nth_put)
  have ne: "pkt r2 \<noteq> [] \<longleftrightarrow> pkt r \<noteq> []" using l by (metis length_0_conv)
  have "ipv6_offset K r2 = ipv6_offset K r"
  proof -
    have "k_load K r2 0 = k_load K r 0"
      using bpf_kernel.load [OF assms(1)] nth [of 0] ne by simp
    moreover have "ether_type_ipv6 (pkt r2) 0 = ether_type_ipv6 (pkt r) 0"
      using sl [of 12 2] len by (simp add: ether_type_ipv6_def)
    moreover have "ptr_at r2 0 EthHdr_LEN = ptr_at r 0 EthHdr_LEN" by (simp add: ptr_at_def r2_def)
    moreover have "ptr_at r 0 EthHdr_LEN = Ok 0 \<or> ptr_at r 0 EthHdr_LEN = Err" by (simp add: ptr_at_def)
    ultimately show ?thesis by (auto simp: ipv6_offset_def split: option.splits)
  qed
  moreover have "headlen r2 = headlen r" by (simp add: r2_def)
  moreover have k4: "4 \<le> l4_len pr" by (simp add: l4_len_def header_lens)
  ultimately show "l4_flow K r2 14 pr sport dport"
    using flow sl [of 54 2] sl [of 56 2] nth [of 20] len
    by (simp add: l4_flow_def next_hdr_def l4_source_def l4_dest_def)
  show "skb_ok r2" using assms(3) l by (simp add: skb_ok_def r2_def)
  show dst: "dst_addr (pkt r2) 14 = px"
    unfolding r2_def using len assms(4) by (simp add: dst_addr_def slice_put_same)
  show src: "src_addr (pkt r2) 14 = src_addr (pkt r) 14"
    using sl [of 22 16] len by (simp add: src_addr_def)
  assume "l4_len pr \<le> n" "54 + n \<le> length (pkt r)"
  then show "l4_sum n (pkt r2) 14 = l4_sum n (pkt r) 14 - sum16 (dst_addr (pkt r) 14) + sum16 px"
    using sl [of 54 n] nth [of 20] dst src by (simp add: l4_sum_def next_hdr_def)
qed

lemma maps_ok_track: "maps_ok (m\<lparr>REPLY_TRACK := t\<rparr>) \<longleftrightarrow> maps_ok m"
  by (simp add: maps_ok_def)

lemma dev_wan_frame [simp]: "dev_wan (m\<lparr>REPLY_TRACK := t\<rparr>) = dev_wan m" "dev_wan (dbg_inc i m) = dev_wan m"
  by (simp_all add: dev_wan_def)

lemma outgoing_cong:
  "NAT_MAP m = NAT_MAP m' \<Longrightarrow> OBFS_KEYS m = OBFS_KEYS m' \<Longrightarrow>
     outgoing m s ip pr sport dport = outgoing m' s ip pr sport dport"
  unfolding outgoing_def active_key_def by (simp only:)

lemma incoming_cong:
  "NAT_MAP m = NAT_MAP m' \<Longrightarrow> OBFS_KEYS m = OBFS_KEYS m' \<Longrightarrow>
     incoming m s ip pr sport dport = incoming m' s ip pr sport dport"
  unfolding incoming_def active_key_def by (simp only:)

lemma xdp_wan_maps:
  "(fst (snd (xdp_wan dev m p)))\<lparr>DBG_COUNTERS := DBG_COUNTERS m\<rparr> = m"
  by (auto simp: xdp_defs Let_def split: option.splits res.splits prod.splits)

lemma xdp_wan_maps_fields:
  "NAT_MAP (fst (snd (xdp_wan dev m p))) = NAT_MAP m" "OBFS_KEYS (fst (snd (xdp_wan dev m p))) = OBFS_KEYS m"
  "DEV_WAN_IPV6 (fst (snd (xdp_wan dev m p))) = DEV_WAN_IPV6 m"
  "XFRM_IFINDEX (fst (snd (xdp_wan dev m p))) = XFRM_IFINDEX m"
  "REPLY_TRACK (fst (snd (xdp_wan dev m p))) = REPLY_TRACK m"
  by (metis xdp_wan_maps bpf_maps.select_convs bpf_maps.update_convs bpf_maps.surjective)+

lemma xdp_tracked_passes:
  "tracked_reply m p = Some px \<Longrightarrow> fst (xdp_wan True m p) = XDP_PASS"
  by (auto simp: tracked_reply_def xdp_defs dev_wan_def ipv6_frame_def header_lens has_prefix_take
      length_dst Let_def split: option.splits res.splits prod.splits if_splits)

section \<open>Properties\<close>

text \<open>What \<open>tc_ingress\<close> records for a flow to an origin.\<close>

definition track_for :: "bytes \<Rightarrow> u16 \<Rightarrow> u16 \<Rightarrow> u8 \<Rightarrow> ReplyTrackKey" where
  "track_for origin sport dport pr = reply_track_key origin (u16_to_be dport) (u16_to_be sport) pr"

lemma ingress_tracks:
  assumes live: "bpf_kernel_live K e" and flow: "l4_flow K s ip pr sport dport" "skb_ok s"
    and pre: "take 4 (dst_addr (pkt s) ip) = SYNTHETIC_PREFIX" and mok: "maps_ok m"
    and out: "outgoing m s ip pr sport dport = Some (px, origin)" and wan: "dev_wan m = Some wan"
    and ins: "k_reply_insert K (REPLY_TRACK m) (track_for origin sport dport pr) \<lparr> rt_proxy_src = px \<rparr> 0 \<noteq> None"
  shows "\<exists>s'. tc_ingress K True m s =
      (TC_ACT_OK, m\<lparr>REPLY_TRACK := (REPLY_TRACK m)(track_for origin sport dport pr \<mapsto> \<lparr> rt_proxy_src = px \<rparr>)\<rparr>, s') \<and>
    translated ip pr wan origin s s'"
proof -
  obtain t where t: "k_reply_insert K (REPLY_TRACK m) (track_for origin sport dport pr) \<lparr> rt_proxy_src = px \<rparr> 0 = Some t"
    using ins by blast
  then have t': "t = (REPLY_TRACK m)(track_for origin sport dport pr \<mapsto> \<lparr> rt_proxy_src = px \<rparr>)"
    using bpf_kernel.insert [OF bpf_kernel_live.axioms(1) [OF live]] by blast
  have pr: "proto_num pr = pr" using flow(1) by (intro proto_num_id) (simp add: l4_flow_def)
  have "select_final_src K True m origin sport dport (proto_num pr) px = (wan, m\<lparr>REPLY_TRACK := t\<rparr>)"
    using select_final_src_dev [OF wan] t unfolding track_for_def pr by blast
  with bpf_kernel_live.ingress_translates [OF live flow pre mok out, of True] wan t' show ?thesis
    by (auto simp: outer_src_def)
qed

text \<open>A tracked reply is delivered to the client encoded in the tracked address.\<close>

lemma tracked_reply_delivered:
  assumes live: "bpf_kernel_live K e" and mok: "maps_ok m"
    and maps: "NAT_MAP m d = Some n" "active_key m = Some key" "XFRM_IFINDEX m = [idx]" "idx \<noteq> 0"
    and enc: "encode_proxy_src c d (ProxySrcCtx_new sport dport pr) key = Some px"
    and wan: "dev_wan m = Some wan" "take 4 wan \<noteq> PROXY_SRC_PREFIX"
    and trk: "REPLY_TRACK m (track_for (origin_ipv6 n) sport dport pr) = Some \<lparr> rt_proxy_src = px \<rparr>"
    and reply: "l4_flow K r 14 pr dport sport" "skb_ok r" "ether_type_ipv6 (pkt r) 0"
      "src_addr (pkt r) 14 = origin_ipv6 n" "dst_addr (pkt r) 14 = wan"
    and xdp: "xdp_wan True m (pkt r) = (verdict, m2, p2)"
  shows "verdict = XDP_PASS \<and>
    (\<exists>r'. tc_ingress_wan K True m2 (r\<lparr>pkt := p2\<rparr>) = (k_redirect K idx 0, r') \<and>
      src_addr (pkt r') 14 = synthetic_ipv6 d \<and> dst_addr (pkt r') 14 = client_vip_from_id24 c \<and>
      (csum_partial r \<or> csum_eq (l4_sum (length (pkt r) - 54) (pkt r') 14)
        (l4_sum (length (pkt r) - 54) (pkt r) 14)))"
proof -
  have tr: "tracked_reply m (pkt r) = Some px"
    using reply wan trk by (intro flow_tracked [OF reply(1,2)]) (simp_all add: track_for_def)
  have p2: "p2 = put 38 px (pkt r)" using xdp_dev_packet [of m "pkt r"] xdp tr by simp
  have v: "verdict = XDP_PASS" using xdp_tracked_passes [OF tr] xdp by simp
  define r2 where "r2 = r\<lparr>pkt := p2\<rparr>"
  note r2 = flow_put_dst [OF bpf_kernel_live.axioms(1) [OF live] reply(1,2) length_encode [OF enc],
      folded p2, folded r2_def]
  have fields: "NAT_MAP m2 = NAT_MAP m" "OBFS_KEYS m2 = OBFS_KEYS m" "XFRM_IFINDEX m2 = XFRM_IFINDEX m"
      "DEV_WAN_IPV6 m2 = DEV_WAN_IPV6 m"
    using xdp_wan_maps_fields [of True m "pkt r"] xdp by simp_all
  have dec: "decode_proxy_src px (ProxySrcCtx_new sport dport pr) key = Some (c, d)"
    using ps.dec_enc [where a = "(c, d)"] enc by simp
  have inc: "incoming m2 r2 14 pr dport sport = Some (synthetic_ipv6 d, client_vip_from_id24 c)"
    using maps(1,2) dec r2(3,4) reply(4) fields(1,2) by (simp add: incoming_def active_key_def)
  have m2: "maps_ok m2" "dev_wan m2 = Some wan" "wan_action K m2 = k_redirect K idx 0"
    using mok wan(1) maps(3,4) fields by (simp_all add: maps_ok_def dev_wan_def wan_action_def array_get_def)
  have px: "take 4 (dst_addr (pkt r2) 14) = PROXY_SRC_PREFIX" using r2(3) prefix_encode [OF enc] by simp
  obtain r' where r': "tc_ingress_wan K True m2 r2 = (k_redirect K idx 0, r')"
      "translated 14 pr (synthetic_ipv6 d) (client_vip_from_id24 c) r2 r'"
      "\<And>n. \<not> csum_partial r2 \<Longrightarrow> l4_len pr \<le> n \<Longrightarrow> 14 + 40 + n \<le> length (pkt r2) \<Longrightarrow>
         csum_eq (l4_sum n (pkt r') 14) (l4_sum n (pkt r2) 14 + (sum16 wan - sum16 px))"
    using bpf_kernel_live.wan_translates [OF live r2(1,2) px m2(1) inc, of True] m2 r2(3) by auto
  have n: "l4_len pr \<le> length (pkt r) - 54" "54 + (length (pkt r) - 54) \<le> length (pkt r)"
    using flow_length [OF reply(1,2)] by simp_all
  have "src_addr (pkt r') 14 = synthetic_ipv6 d" "dst_addr (pkt r') 14 = client_vip_from_id24 c"
    using r'(2) flow_fits [OF r2(1,2)] by (auto simp: translated_def readdressed_fields)
  moreover have "csum_eq (l4_sum (length (pkt r) - 54) (pkt r') 14) (l4_sum (length (pkt r) - 54) (pkt r) 14)"
    if "\<not> csum_partial r"
    using r'(3) [of "length (pkt r) - 54"] n r2(5) r2(6) [OF n] that reply(5) by (simp add: r2_def)
  ultimately show ?thesis using v r'(1) unfolding r2_def by blast
qed

text \<open>
  C28. In dev-mode, the packet of a client leaves with the WAN address as
  its source; the origin's reply to that address passes \<open>xdp_wan\<close>, which restores the
  proxy-source address, and \<open>tc_ingress_wan\<close> delivers it from the address the client
  used to the client's own address. The checksum of the delivered packet is valid exactly when
  that of the reply was, although \<open>xdp_wan\<close> rewrote an address without updating it.
\<close>

theorem dev_mode_round_trip:
  assumes live: "bpf_kernel_live K e" and flow: "l4_flow K s ip pr sport dport" "skb_ok s" and mok: "maps_ok m"
    and addr: "src_addr (pkt s) ip = client_vip_from_id24 c" "dst_addr (pkt s) ip = synthetic_ipv6 d"
    and maps: "NAT_MAP m d = Some n" "active_key m = Some key" "XFRM_IFINDEX m = [idx]" "idx \<noteq> 0"
    and enc: "encode_proxy_src c d (ProxySrcCtx_new sport dport pr) key = Some px"
    and wan: "dev_wan m = Some wan" "take 4 wan \<noteq> PROXY_SRC_PREFIX"
    and ins: "k_reply_insert K (REPLY_TRACK m) (track_for (origin_ipv6 n) sport dport pr)
      \<lparr> rt_proxy_src = px \<rparr> 0 \<noteq> None"
    and out: "tc_ingress K True m s = (act, m1, s1)"
    and reply: "l4_flow K r 14 pr dport sport" "skb_ok r" "ether_type_ipv6 (pkt r) 0"
      "src_addr (pkt r) 14 = dst_addr (pkt s1) ip" "dst_addr (pkt r) 14 = src_addr (pkt s1) ip"
    and xdp: "xdp_wan True m1 (pkt r) = (verdict, m2, p2)"
  shows "act = TC_ACT_OK \<and> verdict = XDP_PASS \<and>
    (\<exists>r'. tc_ingress_wan K True m2 (r\<lparr>pkt := p2\<rparr>) = (k_redirect K idx 0, r') \<and>
      src_addr (pkt r') 14 = dst_addr (pkt s) ip \<and> dst_addr (pkt r') 14 = src_addr (pkt s) ip \<and>
      (csum_partial r \<or> l4_csum_valid (length (pkt r) - 54) (pkt r') 14 =
        l4_csum_valid (length (pkt r) - 54) (pkt r) 14))"
proof -
  have o: "outgoing m s ip pr sport dport = Some (px, origin_ipv6 n)"
    using maps enc by (simp add: outgoing_def addr domain_id_synthetic)
  have pre: "take 4 (dst_addr (pkt s) ip) = SYNTHETIC_PREFIX" by (simp add: addr prefix_synthetic)
  from ingress_tracks [OF live flow pre mok o wan(1) ins] out
  have 1: "act = TC_ACT_OK" "translated ip pr wan (origin_ipv6 n) s s1"
    and m1: "m1 = m\<lparr>REPLY_TRACK := (REPLY_TRACK m)(track_for (origin_ipv6 n) sport dport pr \<mapsto> \<lparr> rt_proxy_src = px \<rparr>)\<rparr>"
    by auto
  have s1: "src_addr (pkt s1) ip = wan" "dst_addr (pkt s1) ip = origin_ipv6 n"
    using 1(2) maps_ok_nat [OF mok maps(1)] maps_ok_wan [OF mok wan(1)] flow_fits [OF flow]
    by (auto simp: translated_def readdressed_fields)
  have "maps_ok m1" "active_key m1 = Some key" "dev_wan m1 = Some wan"
    using mok maps(2) wan(1) by (simp_all add: m1 maps_ok_track active_key_def)
  from tracked_reply_delivered [OF live this(1) _ this(2) _ maps(4) enc this(3) wan(2) _ reply(1-3) _ _ xdp]
  show ?thesis
    using 1(1) maps(1,3) reply(4,5) s1 addr csum_eq_cong by (auto simp: m1 l4_csum_valid_def)
qed

text \<open>The sample flow with a WAN address configured.\<close>

definition sample_wan :: bytes where
  "sample_wan = [0x2a, 0x01, 0x04, 0xf8, 0, 0, 0, 0, 0, 0, 0, 0, 0, 0, 0, 2]"

definition dev_maps :: bpf_maps where
  "dev_maps = sample_maps\<lparr>DEV_WAN_IPV6 := [sample_wan]\<rparr>"

definition dev_reply_pkt :: skb where
  "dev_reply_pkt = sample_tcp [2, 0, 0, 0, 0, 1, 2, 0, 0, 0, 0, 2, 0x86, 0xDD] sample_origin sample_wan
     [0x01, 0xBB, 0xC3, 0x50] [0x3D, 0xC4]"

lemma dev_reply_flow: "l4_flow ref_kernel dev_reply_pkt 14 6 443 50000" "skb_ok dev_reply_pkt"
  "ether_type_ipv6 (pkt dev_reply_pkt) 0" "src_addr (pkt dev_reply_pkt) 14 = sample_origin"
  "dst_addr (pkt dev_reply_pkt) 14 = sample_wan"
  by (simp_all add: dev_reply_pkt_def sample_wan_def skb_ok_def sample_eval)

lemma dev_maps_facts: "maps_ok dev_maps" "NAT_MAP dev_maps 7 = Some \<lparr> origin_ipv6 = sample_origin \<rparr>"
  "active_key dev_maps = Some TEST_KEY" "XFRM_IFINDEX dev_maps = [5]" "dev_wan dev_maps = Some sample_wan"
  "take 4 sample_wan \<noteq> PROXY_SRC_PREFIX" "REPLY_TRACK dev_maps = Map.empty"
  using sample_key sample_nat
  by (simp_all add: dev_maps_def maps_ok_def sample_maps_def active_key_def dev_wan_def array_get_def
      sample_wan_def zero_addr_def contract_defs sample_origin_def)

lemma ref_insert: "card (dom t) < 65536 \<Longrightarrow> k_reply_insert ref_kernel t k v f = Some (t(k \<mapsto> v))"
  by (simp add: ref_kernel_def)

lemma dev_sample_run:
  assumes "tc_ingress ref_kernel True dev_maps client_pkt = (act, m1, s1)"
  shows "src_addr (pkt s1) 0 = sample_wan" "dst_addr (pkt s1) 0 = sample_origin" "act = TC_ACT_OK"
    and "card (dom (REPLY_TRACK m1)) < 65536"
proof -
  have o: "outgoing dev_maps client_pkt 0 6 50000 443 = Some (sample_proxy, sample_origin)"
    using sample_outgoing outgoing_cong [of dev_maps sample_maps] by (simp add: dev_maps_def)
  have ins: "k_reply_insert ref_kernel (REPLY_TRACK dev_maps) k w 0 \<noteq> None" for k w
    by (simp add: dev_maps_facts ref_insert)
  from ingress_tracks [OF ref.bpf_kernel_live_axioms client_flow sample_ok(1) sample_prefixes(1)
      dev_maps_facts(1) o dev_maps_facts(5) ins] assms
  have r: "translated 0 6 sample_wan sample_origin client_pkt s1" "act = TC_ACT_OK"
    and m1: "REPLY_TRACK m1 = [track_for sample_origin 50000 443 6 \<mapsto> \<lparr> rt_proxy_src = sample_proxy \<rparr>]"
    by (auto simp: dev_maps_facts)
  show "act = TC_ACT_OK" by (fact r)
  show "src_addr (pkt s1) 0 = sample_wan" "dst_addr (pkt s1) 0 = sample_origin"
    using r(1) flow_fits [OF client_flow sample_ok(1)]
    by (auto simp: translated_def readdressed_fields sample_wan_def sample_origin_def)
  show "card (dom (REPLY_TRACK m1)) < 65536" by (simp add: m1)
qed

theorem dev_mode_round_trip_witness:
  "\<exists>m1 s1 m2 p2 r'. tc_ingress ref_kernel True dev_maps client_pkt = (TC_ACT_OK, m1, s1) \<and>
     xdp_wan True m1 (pkt dev_reply_pkt) = (XDP_PASS, m2, p2) \<and>
     tc_ingress_wan ref_kernel True m2 (dev_reply_pkt\<lparr>pkt := p2\<rparr>) = (k_redirect ref_kernel 5 0, r') \<and>
     dst_addr (pkt r') 14 = client_vip_from_id24 100"
proof -
  obtain act m1 s1 where out: "tc_ingress ref_kernel True dev_maps client_pkt = (act, m1, s1)"
    by (metis prod.exhaust)
  obtain v m2 p2 where xdp: "xdp_wan True m1 (pkt dev_reply_pkt) = (v, m2, p2)" by (metis prod.exhaust)
  have ins: "k_reply_insert ref_kernel (REPLY_TRACK dev_maps) k w 0 \<noteq> None" for k w
    by (simp add: dev_maps_facts ref_insert)
  from dev_mode_round_trip [OF ref.bpf_kernel_live_axioms client_flow sample_ok(1) dev_maps_facts(1)
      sample_addrs(1,2) dev_maps_facts(2-4) _ sample_encode dev_maps_facts(5,6) ins out
      dev_reply_flow(1-3) _ _ xdp] dev_sample_run(1-3) [OF out] dev_reply_flow(4,5) sample_addrs(1) out xdp
  show ?thesis by auto
qed

text \<open>
  C37. In dev-mode, two clients that use the same source port to the same
  origin port share one entry of the reply table, since ports are not translated: after both
  have sent, the reply to the first client's packet is delivered to the second client.
\<close>

theorem dev_mode_port_clash:
  assumes live: "bpf_kernel_live K e" and mok: "maps_ok m"
    and a: "l4_flow K s ip pr sport dport" "skb_ok s" "src_addr (pkt s) ip = client_vip_from_id24 c"
      "dst_addr (pkt s) ip = synthetic_ipv6 d"
    and b: "l4_flow K t ip' pr sport dport" "skb_ok t" "src_addr (pkt t) ip' = client_vip_from_id24 c'"
      "dst_addr (pkt t) ip' = synthetic_ipv6 d"
    and maps: "NAT_MAP m d = Some n" "active_key m = Some key" "XFRM_IFINDEX m = [idx]" "idx \<noteq> 0"
    and enc: "encode_proxy_src c d (ProxySrcCtx_new sport dport pr) key = Some px"
      "encode_proxy_src c' d (ProxySrcCtx_new sport dport pr) key = Some px'"
    and wan: "dev_wan m = Some wan" "take 4 wan \<noteq> PROXY_SRC_PREFIX"
    and out: "tc_ingress K True m s = (act, m1, s1)" "tc_ingress K True m1 t = (act', m2, t1)"
    and ins: "k_reply_insert K (REPLY_TRACK m) (track_for (origin_ipv6 n) sport dport pr)
        \<lparr> rt_proxy_src = px \<rparr> 0 \<noteq> None"
      "k_reply_insert K (REPLY_TRACK m1) (track_for (origin_ipv6 n) sport dport pr)
        \<lparr> rt_proxy_src = px' \<rparr> 0 \<noteq> None"
    and reply: "l4_flow K r 14 pr dport sport" "skb_ok r" "ether_type_ipv6 (pkt r) 0"
      "src_addr (pkt r) 14 = dst_addr (pkt s1) ip" "dst_addr (pkt r) 14 = src_addr (pkt s1) ip"
    and xdp: "xdp_wan True m2 (pkt r) = (verdict, m3, p3)"
  shows "\<exists>r'. tc_ingress_wan K True m3 (r\<lparr>pkt := p3\<rparr>) = (k_redirect K idx 0, r') \<and>
    dst_addr (pkt r') 14 = client_vip_from_id24 c'"
proof -
  let ?k = "track_for (origin_ipv6 n) sport dport pr"
  have oa: "outgoing m s ip pr sport dport = Some (px, origin_ipv6 n)"
    using maps enc by (simp add: outgoing_def a domain_id_synthetic)
  have pa: "take 4 (dst_addr (pkt s) ip) = SYNTHETIC_PREFIX" by (simp add: a prefix_synthetic)
  have pb: "take 4 (dst_addr (pkt t) ip') = SYNTHETIC_PREFIX" by (simp add: b prefix_synthetic)
  from ingress_tracks [OF live a(1,2) pa mok oa wan(1) ins(1)] out(1)
  have tr: "translated ip pr wan (origin_ipv6 n) s s1"
    and m1: "m1 = m\<lparr>REPLY_TRACK := (REPLY_TRACK m)(?k \<mapsto> \<lparr> rt_proxy_src = px \<rparr>)\<rparr>" by auto
  have ob: "outgoing m1 t ip' pr sport dport = Some (px', origin_ipv6 n)"
    using maps enc by (simp add: outgoing_def active_key_def b domain_id_synthetic m1)
  have "maps_ok m1" "dev_wan m1 = Some wan" using mok wan(1) by (simp_all add: m1 maps_ok_track)
  from ingress_tracks [OF live b(1,2) pb this(1) ob this(2) ins(2)] out(2)
  have m2: "m2 = m\<lparr>REPLY_TRACK := (REPLY_TRACK m)(?k \<mapsto> \<lparr> rt_proxy_src = px' \<rparr>)\<rparr>" by (auto simp: m1)
  have s1: "src_addr (pkt s1) ip = wan" "dst_addr (pkt s1) ip = origin_ipv6 n"
    using tr maps_ok_nat [OF mok maps(1)] maps_ok_wan [OF mok wan(1)] flow_fits [OF a(1,2)]
    by (auto simp: translated_def readdressed_fields)
  have "maps_ok m2" "active_key m2 = Some key" "dev_wan m2 = Some wan"
    using mok maps(2) wan(1) by (simp_all add: m2 maps_ok_track active_key_def)
  from tracked_reply_delivered [OF live this(1) _ this(2) _ maps(4) enc(2) this(3) wan(2) _ reply(1-3) _ _ xdp]
  show ?thesis using maps(1,3) reply(4,5) s1 by (auto simp: m2)
qed

text \<open>A second client with the same source port.\<close>

definition client_pkt_2 :: skb where
  "client_pkt_2 = sample_tcp [] (client_vip_from_id24 101) (synthetic_ipv6 7) [0xC3, 0x50, 0x01, 0xBB]
     [0x98, 0xCB]"

lemma client_2: "l4_flow ref_kernel client_pkt_2 0 6 50000 443" "skb_ok client_pkt_2"
  "src_addr (pkt client_pkt_2) 0 = client_vip_from_id24 101" "dst_addr (pkt client_pkt_2) 0 = synthetic_ipv6 7"
proof -
  have "client_vip_from_id24 101 = [0xfd, 0, 0xab, 0xcd, 0, 0, 0, 1, 0, 0, 0, 0, 0, 0, 0, 101]"
    by (simp add: client_vip_from_id24_def contract_defs to_be_bytes_def upt_rec)
  then show "l4_flow ref_kernel client_pkt_2 0 6 50000 443" "skb_ok client_pkt_2"
    "src_addr (pkt client_pkt_2) 0 = client_vip_from_id24 101" "dst_addr (pkt client_pkt_2) 0 = synthetic_ipv6 7"
    by (simp_all add: client_pkt_2_def skb_ok_def sample_eval)
qed

theorem dev_mode_port_clash_witness:
  "\<exists>m1 s1 act' m2 t1 verdict m3 p3 r'.
     tc_ingress ref_kernel True dev_maps client_pkt = (TC_ACT_OK, m1, s1) \<and>
     tc_ingress ref_kernel True m1 client_pkt_2 = (act', m2, t1) \<and>
     xdp_wan True m2 (pkt dev_reply_pkt) = (verdict, m3, p3) \<and>
     tc_ingress_wan ref_kernel True m3 (dev_reply_pkt\<lparr>pkt := p3\<rparr>) = (k_redirect ref_kernel 5 0, r') \<and>
     dst_addr (pkt r') 14 = client_vip_from_id24 101"
proof -
  obtain act m1 s1 where a: "tc_ingress ref_kernel True dev_maps client_pkt = (act, m1, s1)"
    by (metis prod.exhaust)
  obtain act' m2 t1 where b: "tc_ingress ref_kernel True m1 client_pkt_2 = (act', m2, t1)"
    by (metis prod.exhaust)
  obtain v m3 p3 where x: "xdp_wan True m2 (pkt dev_reply_pkt) = (v, m3, p3)" by (metis prod.exhaust)
  obtain px' where px': "encode_proxy_src 101 7 (ProxySrcCtx_new 50000 443 6) TEST_KEY = Some px'"
    by (simp add: encode_proxy_src_eq Let_def)
  note run = dev_sample_run [OF a]
  have ins: "k_reply_insert ref_kernel (REPLY_TRACK dev_maps) k w 0 \<noteq> None"
    "k_reply_insert ref_kernel (REPLY_TRACK m1) k w 0 \<noteq> None" for k w
    using run(4) by (simp_all add: dev_maps_facts ref_insert)
  from dev_mode_port_clash [OF ref.bpf_kernel_live_axioms dev_maps_facts(1) client_flow sample_ok(1)
      sample_addrs(1,2) client_2 dev_maps_facts(2-4) _ sample_encode px' dev_maps_facts(5,6) a b ins
      dev_reply_flow(1-3) _ _ x] run(1-3) dev_reply_flow(4,5) a b x
  show ?thesis by auto
qed

text \<open>
  In dev-mode with a WAN address configured, a valid reply that
  arrives at the proxy-source address itself, so that \<open>xdp_wan\<close> did not rewrite it, is
  compensated all the same: what is delivered has a valid checksum only if the WAN address and
  the proxy-source address happen to have the same sum.
\<close>

theorem dev_mode_direct_reply:
  assumes "bpf_kernel_live K e" and "l4_flow K s ip pr sport dport" and "skb_ok s" and "maps_ok m"
    and "take 4 (dst_addr (pkt s) ip) = PROXY_SRC_PREFIX"
    and "incoming m s ip pr sport dport = Some (synthetic, client)" and "dev_wan m = Some wan"
    and "\<not> csum_partial s" and "l4_len pr \<le> n" and "ip + 40 + n \<le> length (pkt s)"
    and "l4_csum_valid n (pkt s) ip" and "tc_ingress_wan K True m s = (act, s')"
  shows "l4_csum_valid n (pkt s') ip \<longleftrightarrow> csum_eq (sum16 wan) (sum16 (dst_addr (pkt s) ip))"
proof -
  let ?d = "sum16 wan - sum16 (dst_addr (pkt s) ip)"
  have "csum_eq (l4_sum n (pkt s') ip) (l4_sum n (pkt s) ip + ?d)"
    using bpf_kernel_live.wan_translates [OF assms(1-3,5,4,6), of True] assms(7-12) by auto
  moreover have "csum_eq (l4_sum n (pkt s) ip + ?d) (0 + ?d)"
    using assms(11) unfolding l4_csum_valid_def by (intro csum_eq_add csum_eq_refl)
  ultimately have "csum_eq (l4_sum n (pkt s') ip) ?d" by (metis csum_eq_trans add_0)
  then have "csum_eq (l4_sum n (pkt s') ip) 0 \<longleftrightarrow> csum_eq ?d 0" by (rule csum_eq_cong)
  then show ?thesis by (simp add: l4_csum_valid_def csum_eq_def)
qed

theorem dev_mode_direct_reply_witness:
  "\<not> l4_csum_valid 20 (pkt (snd (tc_ingress_wan ref_kernel True dev_maps reply_pkt))) 14"
proof -
  have "incoming dev_maps reply_pkt 14 6 443 50000 = Some (synthetic_ipv6 7, client_vip_from_id24 100)"
    using sample_incoming incoming_cong [of dev_maps sample_maps] by (simp add: dev_maps_def)
  from dev_mode_direct_reply [OF ref.bpf_kernel_live_axioms reply_flow sample_ok(2) dev_maps_facts(1)
      sample_prefixes(2) this dev_maps_facts(5) sample_sizes(2) _ _ sample_csums(2) surjective_pairing]
  show ?thesis
    using sample_addrs(4) by (simp add: sample_sizes sample_wan_def sample_proxy_def csum_eq_def)
qed

end
