(* ===== verification/RustStr.thy ===== *)
theory RustStr
  imports Prelude "HOL-Library.Char_ord"
begin

text \<open>
  What the Rust programs use of \<open>str\<close> and of the integer parsers and formatters of the
  standard library. A \<open>str\<close> is the list of its UTF-8 bytes, so \<open>len\<close> is the length of
  the list and slicing is by byte index.
\<close>

section \<open>Digits\<close>

definition char_code :: "char \<Rightarrow> nat" where
  "char_code c = of_char c"

definition digit_val :: "nat \<Rightarrow> char \<Rightarrow> nat option" where
  "digit_val radix c =
     (let n = char_code c;
          d = (if 48 \<le> n \<and> n \<le> 57 then Some (n - 48)
               else if 97 \<le> n \<and> n \<le> 102 then Some (n - 87)
               else if 65 \<le> n \<and> n \<le> 70 then Some (n - 55)
               else None)
      in case d of Some v \<Rightarrow> if v < radix then Some v else None | None \<Rightarrow> None)"

fun radix_val :: "nat \<Rightarrow> nat \<Rightarrow> string \<Rightarrow> nat option" where
  "radix_val radix acc [] = Some acc"
| "radix_val radix acc (c # cs) =
     (case digit_val radix c of None \<Rightarrow> None | Some d \<Rightarrow> radix_val radix (acc * radix + d) cs)"

text \<open>\<open>u8\<close>, \<open>u32\<close> \<open>::from_str_radix\<close>, with the largest value of the type: one leading plus sign is accepted.\<close>

definition parse_uint :: "nat \<Rightarrow> nat \<Rightarrow> string \<Rightarrow> nat option" where
  "parse_uint radix mx s =
     (case s of
        [] \<Rightarrow> None
      | [c] \<Rightarrow> if c = CHR ''+'' \<or> c = CHR ''-'' then None
               else (case radix_val radix 0 [c] of Some v \<Rightarrow> if v \<le> mx then Some v else None | None \<Rightarrow> None)
      | c # cs \<Rightarrow>
          (case radix_val radix 0 (if c = CHR ''+'' then cs else s) of
             Some v \<Rightarrow> if v \<le> mx then Some v else None | None \<Rightarrow> None))"

text \<open>\<open>i32::from_str\<close>.\<close>

definition parse_i32 :: "string \<Rightarrow> int option" where
  "parse_i32 s =
     (case s of
        c # d # cs \<Rightarrow>
          if c = CHR ''-'' then
            (case radix_val 10 0 (d # cs) of
               Some v \<Rightarrow> if v \<le> 2147483648 then Some (- int v) else None | None \<Rightarrow> None)
          else map_option int (parse_uint 10 2147483647 s)
      | _ \<Rightarrow> map_option int (parse_uint 10 2147483647 s))"

section \<open>Formatting\<close>

definition digit_char :: "nat \<Rightarrow> char" where
  "digit_char d = char_of (if d < 10 then 48 + d else 87 + d)"

text \<open>\<open>{}\<close> and \<open>{:x}\<close>: the digits of a number without leading zeros.\<close>

function radix_digits :: "nat \<Rightarrow> nat \<Rightarrow> string" where
  "radix_digits radix n =
     (if radix < 2 \<or> n < radix then [digit_char n]
      else radix_digits radix (n div radix) @ [digit_char (n mod radix)])"
  by auto

termination
  by (relation "measure snd") (auto intro: div_less_dividend)

declare radix_digits.simps [simp del]

text \<open>\<open>{:02x}\<close> of a byte.\<close>

definition fmt_02x :: "u8 \<Rightarrow> string" where
  "fmt_02x b = [digit_char (unat b div 16), digit_char (unat b mod 16)]"

definition show_int :: "int \<Rightarrow> string" where
  "show_int i = (if i < 0 then CHR ''-'' # radix_digits 10 (nat (- i)) else radix_digits 10 (nat i))"

lemma char_code_digit: "d < 16 \<Longrightarrow> char_code (digit_char d) = (if d < 10 then 48 + d else 87 + d)"
  by (simp add: char_code_def digit_char_def)

lemma digit_val_digit: "d < radix \<Longrightarrow> radix \<le> 16 \<Longrightarrow> digit_val radix (digit_char d) = Some d"
  by (auto simp: digit_val_def char_code_digit Let_def)

lemma radix_val_append:
  "radix_val r acc (xs @ ys) = (case radix_val r acc xs of None \<Rightarrow> None | Some v \<Rightarrow> radix_val r v ys)"
  by (induction xs arbitrary: acc) (auto split: option.splits)

lemma radix_val_acc:
  "radix_val r acc xs = (case radix_val r 0 xs of None \<Rightarrow> None | Some v \<Rightarrow> Some (acc * r ^ length xs + v))"
proof (induction xs arbitrary: acc)
  case (Cons c cs)
  show ?case
  proof (cases "digit_val r c")
    case (Some d)
    then show ?thesis
      using Cons.IH [of "acc * r + d"] Cons.IH [of d]
      by (auto simp: algebra_simps split: option.splits)
  qed simp
qed simp

lemma radix_val_digits: "2 \<le> r \<Longrightarrow> r \<le> 16 \<Longrightarrow> radix_val r 0 (radix_digits r n) = Some n"
proof (induction r n rule: radix_digits.induct)
  case (1 r n)
  show ?case
  proof (cases "n < r")
    case True
    then show ?thesis using "1.prems" by (simp add: radix_digits.simps [of r n] digit_val_digit)
  next
    case False
    then have "radix_val r 0 (radix_digits r (n div r)) = Some (n div r)" using 1 by simp
    then show ?thesis
      using False "1.prems"
      by (simp add: radix_digits.simps [of r n] radix_val_append digit_val_digit)
  qed
qed

lemma radix_digits_nonempty: "radix_digits r n \<noteq> []"
  by (simp add: radix_digits.simps [of r n])

lemma radix_digits_are_digits: "2 \<le> r \<Longrightarrow> r \<le> 16 \<Longrightarrow> c \<in> set (radix_digits r n) \<Longrightarrow> digit_val r c \<noteq> None"
proof (induction r n rule: radix_digits.induct)
  case (1 r n)
  then show ?case
    by (cases "n < r") (auto simp: radix_digits.simps [of r n] digit_val_digit)
qed

lemma length_radix_digits: "2 \<le> r \<Longrightarrow> n < r ^ k \<Longrightarrow> 0 < k \<Longrightarrow> length (radix_digits r n) \<le> k"
proof (induction r n arbitrary: k rule: radix_digits.induct)
  case (1 r n)
  show ?case
  proof (cases "n < r")
    case True
    then show ?thesis using "1.prems" by (simp add: radix_digits.simps [of r n])
  next
    case False
    obtain j where j: "k = Suc j" using "1.prems" by (cases k) auto
    moreover have "j \<noteq> 0" using False "1.prems" j by (cases j) auto
    ultimately have k: "k = Suc j" "0 < j" by simp_all
    then have "n div r < r ^ j" using "1.prems" by (simp add: div_less_iff_less_mult mult.commute)
    then have "length (radix_digits r (n div r)) \<le> j" using 1 False k by simp
    then show ?thesis using False "1.prems" k by (simp add: radix_digits.simps [of r n])
  qed
qed

lemma sign_not_digit: "digit_val r (CHR ''+'') = None" "digit_val r (CHR ''-'') = None"
  by (simp_all add: digit_val_def char_code_def)

lemma radix_digits_hd: "2 \<le> r \<Longrightarrow> r \<le> 16 \<Longrightarrow> hd (radix_digits r n) \<noteq> CHR ''+'' \<and> hd (radix_digits r n) \<noteq> CHR ''-''"
  using radix_digits_are_digits [of r "hd (radix_digits r n)" n] radix_digits_nonempty [of r n]
    sign_not_digit hd_in_set by metis

lemma parse_uint_digits:
  assumes "2 \<le> r" "r \<le> 16" "n \<le> mx"
  shows "parse_uint r mx (radix_digits r n) = Some n"
proof -
  obtain c cs where e: "radix_digits r n = c # cs"
    using radix_digits_nonempty by (metis list.exhaust)
  then have "c \<noteq> CHR ''+''" "c \<noteq> CHR ''-''" using radix_digits_hd [OF assms(1,2), of n] by auto
  then show ?thesis
    using radix_val_digits [OF assms(1,2), of n] assms(3) unfolding parse_uint_def e
    by (cases cs) auto
qed

lemma parse_i32_show:
  assumes "- 2147483648 \<le> i" "i \<le> 2147483647"
  shows "parse_i32 (show_int i) = Some i"
proof (cases "i < 0")
  case True
  obtain d ds where e: "radix_digits 10 (nat (- i)) = d # ds"
    using radix_digits_nonempty by (metis list.exhaust)
  then have "radix_val 10 0 (d # ds) = Some (nat (- i))" using radix_val_digits [of 10 "nat (- i)"] by simp
  then show ?thesis using True assms e by (simp add: show_int_def parse_i32_def del: radix_val.simps)
next
  case False
  obtain d ds where e: "radix_digits 10 (nat i) = d # ds"
    using radix_digits_nonempty by (metis list.exhaust)
  then have "d \<noteq> CHR ''-''" using radix_digits_hd [of 10 "nat i"] by simp
  moreover have "parse_uint 10 2147483647 (d # ds) = Some (nat i)"
    using parse_uint_digits [of 10 "nat i" 2147483647] False assms e by simp
  ultimately show ?thesis using False e by (auto simp: show_int_def parse_i32_def split: list.splits)
qed

lemma unat_less_256: "unat (b :: u8) < 256"
proof -
  have "unat b < 2 ^ LENGTH(8)" by (rule unsigned_less)
  then show ?thesis by simp
qed

lemma fmt_02x_val: "radix_val 16 0 (fmt_02x b) = Some (unat b)"
proof -
  have "unat b < 256" by (rule unat_less_256)
  then show ?thesis by (simp add: fmt_02x_def digit_val_digit)
qed

section \<open>Slices and white space\<close>

definition is_char_boundary :: "string \<Rightarrow> nat \<Rightarrow> bool" where
  "is_char_boundary s i \<longleftrightarrow>
     i = 0 \<or> i = length s \<or> i < length s \<and> \<not> (128 \<le> char_code (s ! i) \<and> char_code (s ! i) < 192)"

text \<open>\<open>&s[a..b]\<close>; \<open>None\<close> is a panic.\<close>

definition str_slice :: "nat \<Rightarrow> nat \<Rightarrow> string \<Rightarrow> string option" where
  "str_slice a b s =
     (if a \<le> b \<and> b \<le> length s \<and> is_char_boundary s a \<and> is_char_boundary s b
      then Some (take (b - a) (drop a s)) else None)"

text \<open>The UTF-8 encodings of the characters with the Unicode property \<open>White_Space\<close>.\<close>

definition ws_codes :: "nat list list" where
  "ws_codes =
     [[9], [10], [11], [12], [13], [32], [0xC2, 0x85], [0xC2, 0xA0], [0xE1, 0x9A, 0x80],
      [0xE2, 0x80, 0x80], [0xE2, 0x80, 0x81], [0xE2, 0x80, 0x82], [0xE2, 0x80, 0x83],
      [0xE2, 0x80, 0x84], [0xE2, 0x80, 0x85], [0xE2, 0x80, 0x86], [0xE2, 0x80, 0x87],
      [0xE2, 0x80, 0x88], [0xE2, 0x80, 0x89], [0xE2, 0x80, 0x8A], [0xE2, 0x80, 0xA8],
      [0xE2, 0x80, 0xA9], [0xE2, 0x80, 0xAF], [0xE2, 0x81, 0x9F], [0xE3, 0x80, 0x80]]"

definition ws_chars :: "string list" where
  "ws_chars = map (map char_of) ws_codes"

definition ws_prefix :: "string list \<Rightarrow> string \<Rightarrow> string option" where
  "ws_prefix ws s = find (\<lambda>w. w \<noteq> [] \<and> take (length w) s = w) ws"

lemma ws_prefix_less: "ws_prefix ws s = Some w \<Longrightarrow> w \<noteq> [] \<and> s \<noteq> []"
  by (auto simp: ws_prefix_def find_Some_iff)

function strip_ws :: "string list \<Rightarrow> string \<Rightarrow> string" where
  "strip_ws ws s = (case ws_prefix ws s of None \<Rightarrow> s | Some w \<Rightarrow> strip_ws ws (drop (length w) s))"
  by auto

termination
  by (relation "measure (\<lambda>(ws, s). length s)") (auto dest: ws_prefix_less)

declare strip_ws.simps [simp del]

definition trim :: "string \<Rightarrow> string" where
  "trim s = rev (strip_ws (map rev ws_chars) (rev (strip_ws ws_chars s)))"

text \<open>A string of ASCII graphic characters is not trimmed, and surrounding ASCII blanks are.\<close>

definition graphic :: "char \<Rightarrow> bool" where
  "graphic c \<longleftrightarrow> 32 < char_code c \<and> char_code c < 128"

definition ascii_blank :: "char \<Rightarrow> bool" where
  "ascii_blank c \<longleftrightarrow> char_code c = 32 \<or> 9 \<le> char_code c \<and> char_code c \<le> 13"

lemma char_code_char_of: "n < 256 \<Longrightarrow> char_code (char_of n) = n"
  by (simp add: char_code_def)

lemma hd_ws_codes:
  "\<forall>w \<in> set ws_codes. w \<noteq> [] \<and> hd w < 256 \<and> last w < 256 \<and> \<not> (32 < hd w \<and> hd w < 128) \<and> \<not> (32 < last w \<and> last w < 128)"
  by (simp add: ws_codes_def)

lemma ws_chars_not_graphic: "w \<in> set ws_chars \<Longrightarrow> w \<noteq> [] \<and> \<not> graphic (hd w) \<and> \<not> graphic (last w)"
  using hd_ws_codes by (auto simp: ws_chars_def graphic_def hd_map last_map char_code_char_of)

lemma ws_prefix_graphic:
  assumes "\<And>w. w \<in> set ws \<Longrightarrow> w \<noteq> [] \<Longrightarrow> \<not> graphic (hd w)" "graphic c"
  shows "ws_prefix ws (c # s) = None"
  using assms by (auto simp: ws_prefix_def find_None_iff) (metis graphic_def list.sel(1) take_Suc_Cons Suc_length_conv length_0_conv neq_Nil_conv)

lemma strip_ws_graphic:
  assumes "\<And>w. w \<in> set ws \<Longrightarrow> w \<noteq> [] \<Longrightarrow> \<not> graphic (hd w)" "s = [] \<or> graphic (hd s)"
  shows "strip_ws ws s = s"
proof (cases s)
  case Nil
  have "ws_prefix ws [] = None" by (auto simp: ws_prefix_def find_None_iff)
  then show ?thesis using Nil by (simp add: strip_ws.simps)
next
  case (Cons c t)
  then show ?thesis using ws_prefix_graphic [of ws c t] assms by (simp add: strip_ws.simps)
qed

lemma blank_in_ws: "ascii_blank c \<Longrightarrow> [c] \<in> set ws_chars"
proof -
  assume "ascii_blank c"
  then have "char_code c \<in> {9, 10, 11, 12, 13, 32}" by (auto simp: ascii_blank_def)
  then have "[char_code c] \<in> set ws_codes" by (auto simp: ws_codes_def)
  then have "map char_of [char_code c] \<in> set ws_chars" unfolding ws_chars_def by (metis image_eqI set_map)
  then show ?thesis by (simp add: char_code_def)
qed

lemma ascii_ws_single:
  assumes "w \<in> set ws_chars"
  shows "char_code (hd w) < 128 \<Longrightarrow> length w = 1" and "char_code (last w) < 128 \<Longrightarrow> length w = 1"
proof -
  obtain v where v: "v \<in> set ws_codes" "w = map char_of v" using assms by (auto simp: ws_chars_def)
  have "\<forall>v \<in> set ws_codes. v \<noteq> [] \<and> hd v < 256 \<and> last v < 256 \<and> (hd v < 128 \<longrightarrow> length v = 1) \<and> (last v < 128 \<longrightarrow> length v = 1)"
    by (simp add: ws_codes_def)
  then show "char_code (hd w) < 128 \<Longrightarrow> length w = 1" "char_code (last w) < 128 \<Longrightarrow> length w = 1"
    using v by (auto simp: hd_map last_map char_code_char_of)
qed

lemma ws_prefix_blank:
  assumes "\<And>w. w \<in> set ws \<Longrightarrow> w \<noteq> [] \<Longrightarrow> char_code (hd w) < 128 \<Longrightarrow> length w = 1" "[c] \<in> set ws" "ascii_blank c"
  shows "ws_prefix ws (c # s) = Some [c]"
proof -
  have "ws_prefix ws (c # s) \<noteq> None"
    using assms(2) by (auto simp: ws_prefix_def find_None_iff)
  then obtain w where w: "ws_prefix ws (c # s) = Some w" by blast
  then have m: "w \<in> set ws" "w \<noteq> []" "take (length w) (c # s) = w"
    by (auto simp: ws_prefix_def find_Some_iff)
  then have h: "hd w = c" by (metis hd_take length_greater_0_conv list.sel(1))
  then have "length w = 1" using assms(1) [OF m(1,2)] assms(3) by (auto simp: ascii_blank_def)
  with h w show ?thesis by (cases w) auto
qed

lemma strip_blank:
  assumes "\<And>w. w \<in> set ws \<Longrightarrow> w \<noteq> [] \<Longrightarrow> char_code (hd w) < 128 \<Longrightarrow> length w = 1" "[c] \<in> set ws" "ascii_blank c"
  shows "strip_ws ws (c # s) = strip_ws ws s"
  using ws_prefix_blank [OF assms] by (simp add: strip_ws.simps [of ws "c # s"])

lemma strip_blanks:
  assumes "\<And>w. w \<in> set ws \<Longrightarrow> w \<noteq> [] \<Longrightarrow> char_code (hd w) < 128 \<Longrightarrow> length w = 1"
    and "\<And>c. ascii_blank c \<Longrightarrow> [c] \<in> set ws"
  shows "list_all ascii_blank bs \<Longrightarrow> strip_ws ws (bs @ s) = strip_ws ws s"
  by (induction bs) (use strip_blank [OF assms(1)] assms(2) in auto)

lemma trim_padded:
  assumes "list_all ascii_blank a" "list_all ascii_blank b" "t \<noteq> []" "graphic (hd t)" "graphic (last t)"
  shows "trim (a @ t @ b) = t"
proof -
  have "strip_ws ws_chars (a @ t @ b) = strip_ws ws_chars (t @ b)"
    using assms(1) ascii_ws_single(1) blank_in_ws by (intro strip_blanks) auto
  also have "\<dots> = t @ b"
    using assms(3-5) ws_chars_not_graphic by (intro strip_ws_graphic) auto
  finally have 1: "strip_ws ws_chars (a @ t @ b) = t @ b" .
  have sing: "length w = 1" if "w \<in> set (map rev ws_chars)" "w \<noteq> []" "char_code (hd w) < 128" for w
    using that ascii_ws_single(2) by (auto simp: hd_rev)
  have "strip_ws (map rev ws_chars) (rev b @ rev t) = strip_ws (map rev ws_chars) (rev t)"
    using assms(2) sing by (intro strip_blanks) (auto dest!: blank_in_ws intro: rev_image_eqI)
  also have "\<dots> = rev t"
    using assms(3-5) ws_chars_not_graphic by (intro strip_ws_graphic) (auto simp: hd_rev)
  finally show ?thesis using 1 by (simp add: trim_def)
qed

lemma trim_graphic: "t \<noteq> [] \<Longrightarrow> graphic (hd t) \<Longrightarrow> graphic (last t) \<Longrightarrow> trim t = t"
  using trim_padded [of "[]" "[]" t] by simp

lemma trim_all_graphic: "t \<noteq> [] \<Longrightarrow> list_all graphic t \<Longrightarrow> trim t = t"
  by (rule trim_graphic) (auto simp: list_all_iff)

lemma digit_graphic: "digit_val r c \<noteq> None \<Longrightarrow> graphic c"
  by (auto simp: digit_val_def graphic_def Let_def split: if_splits)

lemma graphic_radix_digits: "2 \<le> r \<Longrightarrow> r \<le> 16 \<Longrightarrow> list_all graphic (radix_digits r n)"
  using radix_digits_are_digits digit_graphic unfolding list_all_iff by blast

end
