(* ===== verification/DaemonKey.thy ===== *)
theory DaemonKey
  imports ProxySrc RustStr
begin

text \<open>
  The daemon's key handling (\<open>daemon/src/main.rs\<close>): parsing the 64 hexadecimal digits of
  \<open>PROXY_ADDR_KEY_HEX\<close> and the fingerprint it logs. A panic is an error value of its own.
\<close>

section \<open>Parsing\<close>

datatype key_error = BadLength nat | BadHex nat | AllZeros | SlicePanic nat

text \<open>The loop over the byte positions.\<close>

fun hex_bytes :: "string \<Rightarrow> nat list \<Rightarrow> key_error + bytes" where
  "hex_bytes hex [] = Inr []"
| "hex_bytes hex (i # js) =
     (case str_slice (i * 2) (i * 2 + 2) hex of
        None \<Rightarrow> Inl (SlicePanic (i * 2))
      | Some s \<Rightarrow>
          (case parse_uint 16 255 s of
             None \<Rightarrow> Inl (BadHex (i * 2))
           | Some v \<Rightarrow>
               (case hex_bytes hex js of Inl e \<Rightarrow> Inl e | Inr bs \<Rightarrow> Inr (word_of_nat v # bs))))"

definition parse_proxy_key_hex :: "string \<Rightarrow> key_error + ProxySrcKey" where
  "parse_proxy_key_hex s =
     (let hex = trim s
      in if length hex \<noteq> 64 then Inl (BadLength (length hex))
         else
           (case hex_bytes hex [0..<32] of
              Inl e \<Rightarrow> Inl e
            | Inr bs \<Rightarrow>
                let key = \<lparr> prince_key = take 16 bs, siphash_key = take 16 (drop 16 bs) \<rparr>
                in if is_zero key then Inl AllZeros else Inr key))"

section \<open>Fingerprint\<close>

definition key_fingerprint :: "ProxySrcKey \<Rightarrow> string" where
  "key_fingerprint key =
     (let fp = fold (\<lambda>i fp. let fp = fp[i mod 4 := fp ! (i mod 4) XOR prince_key key ! i]
                           in fp[i mod 4 := fp ! (i mod 4) XOR siphash_key key ! i])
                [0..<16] [0, 0, 0, 0]
      in concat (map fmt_02x fp))"

section \<open>Lemmas\<close>

text \<open>The fingerprint has 8 digits, whatever the key.\<close>

lemma length_key_fingerprint: "length (key_fingerprint key) = 8"
proof -
  have "length (fold (\<lambda>i fp. let fp = fp[i mod 4 := fp ! (i mod 4) XOR prince_key key ! i]
      in fp[i mod 4 := fp ! (i mod 4) XOR siphash_key key ! i]) js fp) = length fp" for js and fp :: bytes
    by (induction js arbitrary: fp) (simp_all add: Let_def)
  moreover have "length (concat (map fmt_02x bs)) = 2 * length bs" for bs
    by (induction bs) (simp_all add: fmt_02x_def)
  ultimately show ?thesis by (simp add: key_fingerprint_def Let_def)
qed

lemma hex_bytes_length: "hex_bytes hex js = Inr bs \<Longrightarrow> length bs = length js"
  by (induction js arbitrary: bs) (auto split: option.splits sum.splits)

text \<open>The textual form of a key: its 32 bytes as pairs of digits.\<close>

definition key_hex :: "bytes \<Rightarrow> string" where
  "key_hex bs = concat (map fmt_02x bs)"

lemma length_key_hex [simp]: "length (key_hex bs) = 2 * length bs"
  by (induction bs) (auto simp: key_hex_def fmt_02x_def)

lemma take_drop_key_hex: "i < length bs \<Longrightarrow> take 2 (drop (2 * i) (key_hex bs)) = fmt_02x (bs ! i)"
proof (induction bs arbitrary: i)
  case (Cons b bs)
  then show ?case by (cases i) (auto simp: key_hex_def fmt_02x_def)
qed simp

lemma graphic_digit: "d < 16 \<Longrightarrow> graphic (digit_char d)"
  by (simp add: graphic_def char_code_digit)

lemma graphic_key_hex: "list_all graphic (key_hex bs)"
proof -
  have "unat b div 16 < 16" for b :: u8 using unat_less_256 [of b] by simp
  then show ?thesis by (induction bs) (auto simp: key_hex_def fmt_02x_def graphic_digit)
qed

lemma graphic_boundary: "list_all graphic s \<Longrightarrow> i \<le> length s \<Longrightarrow> is_char_boundary s i"
  unfolding is_char_boundary_def graphic_def list_all_length by (metis le_neq_implies_less not_less)

lemma parse_fmt_02x: "parse_uint 16 255 (fmt_02x b) = Some (unat b)"
proof -
  have lt: "unat b div 16 < 16" "unat b \<le> 255" using unat_less_256 [of b] by simp_all
  have "digit_char (unat b div 16) \<noteq> CHR ''+''"
    using lt(1) digit_val_digit [of "unat b div 16" 16] sign_not_digit(1) [of 16] by auto
  then show ?thesis
    using fmt_02x_val [of b] lt(2) unfolding parse_uint_def fmt_02x_def by simp
qed

lemma hex_bytes_key_hex:
  assumes "\<And>i. i \<in> set js \<Longrightarrow> i < length bs"
  shows "hex_bytes (key_hex bs) js = Inr (map (\<lambda>i. bs ! i) js)"
  using assms
proof (induction js)
  case (Cons i js)
  then have "i < length bs" by simp
  then have "str_slice (i * 2) (i * 2 + 2) (key_hex bs) = Some (fmt_02x (bs ! i))"
    using graphic_boundary [OF graphic_key_hex [of bs]] take_drop_key_hex [of i bs]
    by (simp add: str_slice_def mult.commute)
  then show ?case using Cons by (simp add: parse_fmt_02x)
qed simp

lemma key_hex_bytes:
  assumes "length bs = 32" "list_all ascii_blank before" "list_all ascii_blank after"
  shows "trim (before @ key_hex bs @ after) = key_hex bs" "hex_bytes (key_hex bs) [0..<32] = Inr bs"
proof -
  have ne: "key_hex bs \<noteq> []" using assms(1) length_key_hex [of bs] by (metis list.size(3) mult_eq_0_iff zero_neq_numeral)
  then have "graphic (hd (key_hex bs))" "graphic (last (key_hex bs))"
    using graphic_key_hex [of bs] by (auto simp: list_all_iff)
  then show "trim (before @ key_hex bs @ after) = key_hex bs"
    using assms(2,3) ne by (intro trim_padded)
  have "hex_bytes (key_hex bs) [0..<32] = Inr (map (\<lambda>i. bs ! i) [0..<32])"
    using assms(1) by (intro hex_bytes_key_hex) simp
  then show "hex_bytes (key_hex bs) [0..<32] = Inr bs" using assms(1) map_nth [of bs] by simp
qed

lemma parsed_key_nonzero: "parse_proxy_key_hex s = Inr key \<Longrightarrow> \<not> is_zero key"
  by (auto simp: parse_proxy_key_hex_def Let_def split: if_splits sum.splits)

text \<open>Two inputs outside of the documented format.\<close>

definition ones_key :: ProxySrcKey where
  "ones_key = \<lparr> prince_key = replicate 16 1, siphash_key = replicate 16 1 \<rparr>"

lemma pair_slice:
  assumes "list_all graphic p" "length p = 2" "i < n"
  shows "str_slice (i * 2) (i * 2 + 2) (concat (replicate n p)) = Some p"
proof -
  have len: "length (concat (replicate n p)) = 2 * n" using assms(2) by (induction n) auto
  have g: "list_all graphic (concat (replicate n p))" using assms(1) by (induction n) auto
  have "take 2 (drop (i * 2) (concat (replicate n p))) = p"
    using assms(2,3)
  proof (induction n arbitrary: i)
    case (Suc n)
    then show ?case by (cases i) auto
  qed simp
  then show ?thesis
    using graphic_boundary [OF g] len assms(3) by (simp add: str_slice_def)
qed

lemma hex_bytes_pairs:
  assumes "list_all graphic p" "length p = 2" "parse_uint 16 255 p = Some v" "\<And>i. i \<in> set js \<Longrightarrow> i < n"
  shows "hex_bytes (concat (replicate n p)) js = Inr (replicate (length js) (word_of_nat v))"
  using assms(4)
  using pair_slice [OF assms(1,2), of _ n] assms(3) by (induction js) simp_all

lemma plus_key: "parse_proxy_key_hex (concat (replicate 32 ''+1'')) = Inr ones_key"
proof -
  have g: "list_all graphic ''+1''" by (simp add: graphic_def char_code_def)
  have p: "parse_uint 16 255 ''+1'' = Some 1"
    by (simp add: parse_uint_def digit_val_def char_code_def)
  have e: "concat (replicate 32 ''+1'') = ''+1'' @ concat (replicate 30 ''+1'') @ ''+1''"
    by (simp add: numeral_eq_Suc)
  have "trim (concat (replicate 32 ''+1'')) = concat (replicate 32 ''+1'')"
    using g unfolding e by (intro trim_graphic) simp_all
  moreover have "length (concat (replicate 32 ''+1'')) = 64" by (simp add: length_concat sum_list_replicate)
  moreover have "hex_bytes (concat (replicate 32 ''+1'')) [0..<32] = Inr (replicate 32 1)"
    using hex_bytes_pairs [OF g _ p, of "[0..<32]" 32] by simp
  ultimately show ?thesis
    by (auto simp: parse_proxy_key_hex_def Let_def ones_key_def is_zero_iff list_all_iff intro: exI [of _ 0])
qed

lemma accent_panics:
  "parse_proxy_key_hex (''0'' @ [char_of (0xC3 :: nat), char_of (0xA9 :: nat)] @ replicate 61 (CHR ''0'')) =
     Inl (SlicePanic 0)" (is "parse_proxy_key_hex ?s = _")
proof -
  have "trim ?s = ?s" by (rule trim_graphic) (simp_all add: graphic_def char_code_def)
  moreover have "str_slice 0 2 ?s = None"
    by (simp add: str_slice_def is_char_boundary_def char_code_def)
  moreover have "[0..<32] = 0 # [1..<32]" by (simp add: upt_rec)
  ultimately show ?thesis by (simp add: parse_proxy_key_hex_def Let_def numeral_2_eq_2 del: upt_Suc)
qed

section \<open>Properties\<close>

text \<open>
  The daemon reads back every key: the 64 digits of 32 bytes that are
  not all zero, with blanks around them, parse to the key made of their first and last 16 bytes.
\<close>

theorem key_hex_roundtrip:
  assumes "length bs = 32" and "\<not> is_zero \<lparr> prince_key = take 16 bs, siphash_key = drop 16 bs \<rparr>"
    and "list_all ascii_blank before" and "list_all ascii_blank after"
  shows "parse_proxy_key_hex (before @ key_hex bs @ after) =
    Inr \<lparr> prince_key = take 16 bs, siphash_key = drop 16 bs \<rparr>"
  unfolding parse_proxy_key_hex_def using key_hex_bytes [OF assms(1,3,4)] assms(1,2) by simp

theorem key_hex_roundtrip_witness:
  "parse_proxy_key_hex ('' '' @ key_hex (prince_key TEST_KEY @ siphash_key TEST_KEY) @ ''
'') = Inr TEST_KEY"
proof -
  have "length (prince_key TEST_KEY @ siphash_key TEST_KEY) = 32" by (simp add: TEST_KEY_def)
  moreover have k: "\<lparr> prince_key = take 16 (prince_key TEST_KEY @ siphash_key TEST_KEY),
      siphash_key = drop 16 (prince_key TEST_KEY @ siphash_key TEST_KEY) \<rparr> = TEST_KEY"
    by (simp add: TEST_KEY_def)
  moreover have "\<not> is_zero TEST_KEY" by (simp add: is_zero_def TEST_KEY_def upt_16)
  moreover have "list_all ascii_blank '' ''" "list_all ascii_blank ''
''" by (simp_all add: ascii_blank_def char_code_def)
  ultimately show ?thesis
    using key_hex_roundtrip [of "prince_key TEST_KEY @ siphash_key TEST_KEY" "'' ''" "''
''"] by simp
qed

text \<open>
  C26. Every key that the daemon accepts consists of two 16-byte halves and is
  not all zero, so that it is an active key for the eBPF programs.
\<close>

theorem parsed_key_ok:
  assumes "parse_proxy_key_hex s = Inr key"
  shows "length (prince_key key) = 16 \<and> length (siphash_key key) = 16 \<and> \<not> is_zero key"
  using assms hex_bytes_length [of "trim s" "[0..<32]"]
  by (auto simp: parse_proxy_key_hex_def Let_def split: if_splits sum.splits)

theorem parsed_key_ok_witness:
  "length (prince_key ones_key) = 16 \<and> length (siphash_key ones_key) = 16 \<and> \<not> is_zero ones_key"
  using parsed_key_ok [OF plus_key] .

text \<open>
  The documented format is 64 hexadecimal characters. A plus sign also
  counts as the first digit of a pair, and a 64-byte string with a multi-byte character across
  a pair makes the parser panic instead of returning an error.
\<close>

theorem key_hex_lenient:
  "parse_proxy_key_hex (concat (replicate 32 ''+1'')) = Inr ones_key \<and>
   parse_proxy_key_hex (''0'' @ [char_of (0xC3 :: nat), char_of (0xA9 :: nat)] @ replicate 61 (CHR ''0'')) =
     Inl (SlicePanic 0)"
  using plus_key accent_panics by simp

end
