(* ===== verification/Ipv6Text.thy ===== *)
theory Ipv6Text
  imports RustStr
begin

text \<open>
  The textual form of an \<open>Ipv6Addr\<close> in the Rust standard library: \<open>Display\<close>
  (RFC 5952: the longest run of zero groups is compressed, IPv4-mapped addresses end in
  dotted decimals) and \<open>FromStr\<close>. The DNS server and the daemon exchange addresses with
  the database in this form. An address is the list of its 16 octets.
\<close>

section \<open>Segments\<close>

fun segments :: "bytes \<Rightarrow> nat list" where
  "segments (a # b # r) = (unat a * 256 + unat b) # segments r"
| "segments _ = []"

definition octets :: "nat list \<Rightarrow> bytes" where
  "octets gs = concat (map (\<lambda>g. [word_of_nat (g div 256), word_of_nat (g mod 256)]) gs)"

section \<open>Formatting\<close>

text \<open>The loop that finds the longest run of zero segments: spans are pairs of start and length.\<close>

fun zero_span :: "nat \<Rightarrow> nat \<times> nat \<Rightarrow> nat \<times> nat \<Rightarrow> nat list \<Rightarrow> nat \<times> nat" where
  "zero_span i longest current [] = longest"
| "zero_span i longest current (g # gs) =
     (if g = 0 then
        let current = (if snd current = 0 then i else fst current, snd current + 1)
        in zero_span (i + 1) (if snd current > snd longest then current else longest) current gs
      else zero_span (i + 1) longest (0, 0) gs)"

fun fmt_subslice :: "nat list \<Rightarrow> string" where
  "fmt_subslice [] = []"
| "fmt_subslice (g # gs) = radix_digits 16 g @ concat (map (\<lambda>h. CHR '':'' # radix_digits 16 h) gs)"

definition ipv4_to_string :: "bytes \<Rightarrow> string" where
  "ipv4_to_string v =
     radix_digits 10 (unat (v ! 0)) @ ''.'' @ radix_digits 10 (unat (v ! 1)) @ ''.'' @
     radix_digits 10 (unat (v ! 2)) @ ''.'' @ radix_digits 10 (unat (v ! 3))"

definition ipv6_to_string :: "bytes \<Rightarrow> string" where
  "ipv6_to_string a =
     (if take 12 a = replicate 10 0 @ [255, 255] then ''::ffff:'' @ ipv4_to_string (drop 12 a)
      else
        let gs = segments a;
            (start, len) = zero_span 0 (0, 0) (0, 0) gs
        in if len > 1 then fmt_subslice (take start gs) @ ''::'' @ fmt_subslice (drop (start + len) gs)
           else fmt_subslice gs)"

section \<open>Parsing\<close>

text \<open>
  A parser returns its result and the rest of the input; on \<open>None\<close> its caller goes on from
  where the parser began (\<open>read_atomically\<close>).
\<close>

definition read_given_char :: "char \<Rightarrow> string \<Rightarrow> string option" where
  "read_given_char c s = (case s of [] \<Rightarrow> None | d # r \<Rightarrow> if d = c then Some r else None)"

definition read_separator :: "char \<Rightarrow> nat \<Rightarrow> (string \<Rightarrow> ('a \<times> string) option) \<Rightarrow> string \<Rightarrow> ('a \<times> string) option" where
  "read_separator sep index inner s =
     (if index > 0 then (case read_given_char sep s of None \<Rightarrow> None | Some r \<Rightarrow> inner r) else inner s)"

fun read_digits :: "nat \<Rightarrow> nat \<Rightarrow> nat \<Rightarrow> nat \<Rightarrow> string \<Rightarrow> (nat \<times> nat \<times> string) option" where
  "read_digits radix max_digits cnt acc [] = Some (cnt, acc, [])"
| "read_digits radix max_digits cnt acc (c # cs) =
     (case digit_val radix c of
        None \<Rightarrow> Some (cnt, acc, c # cs)
      | Some d \<Rightarrow>
          if cnt + 1 > max_digits then None
          else read_digits radix max_digits (cnt + 1) (acc * radix + d) cs)"

definition read_number :: "nat \<Rightarrow> nat \<Rightarrow> bool \<Rightarrow> nat \<Rightarrow> string \<Rightarrow> (nat \<times> string) option" where
  "read_number radix max_digits allow_zero_prefix mx s =
     (case read_digits radix max_digits 0 0 s of
        None \<Rightarrow> None
      | Some (cnt, v, r) \<Rightarrow>
          if cnt = 0 then None
          else if \<not> allow_zero_prefix \<and> hd s = CHR ''0'' \<and> cnt > 1 then None
          else if v \<le> mx then Some (v, r) else None)"

fun read_ipv4_groups :: "nat \<Rightarrow> nat \<Rightarrow> string \<Rightarrow> (nat list \<times> string) option" where
  "read_ipv4_groups i 0 s = Some ([], s)"
| "read_ipv4_groups i (Suc k) s =
     (case read_separator (CHR ''.'') i (read_number 10 3 False 255) s of
        None \<Rightarrow> None
      | Some (v, r) \<Rightarrow>
          (case read_ipv4_groups (i + 1) k r of None \<Rightarrow> None | Some (vs, r) \<Rightarrow> Some (v # vs, r)))"

definition read_ipv4_addr :: "string \<Rightarrow> (nat list \<times> string) option" where
  "read_ipv4_addr s = read_ipv4_groups 0 4 s"

text \<open>The groups from position \<open>i\<close> on, \<open>k\<close> of them at most; the flag tells that an IPv4 address ended them.\<close>

fun read_groups :: "nat \<Rightarrow> nat \<Rightarrow> string \<Rightarrow> nat list \<times> bool \<times> string" where
  "read_groups i 0 s = ([], False, s)"
| "read_groups i (Suc k) s =
     (case (if k > 0 then read_separator (CHR '':'') i read_ipv4_addr s else None) of
        Some (v, r) \<Rightarrow> ([v ! 0 * 256 + v ! 1, v ! 2 * 256 + v ! 3], True, r)
      | None \<Rightarrow>
          (case read_separator (CHR '':'') i (read_number 16 4 True 65535) s of
             None \<Rightarrow> ([], False, s)
           | Some (g, r) \<Rightarrow>
               let (gs, v4, r) = read_groups (i + 1) k r in (g # gs, v4, r)))"

definition read_ipv6_addr :: "string \<Rightarrow> (bytes \<times> string) option" where
  "read_ipv6_addr s =
     (let (head, head_ipv4, r) = read_groups 0 8 s
      in if length head = 8 then Some (octets head, r)
         else if head_ipv4 then None
         else
           (case read_given_char (CHR '':'') r of
              None \<Rightarrow> None
            | Some r \<Rightarrow>
                (case read_given_char (CHR '':'') r of
                   None \<Rightarrow> None
                 | Some r \<Rightarrow>
                     let (tail, _, r) = read_groups 0 (8 - (length head + 1)) r
                     in Some (octets (head @ replicate (8 - length head - length tail) 0 @ tail), r))))"

definition ipv6_from_str :: "string \<Rightarrow> bytes option" where
  "ipv6_from_str s = (case read_ipv6_addr s of Some (a, []) \<Rightarrow> Some a | _ \<Rightarrow> None)"

section \<open>Lemmas on segments\<close>

lemma octets_segments: "even (length a) \<Longrightarrow> octets (segments a) = a"
proof (induction a rule: segments.induct)
  case (1 x y r)
  have "unat y < 256" by (rule unat_less_256)
  then show ?case using 1 by (simp add: octets_def)
qed (simp_all add: octets_def)

lemma length_segments: "length (segments a) = length a div 2"
  by (induction a rule: segments.induct) auto

lemma segments_bound: "g \<in> set (segments a) \<Longrightarrow> g < 65536"
proof (induction a rule: segments.induct)
  case (1 x y r)
  have "unat x < 256" "unat y < 256" by (rule unat_less_256)+
  then show ?case using 1 by auto
qed simp_all

text \<open>A span of zeros inside of a list.\<close>

definition zeros_at :: "nat list \<Rightarrow> nat \<times> nat \<Rightarrow> bool" where
  "zeros_at xs sp \<longleftrightarrow> fst sp + snd sp \<le> length xs \<and> take (snd sp) (drop (fst sp) xs) = replicate (snd sp) 0"

lemma zeros_at_extend:
  "zeros_at (xs @ 0 # ys) (st, len) \<Longrightarrow> st + len = length xs \<Longrightarrow> zeros_at (xs @ 0 # ys) (st, Suc len)"
  by (auto simp: zeros_at_def take_Suc_conv_app_nth nth_append replicate_append_same)

lemma zero_span_ok:
  assumes "zeros_at (pre @ gs) longest" "zeros_at (pre @ gs) current"
    and "snd current > 0 \<longrightarrow> fst current + snd current = length pre"
  shows "zeros_at (pre @ gs) (zero_span (length pre) longest current gs)"
  using assms
proof (induction gs arbitrary: pre longest current)
  case (Cons g gs)
  show ?case
  proof (cases "g = 0")
    case True
    define cur where "cur = (if snd current = 0 then length pre else fst current, Suc (snd current))"
    have "zeros_at (pre @ g # gs) cur"
    proof (cases "snd current = 0")
      case True
      then show ?thesis using \<open>g = 0\<close> by (simp add: cur_def zeros_at_def)
    next
      case False
      then show ?thesis
        using Cons.prems(2,3) zeros_at_extend [of pre gs "fst current" "snd current"] True by (simp add: cur_def)
    qed
    moreover have "fst cur + snd cur = length (pre @ [g])" using Cons.prems(3) by (auto simp: cur_def)
    ultimately have "zeros_at (pre @ g # gs)
        (zero_span (Suc (length pre)) (if snd cur > snd longest then cur else longest) cur gs)"
      using Cons.IH [of "pre @ [g]" "if snd cur > snd longest then cur else longest" cur] Cons.prems(1) by simp
    moreover have "zero_span (length pre) longest current (g # gs) =
        zero_span (Suc (length pre)) (if snd cur > snd longest then cur else longest) cur gs"
      using True by (simp add: Let_def cur_def)
    ultimately show ?thesis by simp
  next
    case False
    moreover have "zeros_at (pre @ g # gs) (0, 0)" by (simp add: zeros_at_def)
    ultimately show ?thesis using Cons.IH [of "pre @ [g]" longest "(0, 0)"] Cons.prems(1) by simp
  qed
qed simp

lemma zeros_at_split:
  assumes "zeros_at xs (st, len)"
  shows "xs = take st xs @ replicate len 0 @ drop (st + len) xs"
proof -
  have "xs = take st xs @ take len (drop st xs) @ drop (st + len) xs"
    by (metis add.commute append_take_drop_id drop_drop)
  then show ?thesis using assms by (simp add: zeros_at_def)
qed

section \<open>Lemmas on the parsers\<close>

text \<open>What follows an address: nothing, or the characters after the address of a socket.\<close>

definition closes :: "string \<Rightarrow> bool" where
  "closes s \<longleftrightarrow> s = [] \<or> hd s = CHR '']'' \<or> hd s = CHR ''%''"

text \<open>What follows a group: the end of the address or a colon.\<close>

definition stops :: "string \<Rightarrow> bool" where
  "stops s \<longleftrightarrow> closes s \<or> hd s = CHR '':''"

lemma punctuation_not_digit:
  "digit_val r (CHR '':'') = None" "digit_val r (CHR ''.'') = None" "digit_val r (CHR '']'') = None"
  "digit_val r (CHR ''%'') = None"
  by (simp_all add: digit_val_def char_code_def)

lemma read_digits_append:
  assumes "r = [] \<or> digit_val radix (hd r) = None" "radix_val radix acc ds = Some v" "cnt + length ds \<le> mx"
  shows "read_digits radix mx cnt acc (ds @ r) = Some (cnt + length ds, v, r)"
  using assms(2,3)
proof (induction ds arbitrary: acc cnt)
  case Nil
  then show ?case using assms(1) by (cases r) auto
qed (auto split: option.splits)

lemma hd_radix_digits_zero: "2 \<le> r \<Longrightarrow> r \<le> 16 \<Longrightarrow> 0 < n \<Longrightarrow> hd (radix_digits r n) \<noteq> CHR ''0''"
proof (induction r n rule: radix_digits.induct)
  case (1 r n)
  show ?case
  proof (cases "n < r")
    case True
    have "digit_val r (CHR ''0'') = Some 0" using 1 by (simp add: digit_val_def char_code_def)
    then have "digit_char n \<noteq> CHR ''0''" using digit_val_digit [of n r] True 1 by auto
    then show ?thesis using True by (simp add: radix_digits.simps [of r n])
  next
    case False
    then have "0 < n div r" using 1 by (simp add: div_greater_zero_iff)
    then show ?thesis
      using False 1 radix_digits_nonempty [of r "n div r"] by (simp add: radix_digits.simps [of r n])
  qed
qed

lemma read_number_digits:
  assumes "2 \<le> radix" "radix \<le> 16" "n < radix ^ k" "0 < k" "n \<le> mx"
    and "r = [] \<or> digit_val radix (hd r) = None"
  shows "read_number radix k z mx (radix_digits radix n @ r) = Some (n, r)"
proof -
  let ?ds = "radix_digits radix n"
  have len: "length ?ds \<le> k" using length_radix_digits assms by simp
  have "read_digits radix k 0 0 (?ds @ r) = Some (length ?ds, n, r)"
    using read_digits_append [of r radix 0 ?ds n 0 k] radix_val_digits [OF assms(1,2), of n] assms(6) len by simp
  moreover have "\<not> (hd (?ds @ r) = CHR ''0'' \<and> length ?ds > 1)"
  proof (cases "n = 0")
    case True
    then show ?thesis using assms(1) by (simp add: radix_digits.simps [of radix 0])
  next
    case False
    then show ?thesis using hd_radix_digits_zero [OF assms(1,2), of n] radix_digits_nonempty [of radix n] by simp
  qed
  ultimately show ?thesis
    using assms(5) radix_digits_nonempty [of radix n] by (auto simp: read_number_def)
qed

lemma read_digits_no_dot:
  assumes "\<forall>c \<in> set ds. c \<noteq> CHR ''.''" "stops r" "read_digits 10 mx cnt acc (ds @ r) = Some (c, v, r')"
  shows "r' = [] \<or> hd r' \<noteq> CHR ''.''"
  using assms
proof (induction ds arbitrary: cnt acc)
  case Nil
  then show ?case
    by (cases r) (auto simp: stops_def closes_def punctuation_not_digit)
qed (auto split: option.splits if_splits)

lemma read_number_no_dot:
  assumes "\<forall>c \<in> set ds. c \<noteq> CHR ''.''" "stops r"
  shows "case read_number 10 3 False 255 (ds @ r) of None \<Rightarrow> True | Some (v, r') \<Rightarrow> read_given_char (CHR ''.'') r' = None"
proof (cases "read_digits 10 3 0 0 (ds @ r)")
  case (Some x)
  then show ?thesis
    using read_digits_no_dot [OF assms, of 3 0 0 "fst x" "fst (snd x)" "snd (snd x)"] by (cases x) (auto simp: read_number_def read_given_char_def split: list.splits)
qed (simp add: read_number_def)

lemma hex_no_dot: "\<forall>c \<in> set (radix_digits 16 n). c \<noteq> CHR ''.''"
  using radix_digits_are_digits [of 16 _ n] punctuation_not_digit(2) [of 16] by fastforce

lemma read_ipv4_addr_four: "read_ipv4_addr s = read_ipv4_groups 0 (Suc (Suc (Suc (Suc 0)))) s"
  by (simp add: read_ipv4_addr_def numeral_eq_Suc)

lemma read_ipv4_hex: "stops r \<Longrightarrow> read_ipv4_addr (radix_digits 16 n @ r) = None"
  using read_number_no_dot [OF hex_no_dot [of n], of r]
  by (auto simp: read_ipv4_addr_four read_separator_def split: option.splits)

lemma read_number_stops: "stops r \<Longrightarrow> read_number radix mx z b r = None"
  by (cases r) (auto simp: read_number_def stops_def closes_def punctuation_not_digit)

lemma read_ipv4_stops: "stops r \<Longrightarrow> read_ipv4_addr r = None"
  by (simp add: read_ipv4_addr_four read_separator_def read_number_stops)

text \<open>Groups from position \<open>i\<close> on, each after a colon but the first.\<close>

definition groups_text :: "nat \<Rightarrow> nat list \<Rightarrow> string" where
  "groups_text i gs = (if i = 0 then fmt_subslice gs else concat (map (\<lambda>h. CHR '':'' # radix_digits 16 h) gs))"

lemma groups_text_Nil [simp]: "groups_text i [] = []"
  by (simp add: groups_text_def)

lemma groups_text_Cons:
  "groups_text i (g # gs) = (if i = 0 then [] else '':'') @ radix_digits 16 g @ groups_text (Suc i) gs"
  by (simp add: groups_text_def)

text \<open>The end of a sequence of groups: the end of the address or the double colon.\<close>

definition ends :: "string \<Rightarrow> bool" where
  "ends s \<longleftrightarrow> closes s \<or> (\<exists>t. s = CHR '':'' # CHR '':'' # t)"

lemma ends_stops: "ends s \<Longrightarrow> stops s" "ends (CHR '':'' # s) \<Longrightarrow> stops s"
  by (auto simp: ends_def closes_def stops_def closes_def)

lemma stops_groups_text: "ends r \<Longrightarrow> stops (groups_text (Suc i) gs @ r)"
  by (cases gs) (auto simp: groups_text_Cons stops_def closes_def ends_def closes_def)

lemma read_separator_ends:
  assumes "ends r" "\<And>s. stops s \<Longrightarrow> inner s = None"
  shows "read_separator (CHR '':'') i inner r = None"
  using assms by (cases r) (auto simp: read_separator_def read_given_char_def ends_def closes_def stops_def closes_def)

lemma read_separator_group:
  "read_separator (CHR '':'') i inner (groups_text i (g # gs) @ r) = inner (radix_digits 16 g @ groups_text (Suc i) gs @ r)"
  by (simp add: read_separator_def read_given_char_def groups_text_Cons)

lemma read_groups_text:
  assumes "\<forall>g \<in> set gs. g < 65536" "length gs \<le> k" "ends r"
  shows "read_groups i k (groups_text i gs @ r) = (gs, False, r)"
  using assms
proof (induction gs arbitrary: i k)
  case Nil
  then show ?case
    by (cases k) (simp_all add: read_separator_ends read_ipv4_stops read_number_stops)
next
  case (Cons g gs)
  then obtain k' where k: "k = Suc k'" by (cases k) auto
  let ?r = "groups_text (Suc i) gs @ r"
  have st: "stops ?r" using stops_groups_text Cons.prems(3) by blast
  have "read_number 16 4 True 65535 (radix_digits 16 g @ ?r) = Some (g, ?r)"
    using Cons.prems(1) st by (intro read_number_digits) (auto simp: stops_def closes_def punctuation_not_digit)
  moreover have "(if k' > 0 then read_separator (CHR '':'') i read_ipv4_addr (groups_text i (g # gs) @ r) else None) = None"
    using read_ipv4_hex [OF st, of g] by (simp add: read_separator_group)
  moreover have "read_groups (Suc i) k' ?r = (gs, False, r)" using Cons k by simp
  ultimately show ?case unfolding k read_groups.simps by (simp add: read_separator_group del: read_groups.simps)
qed

lemma read_ipv4_addr_text:
  assumes "\<And>x. x \<in> {a, b, c, d} \<Longrightarrow> x < 256" "r = [] \<or> digit_val 10 (hd r) = None"
  shows "read_ipv4_addr (radix_digits 10 a @ ''.'' @ radix_digits 10 b @ ''.'' @ radix_digits 10 c @ ''.'' @ radix_digits 10 d @ r)
    = Some ([a, b, c, d], r)"
proof -
  have n: "read_number 10 3 False 255 (radix_digits 10 x @ r) = Some (x, r)"
    if "x \<in> {a, b, c, d}" "r = [] \<or> digit_val 10 (hd r) = None" for x r
    using assms(1) [OF that(1)] that(2) by (intro read_number_digits) auto
  show ?thesis
    using n [of d r] assms(2)
    by (simp add: read_ipv4_addr_four read_separator_def read_given_char_def n punctuation_not_digit)
qed

lemma closes_not_digit: "closes r \<Longrightarrow> r = [] \<or> digit_val radix (hd r) = None"
  by (auto simp: closes_def punctuation_not_digit)

lemma read_ipv4_to_string:
  assumes "length v = 4" "r = [] \<or> digit_val 10 (hd r) = None"
  shows "read_ipv4_addr (ipv4_to_string v @ r) = Some (map unat v, r)"
proof -
  obtain a b c d where v: "v = [a, b, c, d]" using assms(1) by (auto simp: numeral_eq_Suc length_Suc_conv)
  show ?thesis
    using read_ipv4_addr_text [of "unat a" "unat b" "unat c" "unat d", OF _ assms(2)] unat_less_256
    unfolding v ipv4_to_string_def by (auto simp: numeral_2_eq_2 numeral_3_eq_3)
qed

section \<open>Properties\<close>

lemma ffff_text: "''ffff:'' @ t = radix_digits 16 65535 @ CHR '':'' # t"
proof -
  have "digit_char 15 = CHR ''f''" by code_simp
  then show ?thesis by (simp add: radix_digits.simps)
qed

lemma parse_mapped:
  assumes "length v = 4" "closes r"
  shows "read_ipv6_addr (''::ffff:'' @ ipv4_to_string v @ r) = Some (replicate 10 0 @ [255, 255] @ v, r)"
proof -
  obtain a b c d where v: "v = [a, b, c, d]" using assms by (auto simp: numeral_eq_Suc length_Suc_conv)
  let ?t = "ipv4_to_string v @ r"
  have e: "ends (''::ffff:'' @ ?t)" by (simp add: ends_def)
  have head: "read_groups 0 8 (''::ffff:'' @ ?t) = ([], False, ''::ffff:'' @ ?t)"
    using read_groups_text [of "[]" 8, OF _ _ e, of 0] by simp
  have v4: "read_ipv4_addr ?t = Some ([unat a, unat b, unat c, unat d], r)"
    using read_ipv4_to_string [OF assms(1) closes_not_digit [OF assms(2)]] by (simp add: v)
  have st: "stops (CHR '':'' # ?t)" by (simp add: stops_def)
  have f: "read_ipv4_addr (''ffff:'' @ ?t) = None"
    "read_number 16 4 True 65535 (''ffff:'' @ ?t) = Some (65535, CHR '':'' # ?t)"
    unfolding ffff_text using read_ipv4_hex [OF st] by (simp, intro read_number_digits) (simp_all add: punctuation_not_digit)
  have "read_groups 0 (Suc (Suc 5)) (''ffff:'' @ ?t) = ([65535, unat a * 256 + unat b, unat c * 256 + unat d], True, r)"
    unfolding read_groups.simps(2)
    using f v4 by (simp add: read_separator_def read_given_char_def numeral_2_eq_2 numeral_3_eq_3)
  moreover have "concat (replicate 5 [0, 0]) = (replicate 10 0 :: bytes)" by (simp add: numeral_eq_Suc)
  ultimately show ?thesis
    using head v unat_less_256 [of b] unat_less_256 [of d]
    by (simp add: read_ipv6_addr_def read_given_char_def octets_def)
qed

lemma read_ipv6_compressed:
  assumes "\<forall>g \<in> set h. g < 65536" "\<forall>g \<in> set t. g < 65536" "length h + length t < 8" "closes r"
  shows "read_ipv6_addr (fmt_subslice h @ ''::'' @ fmt_subslice t @ r) =
    Some (octets (h @ replicate (8 - length h - length t) 0 @ t), r)"
proof -
  have "read_groups 0 8 (fmt_subslice h @ ''::'' @ fmt_subslice t @ r) = (h, False, ''::'' @ fmt_subslice t @ r)"
    using read_groups_text [OF assms(1), of 8 "''::'' @ fmt_subslice t @ r" 0] assms(3)
    by (simp add: ends_def groups_text_def)
  moreover have "read_groups 0 (8 - (length h + 1)) (fmt_subslice t @ r) = (t, False, r)"
    using read_groups_text [OF assms(2), of "8 - (length h + 1)" r 0] assms(3,4)
    by (simp add: ends_def groups_text_def)
  ultimately show ?thesis
    using assms(3) by (simp add: read_ipv6_addr_def read_given_char_def)
qed

lemma read_ipv6_full:
  assumes "\<forall>g \<in> set gs. g < 65536" "length gs = 8" "closes r"
  shows "read_ipv6_addr (fmt_subslice gs @ r) = Some (octets gs, r)"
proof -
  have "read_groups 0 8 (fmt_subslice gs @ r) = (gs, False, r)"
    using read_groups_text [OF assms(1), of 8 r 0] assms(2,3) by (simp add: ends_def groups_text_def)
  then show ?thesis using assms(2) by (simp add: read_ipv6_addr_def)
qed

lemma read_ipv6_to_string:
  assumes "length a = 16" "closes r"
  shows "read_ipv6_addr (ipv6_to_string a @ r) = Some (a, r)"
proof (cases "take 12 a = replicate 10 0 @ [255, 255]")
  case True
  have "a = take 12 a @ drop 12 a" by simp
  then show ?thesis using True assms parse_mapped [of "drop 12 a" r] by (simp add: ipv6_to_string_def)
next
  case False
  let ?gs = "segments a"
  obtain st len where sp: "zero_span 0 (0, 0) (0, 0) ?gs = (st, len)" by fastforce
  have "zeros_at ?gs (st, len)"
    using zero_span_ok [of "[]" ?gs "(0, 0)" "(0, 0)"] sp by (simp add: zeros_at_def)
  then have split: "?gs = take st ?gs @ replicate len 0 @ drop (st + len) ?gs" and le: "st + len \<le> 8"
    using zeros_at_split assms by (auto simp: zeros_at_def length_segments)
  have b: "\<forall>g \<in> set ?gs. g < 65536" using segments_bound by blast
  then have bt: "\<forall>g \<in> set (take st ?gs). g < 65536" "\<forall>g \<in> set (drop (st + len) ?gs). g < 65536"
    by (auto dest: in_set_takeD in_set_dropD)
  have oct: "octets ?gs = a" using octets_segments assms by simp
  show ?thesis
  proof (cases "len > 1")
    case True
    have "length (take st ?gs) = st" "length (drop (st + len) ?gs) = 8 - (st + len)"
      using le assms by (simp_all add: length_segments)
    then have "read_ipv6_addr (fmt_subslice (take st ?gs) @ ''::'' @ fmt_subslice (drop (st + len) ?gs) @ r) = Some (octets ?gs, r)"
      using read_ipv6_compressed [OF bt _ assms(2)] split le True by simp
    then show ?thesis using \<open>take 12 a \<noteq> _\<close> True sp oct by (simp add: ipv6_to_string_def Let_def)
  next
    case F: False
    then show ?thesis
      using False sp oct read_ipv6_full [OF b _ assms(2)] assms by (simp add: ipv6_to_string_def length_segments)
  qed
qed

lemma ipv6_from_to_string:
  assumes "length a = 16"
  shows "ipv6_from_str (ipv6_to_string a) = Some a"
  using read_ipv6_to_string [OF assms, of "[]"] by (simp add: ipv6_from_str_def closes_def)

text \<open>Every parsed address has 16 octets.\<close>

lemma length_octets [simp]: "length (octets gs) = 2 * length gs"
  by (induction gs) (simp_all add: octets_def)

lemma length_read_groups: "length (fst (read_groups i k s)) \<le> k"
proof (induction i k s rule: read_groups.induct)
  case (2 i k s)
  show ?case
  proof (cases "if k > 0 then read_separator (CHR '':'') i read_ipv4_addr s else None")
    case None
    then show ?thesis
      using "2.IH" [OF None]
      by (fastforce simp del: read_groups.simps(1) split: option.splits prod.splits)
  next
    case (Some x)
    then have "k > 0" by (auto split: if_splits)
    with Some show ?thesis by (cases x) auto
  qed
qed simp

lemma ipv6_from_str_length: "ipv6_from_str s = Some a \<Longrightarrow> length a = 16"
proof -
  assume a: "ipv6_from_str s = Some a"
  obtain h f r where h: "read_groups 0 8 s = (h, f, r)" by (metis prod_cases3)
  have hl: "length h \<le> 8" using length_read_groups [of 0 8 s] h by simp
  show ?thesis
  proof (cases "length h = 8")
    case True
    then show ?thesis using a h by (auto simp: ipv6_from_str_def read_ipv6_addr_def split: list.splits)
  next
    case False
    then obtain r' t f' r'' where t: "read_groups 0 (8 - (length h + 1)) r' = (t, f', r'')"
      "a = octets (h @ replicate (8 - length h - length t) 0 @ t)"
      using a h
      by (auto simp: ipv6_from_str_def read_ipv6_addr_def split: option.splits list.splits if_splits prod.splits)
    have "length t \<le> 8 - (length h + 1)" using length_read_groups [of 0 "8 - (length h + 1)" r'] t(1) by simp
    then show ?thesis using False hl t(2) by simp
  qed
qed

text \<open>The text of an address has no blanks.\<close>

lemma graphic_fmt_subslice: "list_all graphic (fmt_subslice gs)"
proof -
  have "graphic (CHR '':'')" by (simp add: graphic_def char_code_def)
  then have "list_all graphic (concat (map (\<lambda>h. CHR '':'' # radix_digits 16 h) hs))" for hs
    by (induction hs) (simp_all add: graphic_radix_digits)
  then show ?thesis by (cases gs) (simp_all add: graphic_radix_digits)
qed

lemma graphic_ipv6: "list_all graphic (ipv6_to_string a)"
proof -
  have "list_all graphic ''::ffff:''" "list_all graphic ''::''" "list_all graphic ''.''"
    by (simp_all add: graphic_def char_code_def)
  then show ?thesis
    by (simp add: ipv6_to_string_def ipv4_to_string_def graphic_fmt_subslice graphic_radix_digits Let_def split: prod.split)
qed

lemma ipv6_to_string_nonempty: "length a = 16 \<Longrightarrow> ipv6_to_string a \<noteq> []"
proof -
  have "read_groups 0 8 [] = ([], False, [])" using read_groups_text [of "[]" 8 "[]" 0] by (simp add: ends_def closes_def)
  then have "ipv6_from_str [] = None" by (simp add: ipv6_from_str_def read_ipv6_addr_def read_given_char_def)
  then show "length a = 16 \<Longrightarrow> ipv6_to_string a \<noteq> []" using ipv6_from_to_string [of a] by force
qed

section \<open>Socket addresses\<close>

text \<open>
  \<open>SocketAddr\<close>: the octets and the port, and for IPv6 the scope id. A port or scope id may have any
  number of digits, as long as its value fits.
\<close>

datatype socket_addr = SocketV4 bytes nat | SocketV6 bytes nat nat

definition read_suffix :: "char \<Rightarrow> nat \<Rightarrow> string \<Rightarrow> (nat \<times> string) option" where
  "read_suffix c mx s =
     (case read_given_char c s of None \<Rightarrow> None | Some r \<Rightarrow> read_number 10 (length r) True mx r)"

definition read_port :: "string \<Rightarrow> (nat \<times> string) option" where
  "read_port s = read_suffix (CHR '':'') 65535 s"

definition read_scope_id :: "string \<Rightarrow> (nat \<times> string) option" where
  "read_scope_id s = read_suffix (CHR ''%'') (2 ^ 32 - 1) s"

definition read_socket_addr_v4 :: "string \<Rightarrow> (socket_addr \<times> string) option" where
  "read_socket_addr_v4 s =
     (case read_ipv4_addr s of
        None \<Rightarrow> None
      | Some (ip, r) \<Rightarrow>
          (case read_port r of None \<Rightarrow> None | Some (port, r) \<Rightarrow> Some (SocketV4 (map word_of_nat ip) port, r)))"

definition read_socket_addr_v6 :: "string \<Rightarrow> (socket_addr \<times> string) option" where
  "read_socket_addr_v6 s =
     (case read_given_char (CHR ''['') s of
        None \<Rightarrow> None
      | Some r \<Rightarrow>
     case read_ipv6_addr r of
        None \<Rightarrow> None
      | Some (ip, r) \<Rightarrow>
     let (scope_id, r) = (case read_scope_id r of None \<Rightarrow> (0, r) | Some (v, r) \<Rightarrow> (v, r))
     in case read_given_char (CHR '']'') r of
        None \<Rightarrow> None
      | Some r \<Rightarrow>
     case read_port r of
        None \<Rightarrow> None
      | Some (port, r) \<Rightarrow> Some (SocketV6 ip scope_id port, r))"

definition socket_from_str :: "string \<Rightarrow> socket_addr option" where
  "socket_from_str s =
     (case (case read_socket_addr_v4 s of None \<Rightarrow> read_socket_addr_v6 s | Some x \<Rightarrow> Some x) of
        Some (a, []) \<Rightarrow> Some a
      | _ \<Rightarrow> None)"

fun socket_to_string :: "socket_addr \<Rightarrow> string" where
  "socket_to_string (SocketV4 ip port) = ipv4_to_string ip @ '':'' @ radix_digits 10 port"
| "socket_to_string (SocketV6 ip scope_id port) =
     ''['' @ ipv6_to_string ip @ (if scope_id = 0 then [] else ''%'' @ radix_digits 10 scope_id) @ '']:'' @ radix_digits 10 port"

fun socket_ok :: "socket_addr \<Rightarrow> bool" where
  "socket_ok (SocketV4 ip port) \<longleftrightarrow> length ip = 4 \<and> port < 2 ^ 16"
| "socket_ok (SocketV6 ip scope_id port) \<longleftrightarrow> length ip = 16 \<and> scope_id < 2 ^ 32 \<and> port < 2 ^ 16"

lemma read_suffix_digits:
  assumes "n \<le> mx" "r = [] \<or> digit_val 10 (hd r) = None"
  shows "read_suffix c mx (c # radix_digits 10 n @ r) = Some (n, r)"
proof -
  let ?k = "length (radix_digits 10 n @ r)"
  have "read_digits 10 ?k 0 0 (radix_digits 10 n @ r) = Some (length (radix_digits 10 n), n, r)"
    using read_digits_append [of r 10 0 "radix_digits 10 n" n 0 ?k] radix_val_digits [of 10 n] assms(2) by simp
  then show ?thesis
    using assms(1) radix_digits_nonempty [of 10 n] by (simp add: read_suffix_def read_given_char_def read_number_def)
qed

lemma read_suffix_other: "s = [] \<or> hd s \<noteq> c \<Longrightarrow> read_suffix c mx s = None"
  by (cases s) (auto simp: read_suffix_def read_given_char_def)

lemma socket_roundtrip: "socket_ok a \<Longrightarrow> socket_from_str (socket_to_string a) = Some a"
proof (cases a)
  case (SocketV4 ip port)
  assume ok: "socket_ok a"
  have "read_port ('':'' @ radix_digits 10 port) = Some (port, [])"
    using read_suffix_digits [of port 65535 "[]" "CHR '':''"] ok SocketV4 by (simp add: read_port_def)
  moreover have "read_ipv4_addr (ipv4_to_string ip @ '':'' @ radix_digits 10 port) =
      Some (map unat ip, '':'' @ radix_digits 10 port)"
    using ok SocketV4 by (intro read_ipv4_to_string) (auto simp: punctuation_not_digit)
  ultimately show ?thesis
    using SocketV4 by (simp add: socket_from_str_def read_socket_addr_v4_def map_idI)
next
  case (SocketV6 ip sid port)
  assume ok: "socket_ok a"
  define p where "p = '':'' @ radix_digits 10 port"
  define q where "q = (if sid = 0 then [] else ''%'' @ radix_digits 10 sid) @ CHR '']'' # p"
  have shown: "socket_to_string a = CHR ''['' # ipv6_to_string ip @ q"
    using SocketV6 by (simp add: q_def p_def)
  have no4: "read_ipv4_addr (CHR ''['' # t) = None" for t
    by (simp add: read_ipv4_addr_four read_separator_def read_number_def digit_val_def char_code_def)
  have port: "read_port p = Some (port, [])"
    using read_suffix_digits [of port 65535 "[]" "CHR '':''"] ok SocketV6 by (simp add: read_port_def p_def)
  have scope: "(case read_scope_id q of None \<Rightarrow> (0, q) | Some (v, r) \<Rightarrow> (v, r)) = (sid, CHR '']'' # p)"
    using read_suffix_digits [of sid "2 ^ 32 - 1" "CHR '']'' # p" "CHR ''%''"] ok SocketV6
    by (auto simp: q_def read_scope_id_def read_suffix_other punctuation_not_digit)
  have "read_ipv6_addr (ipv6_to_string ip @ q) = Some (ip, q)"
    using ok SocketV6 by (intro read_ipv6_to_string) (auto simp: closes_def q_def)
  then show ?thesis
    unfolding shown using SocketV6 no4 scope port
    by (simp add: socket_from_str_def read_socket_addr_v4_def read_socket_addr_v6_def read_given_char_def)
qed

end
