(* ===== verification/Database.thy ===== *)
theory Database
  imports ProxySrc Ipv6Text
begin

text \<open>
  The \<open>domains\<close> table with its constraints, sequence and notification trigger
  (\<open>migrations/001_initial.sql\<close>), and the queries that the DNS server
  (\<open>dns-server/src/db.rs\<close>) and the daemon run on it. Postgres' own conversion between
  \<open>inet\<close> values and text is a parameter, a record \<open>pg\<close>; the locale \<open>inet_text\<close> states what
  the programs rely on. Timestamps are left out.
\<close>

section \<open>State\<close>

type_synonym i32 = "32 word"

record domain_rec =
  row_domain_id :: i32
  row_domain :: string
  row_origin :: bytes
  row_synthetic :: bytes
  row_ttl :: "i32 option"

text \<open>
  \<open>domain_id_seq\<close> is the next value of the sequence. \<open>domain_changes\<close> is the queue of
  notifications of the one session that listens, \<open>None\<close> if there is no such session: a
  notification reaches only the sessions that listen when it is sent.
\<close>

record db =
  domains :: "domain_rec list"
  domain_id_seq :: nat
  domain_changes :: "string list option"

definition initial_db :: db where
  "initial_db = \<lparr> domains = [], domain_id_seq = 1, domain_changes = None \<rparr>"

record pg =
  inet_in :: "string \<Rightarrow> bytes option"
  host :: "bytes \<Rightarrow> string"

datatype db_error = ConnectionError | UniqueViolation | InvalidInet | SequenceExhausted

text \<open>A query can fail before it takes effect, or after that with the reply lost.\<close>

datatype fault = Fine | NotExecuted | ReplyLost

definition run_query :: "fault \<Rightarrow> (db \<Rightarrow> (db_error + 'a) \<times> db) \<Rightarrow> db \<Rightarrow> (db_error + 'a) \<times> db" where
  "run_query f query d =
     (case f of
        Fine \<Rightarrow> query d
      | NotExecuted \<Rightarrow> (Inl ConnectionError, d)
      | ReplyLost \<Rightarrow> (Inl ConnectionError, snd (query d)))"

section \<open>The trigger\<close>

definition notify_domain_change :: "i32 \<Rightarrow> db \<Rightarrow> db" where
  "notify_domain_change new_domain_id d =
     d \<lparr> domain_changes := map_option (\<lambda>q. q @ [show_int (sint new_domain_id)]) (domain_changes d) \<rparr>"

section \<open>Queries of the DNS server\<close>

record DomainRow =
  domain_id :: i32
  domain_name :: string
  origin_text :: string
  synthetic_text :: string
  ttl_seconds :: "i32 option"

definition find_by_domain :: "pg \<Rightarrow> string \<Rightarrow> db \<Rightarrow> (db_error + DomainRow option) \<times> db" where
  "find_by_domain p dname d =
     (Inr (map_option (\<lambda>r. \<lparr> domain_id = row_domain_id r, domain_name = row_domain r,
                             origin_text = host p (row_origin r), synthetic_text = host p (row_synthetic r),
                             ttl_seconds = row_ttl r \<rparr>)
             (find (\<lambda>r. row_domain r = dname) (domains d))), d)"

definition insert_domain ::
  "pg \<Rightarrow> i32 \<Rightarrow> string \<Rightarrow> string \<Rightarrow> string \<Rightarrow> i32 \<Rightarrow> db \<Rightarrow> (db_error + i32 \<times> string) \<times> db" where
  "insert_domain p did dname origin synthetic ttl d =
     (case (inet_in p origin, inet_in p synthetic) of
        (Some org, Some syn) \<Rightarrow>
          (case find (\<lambda>r. row_domain r = dname) (domains d) of
             Some r \<Rightarrow>
               (Inr (row_domain_id r, host p (row_synthetic r)),
                notify_domain_change (row_domain_id r)
                  (d \<lparr> domains := map (\<lambda>r. if row_domain r = dname then r \<lparr> row_origin := org, row_ttl := Some ttl \<rparr> else r)
                                    (domains d) \<rparr>))
           | None \<Rightarrow>
               if \<exists>r \<in> set (domains d). row_domain_id r = did then (Inl UniqueViolation, d)
               else
                 (Inr (did, host p syn),
                  notify_domain_change did
                    (d \<lparr> domains := domains d @
                          [\<lparr> row_domain_id = did, row_domain = dname, row_origin = org, row_synthetic = syn,
                             row_ttl = Some ttl \<rparr>] \<rparr>)))
      | _ \<Rightarrow> (Inl InvalidInet, d))"

text \<open>The sequence counts up to the largest \<open>bigint\<close>; the program keeps the lower 32 bits.\<close>

definition next_domain_id :: "db \<Rightarrow> (db_error + i32) \<times> db" where
  "next_domain_id d =
     (if domain_id_seq d < 2 ^ 63 then
        (Inr (word_of_nat (domain_id_seq d)), d \<lparr> domain_id_seq := domain_id_seq d + 1 \<rparr>)
      else (Inl SequenceExhausted, d))"

section \<open>Queries of the daemon\<close>

definition all_origins :: "pg \<Rightarrow> db \<Rightarrow> (i32 \<times> string) list" where
  "all_origins p d = map (\<lambda>r. (row_domain_id r, host p (row_origin r))) (domains d)"

definition all_domains :: "pg \<Rightarrow> db \<Rightarrow> (i32 \<times> string \<times> string) list" where
  "all_domains p d = map (\<lambda>r. (row_domain_id r, row_domain r, host p (row_origin r))) (domains d)"

definition fetch_origin :: "pg \<Rightarrow> i32 \<Rightarrow> db \<Rightarrow> string option" where
  "fetch_origin p did d =
     map_option (\<lambda>r. host p (row_origin r)) (find (\<lambda>r. row_domain_id r = did) (domains d))"

definition update_origin :: "pg \<Rightarrow> string \<Rightarrow> i32 \<Rightarrow> db \<Rightarrow> (db_error + unit) \<times> db" where
  "update_origin p origin did d =
     (case inet_in p origin of
        None \<Rightarrow> (Inl InvalidInet, d)
      | Some org \<Rightarrow>
          (Inr (),
           fold (\<lambda>r. notify_domain_change (row_domain_id r)) (filter (\<lambda>r. row_domain_id r = did) (domains d))
             (d \<lparr> domains := map (\<lambda>r. if row_domain_id r = did then r \<lparr> row_origin := org \<rparr> else r) (domains d) \<rparr>)))"

section \<open>What the programs rely on of Postgres\<close>

locale inet_text =
  fixes p :: pg
  assumes inet_in_text: "length a = 16 \<Longrightarrow> inet_in p (ipv6_to_string a) = Some a"
    and host_text: "length a = 16 \<Longrightarrow> ipv6_from_str (host p a) = Some a"
begin

text \<open>An address survives the way through the database.\<close>

lemma inet_round_trip: "length a = 16 \<Longrightarrow> map_option (\<lambda>b. ipv6_from_str (host p b)) (inet_in p (ipv6_to_string a)) = Some (Some a)"
  by (simp add: inet_in_text host_text)

end

text \<open>The parser and formatter of the standard library satisfy the contract.\<close>

definition std_pg :: pg where
  "std_pg = \<lparr> inet_in = ipv6_from_str, host = ipv6_to_string \<rparr>"

interpretation std: inet_text std_pg
  by unfold_locales (simp_all add: std_pg_def ipv6_from_to_string)

section \<open>Well-formed databases\<close>

text \<open>The constraints of the table, and that rows carry the synthetic address of an id that was allocated.\<close>

definition allocated :: "nat \<Rightarrow> i32 \<Rightarrow> bool" where
  "allocated n i \<longleftrightarrow> (\<exists>k. 1 \<le> k \<and> k < n \<and> i = word_of_nat k)"

definition row_ok :: "nat \<Rightarrow> domain_rec \<Rightarrow> bool" where
  "row_ok n r \<longleftrightarrow>
     allocated n (row_domain_id r) \<and> row_synthetic r = synthetic_ipv6 (row_domain_id r) \<and> length (row_origin r) = 16"

definition db_ok :: "db \<Rightarrow> bool" where
  "db_ok d \<longleftrightarrow>
     distinct (map row_domain (domains d)) \<and> distinct (map row_domain_id (domains d)) \<and>
     1 \<le> domain_id_seq d \<and> list_all (row_ok (domain_id_seq d)) (domains d)"

lemma allocated_mono: "allocated n i \<Longrightarrow> n \<le> m \<Longrightarrow> allocated m i"
  unfolding allocated_def by (metis order_less_le_trans)

lemma row_ok_mono: "row_ok n r \<Longrightarrow> n \<le> m \<Longrightarrow> row_ok m r"
  unfolding row_ok_def using allocated_mono by blast

lemma db_ok_initial: "db_ok initial_db"
  by (simp add: db_ok_def initial_db_def)

lemma notify_fields [simp]:
  "domains (notify_domain_change i d) = domains d"
  "domain_id_seq (notify_domain_change i d) = domain_id_seq d"
  by (simp_all add: notify_domain_change_def)

lemma db_ok_fields: "domains d = domains d' \<Longrightarrow> domain_id_seq d = domain_id_seq d' \<Longrightarrow> db_ok d = db_ok d'"
  by (simp add: db_ok_def)

lemma fold_notify_fields [simp]:
  "domains (fold (\<lambda>r. notify_domain_change (row_domain_id r)) rs d) = domains d"
  "domain_id_seq (fold (\<lambda>r. notify_domain_change (row_domain_id r)) rs d) = domain_id_seq d"
  by (induction rs arbitrary: d) simp_all

text \<open>The row of a domain, and of an id.\<close>

definition row_of :: "db \<Rightarrow> string \<Rightarrow> domain_rec option" where
  "row_of d dname = find (\<lambda>r. row_domain r = dname) (domains d)"

definition row_by_id :: "db \<Rightarrow> i32 \<Rightarrow> domain_rec option" where
  "row_by_id d i = find (\<lambda>r. row_domain_id r = i) (domains d)"

lemma row_of_Some: "row_of d dname = Some r \<Longrightarrow> r \<in> set (domains d) \<and> row_domain r = dname"
  unfolding row_of_def find_Some_iff by auto

lemma row_by_id_Some: "row_by_id d i = Some r \<Longrightarrow> r \<in> set (domains d) \<and> row_domain_id r = i"
  unfolding row_by_id_def find_Some_iff by auto

lemma find_distinct:
  assumes "distinct (map f xs)" "x \<in> set xs"
  shows "find (\<lambda>y. f y = f x) xs = Some x"
  using assms by (induction xs) (auto simp: rev_image_eqI)

lemma find_append_None: "\<forall>x \<in> set xs. \<not> P x \<Longrightarrow> find P (xs @ ys) = find P ys"
  by (induction xs) auto

lemma find_map_keep: "(\<And>x. P (f x) = P x) \<Longrightarrow> find P (map f xs) = map_option f (find P xs)"
  by (induction xs) auto

lemma row_of_mem: "db_ok d \<Longrightarrow> r \<in> set (domains d) \<Longrightarrow> row_of d (row_domain r) = Some r"
  unfolding db_ok_def row_of_def by (blast intro: find_distinct)

lemma row_by_id_mem: "db_ok d \<Longrightarrow> r \<in> set (domains d) \<Longrightarrow> row_by_id d (row_domain_id r) = Some r"
  unfolding db_ok_def row_by_id_def by (blast intro: find_distinct)

lemma db_ok_row: "db_ok d \<Longrightarrow> r \<in> set (domains d) \<Longrightarrow> row_ok (domain_id_seq d) r"
  by (auto simp: db_ok_def list_all_iff)

section \<open>The queries keep the database well-formed\<close>

lemma find_by_domain_row:
  "find_by_domain p dname d =
     (Inr (map_option (\<lambda>r. \<lparr> domain_id = row_domain_id r, domain_name = row_domain r,
                             origin_text = host p (row_origin r), synthetic_text = host p (row_synthetic r),
                             ttl_seconds = row_ttl r \<rparr>) (row_of d dname)), d)"
  by (simp add: find_by_domain_def row_of_def)

text \<open>Rows stay, with the id and the synthetic address they have.\<close>

definition extends :: "db \<Rightarrow> db \<Rightarrow> bool" where
  "extends d d' \<longleftrightarrow>
     domain_id_seq d \<le> domain_id_seq d' \<and>
     (\<forall>r \<in> set (domains d). \<exists>r' \<in> set (domains d'). row_domain r' = row_domain r \<and>
        row_domain_id r' = row_domain_id r \<and> row_synthetic r' = row_synthetic r)"

lemma extends_refl [simp]: "extends d d"
  by (auto simp: extends_def)

lemma extends_trans: "extends a b \<Longrightarrow> extends b c \<Longrightarrow> extends a c"
  unfolding extends_def by (metis order_trans)

lemma extends_row_of:
  assumes "db_ok d'" "extends d d'" "row_of d dname = Some r"
  shows "\<exists>r'. row_of d' dname = Some r' \<and> row_domain_id r' = row_domain_id r \<and> row_synthetic r' = row_synthetic r"
proof -
  have "r \<in> set (domains d)" "row_domain r = dname" using row_of_Some [OF assms(3)] by auto
  then obtain r' where r': "r' \<in> set (domains d')" "row_domain r' = dname"
      "row_domain_id r' = row_domain_id r" "row_synthetic r' = row_synthetic r"
    using assms(2) unfolding extends_def by metis
  then show ?thesis using row_of_mem [OF assms(1) r'(1)] by auto
qed

lemma update_rows_ok:
  assumes "db_ok d" "\<And>r. row_domain (f r) = row_domain r \<and> row_domain_id (f r) = row_domain_id r \<and> row_synthetic (f r) = row_synthetic r"
    and "\<And>r. length (row_origin r) = 16 \<Longrightarrow> length (row_origin (f r)) = 16"
  shows "db_ok (d \<lparr> domains := map f (domains d) \<rparr>)" and "extends d (d \<lparr> domains := map f (domains d) \<rparr>)"
proof -
  have "map row_domain (map f (domains d)) = map row_domain (domains d)"
    "map row_domain_id (map f (domains d)) = map row_domain_id (domains d)"
    using assms(2) by simp_all
  moreover have "list_all (row_ok (domain_id_seq d)) (map f (domains d))"
    using assms unfolding db_ok_def list_all_iff row_ok_def by auto
  ultimately show "db_ok (d \<lparr> domains := map f (domains d) \<rparr>)"
    using assms(1) unfolding db_ok_def by (simp del: map_map)
  show "extends d (d \<lparr> domains := map f (domains d) \<rparr>)"
    using assms(2) by (auto simp: extends_def)
qed

text \<open>
  What a change of the database by any of the queries keeps: the invariant and the assigned
  ids and addresses.
\<close>

definition keeps :: "db \<Rightarrow> db \<Rightarrow> bool" where
  "keeps d d' \<longleftrightarrow> db_ok d' \<and> extends d d'"

lemma keeps_notify: "keeps d (notify_domain_change i d') = keeps d d'"
  unfolding keeps_def extends_def by (simp add: db_ok_def)

lemma keeps_fold_notify: "keeps d (fold (\<lambda>r. notify_domain_change (row_domain_id r)) rs d') = keeps d d'"
  unfolding keeps_def extends_def by (simp add: db_ok_def)

lemma insert_domain_keeps:
  assumes "db_ok d" "allocated (domain_id_seq d) did"
    and "inet_in p origin = Some org" "length org = 16"
    and "inet_in p synthetic = Some (synthetic_ipv6 did)"
  shows "keeps d (snd (insert_domain p did dname origin synthetic ttl d))"
proof (cases "row_of d dname")
  case None
  then have fresh: "dname \<notin> row_domain ` set (domains d)"
    by (auto simp: row_of_def find_None_iff)
  show ?thesis
  proof (cases "\<exists>r \<in> set (domains d). row_domain_id r = did")
    case True
    then show ?thesis using None assms by (simp add: insert_domain_def row_of_def keeps_def)
  next
    case False
    let ?r = "\<lparr> row_domain_id = did, row_domain = dname, row_origin = org, row_synthetic = synthetic_ipv6 did,
      row_ttl = Some ttl \<rparr>"
    have "keeps d (d \<lparr> domains := domains d @ [?r] \<rparr>)"
      using assms(1,2,4) fresh False by (auto simp: keeps_def db_ok_def extends_def row_ok_def)
    then show ?thesis using None False assms(3,5) by (simp add: insert_domain_def row_of_def keeps_notify)
  qed
next
  case (Some r)
  have "keeps d (d \<lparr> domains := map (\<lambda>r. if row_domain r = dname then r \<lparr> row_origin := org, row_ttl := Some ttl \<rparr> else r)
      (domains d) \<rparr>)"
    unfolding keeps_def using assms(1,4) by (intro conjI update_rows_ok) auto
  then show ?thesis using Some assms(3,5) by (simp add: insert_domain_def row_of_def keeps_notify)
qed

lemma update_origin_keeps:
  assumes "db_ok d" "inet_in p origin = Some org" "length org = 16"
  shows "keeps d (snd (update_origin p origin did d))"
proof -
  have "keeps d (d \<lparr> domains := map (\<lambda>r. if row_domain_id r = did then r \<lparr> row_origin := org \<rparr> else r) (domains d) \<rparr>)"
    unfolding keeps_def using assms(1,3) by (intro conjI update_rows_ok) auto
  then show ?thesis using assms(2) by (simp add: update_origin_def keeps_fold_notify)
qed

lemma next_domain_id_keeps:
  assumes "db_ok d"
  shows "keeps d (snd (next_domain_id d))"
  using assms by (auto simp: next_domain_id_def keeps_def db_ok_def extends_def list_all_iff intro: row_ok_mono)

lemma next_domain_id_allocated:
  assumes "db_ok d" "next_domain_id d = (Inr i, d')"
  shows "allocated (domain_id_seq d') i"
  using assms by (auto simp: next_domain_id_def allocated_def db_ok_def split: if_splits intro: exI [of _ "domain_id_seq d"])

lemma run_query_keeps:
  assumes "db_ok d" "keeps d (snd (query d))"
  shows "keeps d (snd (run_query f query d))"
  using assms by (cases f) (simp_all add: run_query_def keeps_def)

lemma run_query_Inr: "run_query f query d = (Inr x, d') \<Longrightarrow> query d = (Inr x, d')"
  by (cases f) (simp_all add: run_query_def)

text \<open>A successful insertion returns the row that is now stored for the domain.\<close>

lemma insert_domain_result:
  assumes "db_ok d" "insert_domain p did dname origin synthetic ttl d = (Inr (i, s), d')"
  shows "\<exists>r. row_of d' dname = Some r \<and> row_domain_id r = i \<and> s = host p (row_synthetic r)"
proof -
  obtain org syn where os: "inet_in p origin = Some org" "inet_in p synthetic = Some syn"
    using assms(2) by (auto simp: insert_domain_def split: option.splits)
  show ?thesis
  proof (cases "row_of d dname")
    case None
    then have "\<forall>r \<in> set (domains d). row_domain r \<noteq> dname" by (auto simp: row_of_def find_None_iff)
    then have "find (\<lambda>r. row_domain r = dname) (domains d @ xs) = find (\<lambda>r. row_domain r = dname) xs" for xs
      by (simp add: find_append_None)
    then show ?thesis
      using None assms(2) os by (auto simp: insert_domain_def row_of_def split: if_splits)
  next
    case (Some r)
    let ?f = "\<lambda>r. if row_domain r = dname then r \<lparr> row_origin := org, row_ttl := Some ttl \<rparr> else r"
    have "find (\<lambda>r. row_domain r = dname) (map ?f (domains d)) = Some (?f r)"
      using Some by (subst find_map_keep) (auto simp: row_of_def)
    then show ?thesis
      using Some assms(2) os row_of_Some [OF Some] by (intro exI [of _ "?f r"]) (auto simp: insert_domain_def row_of_def)
  qed
qed

end
