(* ===== verification/Dns.thy ===== *)
theory Dns
  imports Database
begin

text \<open>
  The DNS server (\<open>dns-server/src\<close>): the query handler, the SERVFAIL responses and the
  receive loop with its bound on the queries in flight. The message library is a parameter, a
  record \<open>hickory\<close>; names are the values of a type variable.
\<close>

section \<open>Messages\<close>

datatype MessageType = Query | Response
datatype ResponseCode = NoError | FormErr | ServFail | NXDomain
datatype RecordType = A | AAAA | OtherType u16
datatype DNSClass = IN | OtherClass u16

record 'n question =
  q_name :: 'n
  query_type :: RecordType
  query_class :: DNSClass

record 'n answer =
  a_name :: 'n
  a_ttl :: u32
  a_rdata :: bytes
  dns_class :: DNSClass

record 'n Message =
  msg_id :: u16
  message_type :: MessageType
  op_code :: u8
  recursion_desired :: bool
  recursion_available :: bool
  queries :: "'n question list"
  answers :: "'n answer list"
  response_code :: ResponseCode

record 'n hickory =
  message_new :: "'n Message"
  from_vec :: "bytes \<Rightarrow> 'n Message option"
  to_vec :: "'n Message \<Rightarrow> bytes option"
  to_ascii :: "'n \<Rightarrow> string"

section \<open>Upstream resolver\<close>

text \<open>
  What the resolver library returns: addresses, an error of the protocol, with the flag that
  says that no record was found, or another error.
\<close>

datatype lookup_result = Found "bytes list" | ProtoError bool | OtherError

definition lookup_aaaa :: "(string \<Rightarrow> lookup_result) \<Rightarrow> string \<Rightarrow> unit + bytes option" where
  "lookup_aaaa ipv6_lookup dname =
     (case ipv6_lookup dname of
        Found ips \<Rightarrow> Inr (case ips of [] \<Rightarrow> None | ip # _ \<Rightarrow> Some ip)
      | ProtoError no_records \<Rightarrow> if no_records then Inr None else Inl ()
      | OtherError \<Rightarrow> Inl ())"

section \<open>Handler\<close>

datatype dns_error = ParseQuery | DbFailed db_error | BadSynthetic | Encode

text \<open>The outcome of the four calls that a handler awaits.\<close>

record outcome =
  find_fault :: fault
  upstream :: "string \<Rightarrow> lookup_result"
  alloc_fault :: fault
  insert_fault :: fault

definition to_lowercase :: "string \<Rightarrow> string" where
  "to_lowercase s = map (\<lambda>c. if 65 \<le> char_code c \<and> char_code c \<le> 90 then char_of (char_code c + 32) else c) s"

definition trim_end_dots :: "string \<Rightarrow> string" where
  "trim_end_dots s = rev (dropWhile (\<lambda>c. c = CHR ''.'') (rev s))"

definition domain_str :: "'n hickory \<Rightarrow> 'n \<Rightarrow> string" where
  "domain_str h nm = to_lowercase (trim_end_dots (to_ascii h nm))"

definition add_aaaa :: "'n \<Rightarrow> u32 \<Rightarrow> bytes \<Rightarrow> 'n Message \<Rightarrow> 'n Message" where
  "add_aaaa nm ttl a response =
     response \<lparr> answers := answers response @ [\<lparr> a_name = nm, a_ttl = ttl, a_rdata = a, dns_class = IN \<rparr>],
                response_code := NoError \<rparr>"

definition handle_aaaa ::
  "pg \<Rightarrow> 'n hickory \<Rightarrow> outcome \<Rightarrow> 'n \<Rightarrow> 'n Message \<Rightarrow> db \<Rightarrow> (dns_error + 'n Message) \<times> db" where
  "handle_aaaa p h oc nm response d =
     (case run_query (find_fault oc) (find_by_domain p (domain_str h nm)) d of
        (Inl e, d) \<Rightarrow> (Inl (DbFailed e), d)
      | (Inr (Some row), d) \<Rightarrow>
          (case ipv6_from_str (synthetic_text row) of
             None \<Rightarrow> (Inl BadSynthetic, d)
           | Some synthetic \<Rightarrow>
               let ttl = (case ttl_seconds row of Some t \<Rightarrow> t | None \<Rightarrow> 300)
               in (Inr (add_aaaa nm ttl synthetic response), d))
      | (Inr None, d) \<Rightarrow>
          (case lookup_aaaa (upstream oc) (domain_str h nm) of
             Inr None \<Rightarrow> (Inr (response \<lparr> response_code := NXDomain \<rparr>), d)
           | Inl _ \<Rightarrow> (Inr (response \<lparr> response_code := ServFail \<rparr>), d)
           | Inr (Some origin) \<Rightarrow>
               (case run_query (alloc_fault oc) next_domain_id d of
                  (Inl e, d) \<Rightarrow> (Inl (DbFailed e), d)
                | (Inr did, d) \<Rightarrow>
                    let ttl = 300
                    in (case run_query (insert_fault oc)
                               (insert_domain p did (domain_str h nm) (ipv6_to_string origin)
                                  (ipv6_to_string (synthetic_ipv6 did)) ttl) d of
                          (Inl e, d) \<Rightarrow> (Inl (DbFailed e), d)
                        | (Inr (stored_domain_id, stored_synthetic_str), d) \<Rightarrow>
                            (case ipv6_from_str stored_synthetic_str of
                               None \<Rightarrow> (Inl BadSynthetic, d)
                             | Some synthetic \<Rightarrow> (Inr (add_aaaa nm ttl synthetic response), d))))))"

definition start_response :: "'n hickory \<Rightarrow> 'n Message \<Rightarrow> 'n Message" where
  "start_response h request =
     (message_new h) \<lparr> msg_id := msg_id request, message_type := Response, op_code := op_code request,
        recursion_desired := recursion_desired request, recursion_available := True,
        queries := queries (message_new h) @ queries request \<rparr>"

definition encode_response :: "'n hickory \<Rightarrow> 'n Message \<Rightarrow> dns_error + bytes" where
  "encode_response h response = (case to_vec h response of None \<Rightarrow> Inl Encode | Some v \<Rightarrow> Inr v)"

definition handle_query ::
  "pg \<Rightarrow> 'n hickory \<Rightarrow> outcome \<Rightarrow> bytes \<Rightarrow> db \<Rightarrow> (dns_error + bytes) \<times> db" where
  "handle_query p h oc data d =
     (case from_vec h data of
        None \<Rightarrow> (Inl ParseQuery, d)
      | Some request \<Rightarrow>
          let response = start_response h request
          in (case queries request of
                [] \<Rightarrow> (encode_response h (response \<lparr> response_code := FormErr \<rparr>), d)
              | query # _ \<Rightarrow>
                  (case query_type query of
                     AAAA \<Rightarrow>
                       (case handle_aaaa p h oc (q_name query) response d of
                          (Inl e, d) \<Rightarrow> (Inl e, d)
                        | (Inr response, d) \<Rightarrow> (encode_response h response, d))
                   | A \<Rightarrow> (encode_response h (response \<lparr> response_code := NoError \<rparr>), d)
                   | OtherType _ \<Rightarrow> (encode_response h (response \<lparr> response_code := NoError \<rparr>), d))))"

definition servfail :: "'n hickory \<Rightarrow> bytes \<Rightarrow> bytes option" where
  "servfail h query_bytes =
     (case from_vec h query_bytes of
        None \<Rightarrow> None
      | Some request \<Rightarrow> to_vec h (start_response h request \<lparr> response_code := ServFail \<rparr>))"

section \<open>The handler as a sequence of atomic database accesses\<close>

text \<open>
  Handlers of different queries interleave at their awaits, so that other queries run between
  the lookup of a domain, the allocation of an id and the insertion. A task is a handler
  between two database accesses; the result of a finished one is the response code with the
  time to live and the address of the answer.
\<close>

type_synonym result = "ResponseCode \<times> (u32 \<times> bytes) option"

datatype task =
    Finding string
  | Allocating string bytes
  | Inserting string bytes i32
  | Finished string "dns_error + result"

definition aaaa_step :: "pg \<Rightarrow> outcome \<Rightarrow> task \<Rightarrow> db \<Rightarrow> task \<times> db" where
  "aaaa_step p oc t d =
     (case t of
        Finding dname \<Rightarrow>
          (case run_query (find_fault oc) (find_by_domain p dname) d of
             (Inl e, d) \<Rightarrow> (Finished dname (Inl (DbFailed e)), d)
           | (Inr (Some row), d) \<Rightarrow>
               (case ipv6_from_str (synthetic_text row) of
                  None \<Rightarrow> (Finished dname (Inl BadSynthetic), d)
                | Some synthetic \<Rightarrow>
                    (Finished dname (Inr (NoError, Some (case ttl_seconds row of Some t \<Rightarrow> t | None \<Rightarrow> 300, synthetic))), d))
           | (Inr None, d) \<Rightarrow>
               (case lookup_aaaa (upstream oc) dname of
                  Inr None \<Rightarrow> (Finished dname (Inr (NXDomain, None)), d)
                | Inl _ \<Rightarrow> (Finished dname (Inr (ServFail, None)), d)
                | Inr (Some origin) \<Rightarrow> (Allocating dname origin, d)))
      | Allocating dname origin \<Rightarrow>
          (case run_query (alloc_fault oc) next_domain_id d of
             (Inl e, d) \<Rightarrow> (Finished dname (Inl (DbFailed e)), d)
           | (Inr did, d) \<Rightarrow> (Inserting dname origin did, d))
      | Inserting dname origin did \<Rightarrow>
          (case run_query (insert_fault oc)
                  (insert_domain p did dname (ipv6_to_string origin) (ipv6_to_string (synthetic_ipv6 did)) 300) d of
             (Inl e, d) \<Rightarrow> (Finished dname (Inl (DbFailed e)), d)
           | (Inr (_, stored_synthetic_str), d) \<Rightarrow>
               (case ipv6_from_str stored_synthetic_str of
                  None \<Rightarrow> (Finished dname (Inl BadSynthetic), d)
                | Some synthetic \<Rightarrow> (Finished dname (Inr (NoError, Some (300, synthetic))), d)))
      | Finished _ _ \<Rightarrow> (t, d))"

definition apply_result :: "'n \<Rightarrow> 'n Message \<Rightarrow> result \<Rightarrow> 'n Message" where
  "apply_result nm response res =
     (case res of
        (_, Some (ttl, a)) \<Rightarrow> add_aaaa nm ttl a response
      | (rc, None) \<Rightarrow> response \<lparr> response_code := rc \<rparr>)"

definition task_result :: "'n \<Rightarrow> 'n Message \<Rightarrow> task \<Rightarrow> (dns_error + 'n Message) option" where
  "task_result nm response t =
     (case t of Finished _ r \<Rightarrow> Some (map_sum id (apply_result nm response) r) | _ \<Rightarrow> None)"


section \<open>Responses\<close>

definition empty_message :: "'n Message \<Rightarrow> bool" where
  "empty_message m \<longleftrightarrow> queries m = [] \<and> answers m = []"

definition is_reply :: "'n Message \<Rightarrow> 'n Message \<Rightarrow> bool" where
  "is_reply request m \<longleftrightarrow>
     msg_id m = msg_id request \<and> message_type m = Response \<and> op_code m = op_code request \<and>
     recursion_desired m = recursion_desired request \<and> recursion_available m \<and> queries m = queries request"

text \<open>The answers that a response to a request may have.\<close>

definition answers_ok :: "'n Message \<Rightarrow> 'n Message \<Rightarrow> bool" where
  "answers_ok request m \<longleftrightarrow>
     (case queries request of
        [] \<Rightarrow> answers m = [] \<and> response_code m = FormErr
      | q # _ \<Rightarrow>
          if query_type q = AAAA then
            (case answers m of
               [] \<Rightarrow> response_code m = NXDomain \<or> response_code m = ServFail
             | [a] \<Rightarrow> response_code m = NoError \<and> a_name a = q_name q \<and> dns_class a = IN
             | _ \<Rightarrow> False)
          else answers m = [] \<and> response_code m = NoError)"

lemma start_response_reply: "empty_message (message_new h) \<Longrightarrow> is_reply request (start_response h request) \<and> answers (start_response h request) = []"
  by (simp add: is_reply_def start_response_def empty_message_def)

lemma is_reply_update [simp]:
  "is_reply request (m \<lparr> response_code := rc \<rparr>) = is_reply request m"
  "is_reply request (add_aaaa nm ttl a m) = is_reply request m"
  by (simp_all add: is_reply_def add_aaaa_def)

lemma handle_aaaa_reply:
  assumes "handle_aaaa p h oc nm response d = (Inr m, d')" "answers response = []"
  shows "(\<exists>ttl a. m = add_aaaa nm ttl a response) \<or> m = response \<lparr> response_code := NXDomain \<rparr> \<or>
    m = response \<lparr> response_code := ServFail \<rparr>"
  using assms by (auto simp: handle_aaaa_def Let_def split: prod.splits sum.splits option.splits)

text \<open>
  C16. Every response of the handler is the encoding of a message that
  answers the request: it repeats the id, the operation code, the recursion flag and the
  questions, and carries one AAAA record exactly if the question is for AAAA and the code is
  NOERROR. A request that cannot be parsed gets no response and leaves the database alone.
\<close>

theorem handle_query_reply:
  assumes "empty_message (message_new h)"
  shows "case from_vec h data of
      None \<Rightarrow> handle_query p h oc data d = (Inl ParseQuery, d)
    | Some request \<Rightarrow>
        (\<forall>v d'. handle_query p h oc data d = (Inr v, d') \<longrightarrow>
           (\<exists>m. to_vec h m = Some v \<and> is_reply request m \<and> answers_ok request m))"
proof (cases "from_vec h data")
  case None
  then show ?thesis by (simp add: handle_query_def)
next
  case (Some request)
  let ?r = "start_response h request"
  have r: "is_reply request ?r" "answers ?r = []" using start_response_reply [OF assms] by blast+
  have "\<exists>m. to_vec h m = Some v \<and> is_reply request m \<and> answers_ok request m"
    if v: "handle_query p h oc data d = (Inr v, d')" for v d'
  proof (cases "\<exists>q qs. queries request = q # qs \<and> query_type q = AAAA")
    case True
    then obtain q qs where q: "queries request = q # qs" "query_type q = AAAA" by blast
    then obtain m where m: "handle_aaaa p h oc (q_name q) ?r d = (Inr m, d')" "to_vec h m = Some v"
      using v Some by (auto simp: handle_query_def encode_response_def split: prod.splits sum.splits option.splits)
    then show ?thesis
      using handle_aaaa_reply [OF m(1)] r q by (intro exI [of _ m]) (auto simp: answers_ok_def add_aaaa_def is_reply_def)
  next
    case False
    define rc where "rc = (if queries request = [] then FormErr else NoError)"
    have "to_vec h (?r \<lparr> response_code := rc \<rparr>) = Some v"
      using v Some False
      by (auto simp: handle_query_def encode_response_def rc_def Let_def
          split: list.splits RecordType.splits option.splits)
    moreover have "answers_ok request (?r \<lparr> response_code := rc \<rparr>)"
      using r False by (auto simp: answers_ok_def rc_def split: list.splits)
    ultimately show ?thesis using r by (intro exI [of _ "?r \<lparr> response_code := rc \<rparr>"]) simp
  qed
  then show ?thesis using Some by simp
qed

text \<open>A library with one request that it can parse, for a single name.\<close>

definition sample_request :: "unit Message" where
  "sample_request = \<lparr> msg_id = 7, message_type = Query, op_code = 0, recursion_desired = True,
     recursion_available = False, queries = [\<lparr> q_name = (), query_type = AAAA, query_class = IN \<rparr>],
     answers = [], response_code = NoError \<rparr>"

definition sample_hickory :: "unit hickory" where
  "sample_hickory = \<lparr> message_new = sample_request \<lparr> queries := [] \<rparr>,
     from_vec = (\<lambda>bs. if bs = [1] then Some sample_request else None),
     to_vec = (\<lambda>m. Some [ucast (msg_id m), word_of_nat (length (answers m))]), to_ascii = (\<lambda>_. ''Example.org.'') \<rparr>"

definition no_record :: outcome where
  "no_record = \<lparr> find_fault = Fine, upstream = (\<lambda>_. ProtoError True), alloc_fault = Fine, insert_fault = Fine \<rparr>"

lemma sample_reply: "handle_query std_pg sample_hickory no_record [1] initial_db = (Inr [7, 0], initial_db)"
  by (simp add: handle_query_def sample_hickory_def sample_request_def no_record_def handle_aaaa_def run_query_def
      find_by_domain_def initial_db_def lookup_aaaa_def encode_response_def start_response_def Let_def)

theorem handle_query_reply_witness:
  "handle_query std_pg sample_hickory no_record [1] initial_db = (Inr [7, 0], initial_db) \<and>
   (\<exists>m. to_vec sample_hickory m = Some [7, 0] \<and> is_reply sample_request m \<and> answers_ok sample_request m)"
proof -
  have "empty_message (message_new sample_hickory)"
    by (simp add: empty_message_def sample_hickory_def sample_request_def)
  moreover have "from_vec sample_hickory [1] = Some sample_request" by (simp add: sample_hickory_def)
  ultimately show ?thesis
    using handle_query_reply [where h = sample_hickory and data = "[1]" and p = std_pg and oc = no_record and d = initial_db] sample_reply by simp
qed

end
