(* ===== verification/Daemon.thy ===== *)
theory Daemon
  imports Skb Database Dns
begin

text \<open>
  How the daemon keeps the eBPF map \<open>NAT_MAP\<close> in step with the database: the insertions
  (\<open>daemon/src/maps.rs\<close>), the bulk load at the start, the notification listener with its
  reconnects (\<open>daemon/src/db.rs\<close>) and the periodic resolution (\<open>daemon/src/resolver.rs\<close>).
  Whether a system call on a map succeeds is an argument of the operation.
\<close>

section \<open>The maps of a loaded object\<close>

text \<open>Arrays have all their elements from the start, with all bytes zero; hash maps are empty.\<close>

definition zero_key :: ProxySrcKey where
  "zero_key = \<lparr> prince_key = replicate 16 0, siphash_key = replicate 16 0 \<rparr>"

definition initial_maps :: bpf_maps where
  "initial_maps = \<lparr> NAT_MAP = Map.empty, XFRM_IFINDEX = [0], OBFS_KEYS = [zero_key, zero_key],
     DEV_WAN_IPV6 = [zero_addr], REPLY_TRACK = Map.empty, DBG_COUNTERS = replicate 8 0 \<rparr>"

section \<open>Map updates\<close>

datatype daemon_error =
    MapFailed
  | QueryFailed db_error
  | InvalidOrigin
  | InvalidPayload
  | RecvFailed
  | ConnectFailed

definition insert_nat_entry :: "bool \<Rightarrow> u32 \<Rightarrow> bytes \<Rightarrow> bpf_maps \<Rightarrow> (daemon_error + unit) \<times> bpf_maps" where
  "insert_nat_entry ok did origin m =
     (if ok then (Inr (), m \<lparr> NAT_MAP := (NAT_MAP m)(did \<mapsto> \<lparr> origin_ipv6 = origin \<rparr>) \<rparr>) else (Inl MapFailed, m))"

text \<open>Opening the map can fail; a removal that fails is ignored.\<close>

definition remove_nat_entry :: "bool \<Rightarrow> bool \<Rightarrow> u32 \<Rightarrow> bpf_maps \<Rightarrow> (daemon_error + unit) \<times> bpf_maps" where
  "remove_nat_entry open_ok remove_ok did m =
     (if open_ok then (Inr (), if remove_ok then m \<lparr> NAT_MAP := (NAT_MAP m)(did := None) \<rparr> else m)
      else (Inl MapFailed, m))"

section \<open>Bulk load\<close>

fun bulk_rows :: "(u32 \<Rightarrow> bool) \<Rightarrow> (i32 \<times> string) list \<Rightarrow> bpf_maps \<Rightarrow> (daemon_error + unit) \<times> bpf_maps" where
  "bulk_rows ok [] m = (Inr (), m)"
| "bulk_rows ok ((did, origin_ipv6_text) # rows) m =
     (case ipv6_from_str origin_ipv6_text of
        None \<Rightarrow> (Inl InvalidOrigin, m)
      | Some origin \<Rightarrow>
          (case insert_nat_entry (ok did) did origin m of
             (Inl e, m) \<Rightarrow> (Inl e, m)
           | (Inr _, m) \<Rightarrow> bulk_rows ok rows m))"

definition bulk_load_from_db ::
  "pg \<Rightarrow> fault \<Rightarrow> bool \<Rightarrow> (u32 \<Rightarrow> bool) \<Rightarrow> db \<Rightarrow> bpf_maps \<Rightarrow> (daemon_error + nat) \<times> bpf_maps" where
  "bulk_load_from_db p f open_ok ok d m =
     (case run_query f (\<lambda>d. (Inr (all_origins p d), d)) d of
        (Inl e, _) \<Rightarrow> (Inl (QueryFailed e), m)
      | (Inr rows, _) \<Rightarrow>
          if \<not> open_ok then (Inl MapFailed, m)
          else
            (case bulk_rows ok rows m of
               (Inl e, m) \<Rightarrow> (Inl e, m)
             | (Inr _, m) \<Rightarrow> (Inr (length rows), m)))"

section \<open>Notification listener\<close>

text \<open>The body of the loop after \<open>recv\<close>; a failed insertion is only logged.\<close>

definition handle_notification ::
  "pg \<Rightarrow> fault \<Rightarrow> bool \<Rightarrow> string \<Rightarrow> db \<Rightarrow> bpf_maps \<Rightarrow> (daemon_error + unit) \<times> bpf_maps" where
  "handle_notification p f ok payload d m =
     (case parse_i32 payload of
        None \<Rightarrow> (Inl InvalidPayload, m)
      | Some i \<Rightarrow>
          let did = word_of_int i
          in (case run_query f (\<lambda>d. (Inr (fetch_origin p did d), d)) d of
                (Inl e, _) \<Rightarrow> (Inl (QueryFailed e), m)
              | (Inr None, _) \<Rightarrow> (Inr (), m)
              | (Inr (Some origin_ipv6_text), _) \<Rightarrow>
                  (case ipv6_from_str origin_ipv6_text of
                     None \<Rightarrow> (Inl InvalidOrigin, m)
                   | Some origin \<Rightarrow> (Inr (), snd (insert_nat_entry ok did origin m)))))"

text \<open>
  What a listener meets while it runs: a notification, with the database and the outcomes of
  the calls at this time, or an error of the connection. \<open>None\<close>: it is still running.
\<close>

datatype received = Notification string db fault bool | ConnectionLost

fun listen_loop :: "pg \<Rightarrow> received list \<Rightarrow> bpf_maps \<Rightarrow> (daemon_error + unit) option \<times> bpf_maps" where
  "listen_loop p [] m = (None, m)"
| "listen_loop p (ConnectionLost # _) m = (Some (Inl RecvFailed), m)"
| "listen_loop p (Notification payload d f ok # rs) m =
     (case handle_notification p f ok payload d m of
        (Inl e, m) \<Rightarrow> (Some (Inl e), m)
      | (Inr _, m) \<Rightarrow> listen_loop p rs m)"

definition run_listener :: "pg \<Rightarrow> bool \<Rightarrow> bool \<Rightarrow> received list \<Rightarrow> bpf_maps \<Rightarrow> (daemon_error + unit) option \<times> bpf_maps" where
  "run_listener p connected listening rs m =
     (if \<not> connected \<or> \<not> listening then (Some (Inl ConnectFailed), m) else listen_loop p rs m)"

section \<open>Supervisor\<close>

definition HEALTHY_RUN_THRESHOLD :: nat where
  "HEALTHY_RUN_THRESHOLD = 5"

definition INITIAL_BACKOFF :: nat where
  "INITIAL_BACKOFF = 1"

definition MAX_BACKOFF :: nat where
  "MAX_BACKOFF = 30"

text \<open>One round: whether the pool could be created, how long the listener ran, and what it met.\<close>

record round =
  pool_ok :: bool
  connect_ok :: bool
  listen_ok :: bool
  events :: "received list"
  elapsed :: nat

definition next_backoff :: "nat \<Rightarrow> nat \<Rightarrow> nat" where
  "next_backoff elapsed_secs backoff =
     (if elapsed_secs \<ge> HEALTHY_RUN_THRESHOLD then INITIAL_BACKOFF else min (backoff * 2) MAX_BACKOFF)"

text \<open>
  The loop over the rounds, from a backoff on. The result is the error that ends the
  supervisor, \<open>None\<close> while it goes on, the seconds that it slept after each round, and the maps.
\<close>

fun supervise :: "pg \<Rightarrow> nat \<Rightarrow> round list \<Rightarrow> bpf_maps \<Rightarrow> daemon_error option \<times> nat list \<times> bpf_maps" where
  "supervise p backoff [] m = (None, [], m)"
| "supervise p backoff (r # rs) m =
     (if \<not> pool_ok r then (Some ConnectFailed, [], m)
      else
        (case run_listener p (connect_ok r) (listen_ok r) (events r) m of
           (None, m) \<Rightarrow> (None, [], m)
         | (Some _, m) \<Rightarrow>
             let backoff = next_backoff (elapsed r) backoff;
                 (e, sleeps, m) = supervise p backoff rs m
             in (e, backoff # sleeps, m)))"

definition listen_for_changes :: "pg \<Rightarrow> round list \<Rightarrow> bpf_maps \<Rightarrow> daemon_error option \<times> nat list \<times> bpf_maps" where
  "listen_for_changes p rs m = supervise p INITIAL_BACKOFF rs m"

section \<open>Periodic resolution\<close>

text \<open>The outcomes of the calls for one row.\<close>

record attempt =
  update_fault :: fault
  map_ok :: bool

fun resolve_rows ::
  "pg \<Rightarrow> (string \<Rightarrow> lookup_result) \<Rightarrow> (i32 \<Rightarrow> attempt) \<Rightarrow> (i32 \<times> string \<times> string) list \<Rightarrow> db \<Rightarrow> bpf_maps \<Rightarrow>
   (daemon_error + unit) \<times> db \<times> bpf_maps" where
  "resolve_rows p ipv6_lookup att [] d m = (Inr (), d, m)"
| "resolve_rows p ipv6_lookup att ((did, dname, origin_ipv6_text) # rows) d m =
     (case ipv6_lookup dname of
        Found (new_ip # _) \<Rightarrow>
          (let new_ip_str = ipv6_to_string new_ip
           in if new_ip_str \<noteq> origin_ipv6_text then
                (case run_query (update_fault (att did)) (update_origin p new_ip_str did) d of
                   (Inl e, d) \<Rightarrow> (Inl (QueryFailed e), d, m)
                 | (Inr _, d) \<Rightarrow>
                     (case insert_nat_entry (map_ok (att did)) did new_ip m of
                        (Inl e, m) \<Rightarrow> (Inl e, d, m)
                      | (Inr _, m) \<Rightarrow> resolve_rows p ipv6_lookup att rows d m))
              else resolve_rows p ipv6_lookup att rows d m)
      | _ \<Rightarrow> resolve_rows p ipv6_lookup att rows d m)"

definition resolve_all ::
  "pg \<Rightarrow> fault \<Rightarrow> (string \<Rightarrow> lookup_result) \<Rightarrow> (i32 \<Rightarrow> attempt) \<Rightarrow> db \<Rightarrow> bpf_maps \<Rightarrow>
   (daemon_error + unit) \<times> db \<times> bpf_maps" where
  "resolve_all p f ipv6_lookup att d m =
     (case run_query f (\<lambda>d. (Inr (all_domains p d), d)) d of
        (Inl e, d) \<Rightarrow> (Inl (QueryFailed e), d, m)
      | (Inr rows, d) \<Rightarrow> resolve_rows p ipv6_lookup att rows d m)"

text \<open>An error of one pass is logged, and the next pass goes on from the state it left.\<close>

fun run_periodic_resolver ::
  "pg \<Rightarrow> (fault \<times> (string \<Rightarrow> lookup_result) \<times> (i32 \<Rightarrow> attempt)) list \<Rightarrow> db \<Rightarrow> bpf_maps \<Rightarrow> db \<times> bpf_maps" where
  "run_periodic_resolver p [] d m = (d, m)"
| "run_periodic_resolver p ((f, ipv6_lookup, att) # ticks) d m =
     (let (_, d, m) = resolve_all p f ipv6_lookup att d m in run_periodic_resolver p ticks d m)"

section \<open>The map that the database describes\<close>

definition nat_of_db :: "db \<Rightarrow> u32 \<rightharpoonup> NatEntry" where
  "nat_of_db d i = map_option (\<lambda>r. \<lparr> origin_ipv6 = row_origin r \<rparr>) (row_by_id d i)"

definition in_sync :: "db \<Rightarrow> bpf_maps \<Rightarrow> bool" where
  "in_sync d m \<longleftrightarrow> (\<forall>r \<in> set (domains d). NAT_MAP m (row_domain_id r) = Some \<lparr> origin_ipv6 = row_origin r \<rparr>)"

section \<open>Lemmas\<close>

lemma insert_nat_entry_ok [simp]:
  "insert_nat_entry True did origin m = (Inr (), m \<lparr> NAT_MAP := (NAT_MAP m)(did \<mapsto> \<lparr> origin_ipv6 = origin \<rparr>) \<rparr>)"
  by (simp add: insert_nat_entry_def)

lemma in_sync_nat_of_db: "db_ok d \<Longrightarrow> in_sync d m \<Longrightarrow> nat_of_db d \<subseteq>\<^sub>m NAT_MAP m"
  by (auto simp: map_le_def nat_of_db_def in_sync_def row_by_id_mem dest!: row_by_id_Some)

lemma nat_of_db_mem: "db_ok d \<Longrightarrow> r \<in> set (domains d) \<Longrightarrow> nat_of_db d (row_domain_id r) = Some \<lparr> origin_ipv6 = row_origin r \<rparr>"
  by (simp add: nat_of_db_def row_by_id_mem)

lemma db_ok_origin: "db_ok d \<Longrightarrow> r \<in> set (domains d) \<Longrightarrow> length (row_origin r) = 16"
  using db_ok_row row_ok_def by blast

lemma bulk_rows_success: "bulk_rows ok rows m = (Inr u, m') \<Longrightarrow> bulk_rows (\<lambda>_. True) rows m = (Inr u, m')"
proof (induction ok rows m rule: bulk_rows.induct)
  case (2 ok did tx rows m)
  then show ?case by (cases "ok did") (auto simp: insert_nat_entry_def split: option.splits)
qed simp

context inet_text
begin

text \<open>Loading rows with distinct ids adds them to the map.\<close>

lemma bulk_rows_ok:
  assumes "\<forall>r \<in> set rs. length (row_origin r) = 16" "distinct (map row_domain_id rs)"
  shows "\<exists>m'. bulk_rows (\<lambda>_. True) (map (\<lambda>r. (row_domain_id r, host p (row_origin r))) rs) m = (Inr (), m') \<and>
    m' = m \<lparr> NAT_MAP := \<lambda>i. case find (\<lambda>r. row_domain_id r = i) rs of
               Some r \<Rightarrow> Some \<lparr> origin_ipv6 = row_origin r \<rparr> | None \<Rightarrow> NAT_MAP m i \<rparr>"
  using assms
proof (induction rs arbitrary: m)
  case (Cons r rs)
  let ?m = "m \<lparr> NAT_MAP := (NAT_MAP m)(row_domain_id r \<mapsto> \<lparr> origin_ipv6 = row_origin r \<rparr>) \<rparr>"
  have "find (\<lambda>r'. row_domain_id r' = row_domain_id r) rs = None"
    using Cons.prems(2) by (auto simp: find_None_iff image_iff)
  then have "(\<lambda>i. case find (\<lambda>r. row_domain_id r = i) rs of Some r \<Rightarrow> Some \<lparr> origin_ipv6 = row_origin r \<rparr> | None \<Rightarrow> NAT_MAP ?m i) =
      (\<lambda>i. case find (\<lambda>r. row_domain_id r = i) (r # rs) of Some r \<Rightarrow> Some \<lparr> origin_ipv6 = row_origin r \<rparr> | None \<Rightarrow> NAT_MAP m i)"
    by (auto simp: fun_eq_iff split: option.split)
  then show ?case using Cons.IH [of ?m] Cons.prems by (simp add: host_text)
qed simp

lemma bulk_rows_db:
  assumes "db_ok d"
  shows "bulk_rows (\<lambda>_. True) (all_origins p d) m = (Inr (), m \<lparr> NAT_MAP := NAT_MAP m ++ nat_of_db d \<rparr>)"
proof -
  have "\<forall>r \<in> set (domains d). length (row_origin r) = 16" "distinct (map row_domain_id (domains d))"
    using assms db_ok_origin by (auto simp: db_ok_def)
  moreover have "(\<lambda>i. case find (\<lambda>r. row_domain_id r = i) (domains d) of
      Some r \<Rightarrow> Some \<lparr> origin_ipv6 = row_origin r \<rparr> | None \<Rightarrow> NAT_MAP m i) = NAT_MAP m ++ nat_of_db d"
    by (auto simp: fun_eq_iff map_add_def nat_of_db_def row_by_id_def split: option.split)
  ultimately show ?thesis using bulk_rows_ok [of "domains d" m] by (simp add: all_origins_def)
qed

text \<open>A bulk load that succeeds has met no fault.\<close>

lemma bulk_load_result:
  assumes "db_ok d" "bulk_load_from_db p f open_ok ok d m = (Inr n, m')"
  shows "m' = m \<lparr> NAT_MAP := NAT_MAP m ++ nat_of_db d \<rparr>"
  using assms(2) bulk_rows_success [of ok "all_origins p d" m "()" m'] bulk_rows_db [OF assms(1), of m]
  by (cases f) (auto simp: bulk_load_from_db_def run_query_def split: prod.splits sum.splits if_splits)

lemma same_text:
  assumes "length a = 16" "length b = 16" "ipv6_to_string a = host p b"
  shows "a = b"
  using assms ipv6_from_to_string [of a] host_text [of b] by simp

end

section \<open>Properties\<close>

text \<open>
  With every call successful, the bulk load of a well-formed database
  into an empty map makes the map exactly the one that the database describes, and returns the
  number of rows; entries that were there before stay for ids without a row.
\<close>

theorem bulk_load_refines:
  assumes "inet_text p" "db_ok d"
  shows "\<exists>m'. bulk_load_from_db p Fine True (\<lambda>_. True) d m = (Inr (length (domains d)), m') \<and>
    m' = m \<lparr> NAT_MAP := NAT_MAP m ++ nat_of_db d \<rparr> \<and> in_sync d m' \<and>
    (NAT_MAP m = Map.empty \<longrightarrow> NAT_MAP m' = nat_of_db d)"
proof -
  define m' where "m' = m \<lparr> NAT_MAP := NAT_MAP m ++ nat_of_db d \<rparr>"
  have "in_sync d m'"
    unfolding m'_def by (auto simp: in_sync_def map_add_def nat_of_db_mem [OF assms(2)])
  moreover have "bulk_load_from_db p Fine True (\<lambda>_. True) d m = (Inr (length (domains d)), m')"
    using inet_text.bulk_rows_db [OF assms, of m] by (simp add: bulk_load_from_db_def run_query_def m'_def all_origins_def)
  ultimately show ?thesis by (auto simp: m'_def)
qed

theorem bulk_load_refines_witness:
  "\<exists>m'. bulk_load_from_db std_pg Fine True (\<lambda>_. True) initial_db initial_maps = (Inr 0, m') \<and> NAT_MAP m' = Map.empty"
  using bulk_load_refines [OF std.inet_text_axioms db_ok_initial, of initial_maps]
  by (auto simp: initial_db_def initial_maps_def nat_of_db_def row_by_id_def map_add_def)

text \<open>What a pass of the periodic resolver makes of a row.\<close>

definition resolved :: "(string \<Rightarrow> lookup_result) \<Rightarrow> domain_rec \<Rightarrow> domain_rec" where
  "resolved ipv6_lookup r = (case ipv6_lookup (row_domain r) of Found (ip # _) \<Rightarrow> r \<lparr> row_origin := ip \<rparr> | _ \<Rightarrow> r)"

definition no_fault :: attempt where
  "no_fault = \<lparr> update_fault = Fine, map_ok = True \<rparr>"

text \<open>All addresses that the resolver returns are IPv6 addresses.\<close>

definition lookup_ok :: "(string \<Rightarrow> lookup_result) \<Rightarrow> bool" where
  "lookup_ok ipv6_lookup \<longleftrightarrow> (\<forall>dname. case ipv6_lookup dname of Found ips \<Rightarrow> \<forall>ip \<in> set ips. length ip = 16 | _ \<Rightarrow> True)"

lemma resolved_fields [simp]:
  "row_domain (resolved lk r) = row_domain r" "row_domain_id (resolved lk r) = row_domain_id r"
  "row_synthetic (resolved lk r) = row_synthetic r"
  by (simp_all add: resolved_def split: lookup_result.split list.split)

lemma update_one:
  assumes "distinct (map row_domain_id (pre @ r # rs))"
  shows "map (\<lambda>r'. if row_domain_id r' = row_domain_id r then f r' else r') (pre @ r # rs) = pre @ f r # rs"
  using assms by (auto simp: image_iff intro!: map_idI)

context inet_text
begin

lemma resolve_row:
  assumes "db_ok d" "domains d = pre @ r # rs" "lookup_ok lk" "in_sync d m"
  shows "\<exists>d' m'. resolve_rows p lk (\<lambda>_. no_fault) ((row_domain_id r, row_domain r, host p (row_origin r)) # rows) d m =
      resolve_rows p lk (\<lambda>_. no_fault) rows d' m' \<and>
    db_ok d' \<and> domains d' = pre @ resolved lk r # rs \<and> in_sync d' m'"
proof (cases "\<exists>ip ips. lk (row_domain r) = Found (ip # ips) \<and> ipv6_to_string ip \<noteq> host p (row_origin r)")
  case True
  then obtain ip ips where ip: "lk (row_domain r) = Found (ip # ips)" "ipv6_to_string ip \<noteq> host p (row_origin r)" by blast
  then have len: "length ip = 16" using assms(3) by (auto simp: lookup_ok_def dest!: spec [of _ "row_domain r"])
  obtain d1 where d1: "update_origin p (ipv6_to_string ip) (row_domain_id r) d = (Inr (), d1)"
    by (simp add: update_origin_def inet_in_text [OF len])
  let ?m = "m \<lparr> NAT_MAP := (NAT_MAP m)(row_domain_id r \<mapsto> \<lparr> origin_ipv6 = ip \<rparr>) \<rparr>"
  have dist: "distinct (map row_domain_id (pre @ r # rs))" using assms(1,2) by (simp add: db_ok_def)
  have rows': "domains d1 = pre @ resolved lk r # rs"
    using update_one [OF dist, of "\<lambda>r. r \<lparr> row_origin := ip \<rparr>"] assms(2) ip(1) d1
    by (auto simp: update_origin_def inet_in_text [OF len] resolved_def)
  have "db_ok d1"
    using update_origin_keeps [OF assms(1) inet_in_text [OF len] len, of "row_domain_id r"] d1 by (simp add: keeps_def)
  moreover have "in_sync d1 ?m"
    using assms(4) dist ip(1) unfolding in_sync_def rows' assms(2) by (auto simp: resolved_def image_iff)
  ultimately show ?thesis
    using ip rows' d1 by (intro exI [of _ d1] exI [of _ ?m]) (simp add: no_fault_def run_query_def)
next
  case False
  have "resolved lk r = r"
  proof (cases "\<exists>ip ips. lk (row_domain r) = Found (ip # ips)")
    case True
    then obtain ip ips where ip: "lk (row_domain r) = Found (ip # ips)" by blast
    then have "length ip = 16" using assms(3) by (auto simp: lookup_ok_def dest!: spec [of _ "row_domain r"])
    moreover have "length (row_origin r) = 16" using assms(1,2) db_ok_origin by simp
    ultimately have "ip = row_origin r" using same_text False ip by blast
    then show ?thesis using ip by (simp add: resolved_def)
  qed (auto simp: resolved_def split: lookup_result.split list.split)
  moreover have "resolve_rows p lk (\<lambda>_. no_fault) ((row_domain_id r, row_domain r, host p (row_origin r)) # rows) d m =
      resolve_rows p lk (\<lambda>_. no_fault) rows d m"
    using False by (auto split: lookup_result.split list.split)
  ultimately show ?thesis using assms by (intro exI [of _ d] exI [of _ m]) simp
qed

lemma resolve_rows_ok:
  assumes "db_ok d" "domains d = pre @ rs" "lookup_ok lk" "in_sync d m"
  shows "\<exists>d' m'. resolve_rows p lk (\<lambda>_. no_fault) (map (\<lambda>r. (row_domain_id r, row_domain r, host p (row_origin r))) rs) d m =
      (Inr (), d', m') \<and> db_ok d' \<and> domains d' = pre @ map (resolved lk) rs \<and> in_sync d' m'"
  using assms
proof (induction rs arbitrary: pre d m)
  case (Cons r rs)
  let ?rows = "map (\<lambda>r. (row_domain_id r, row_domain r, host p (row_origin r))) rs"
  obtain d1 m1 where s1: "resolve_rows p lk (\<lambda>_. no_fault) ((row_domain_id r, row_domain r, host p (row_origin r)) # ?rows) d m =
      resolve_rows p lk (\<lambda>_. no_fault) ?rows d1 m1"
    "db_ok d1" "domains d1 = pre @ resolved lk r # rs" "in_sync d1 m1"
    using resolve_row [OF Cons.prems, of ?rows] by blast
  then show ?case
    using Cons.IH [of d1 "pre @ [resolved lk r]" m1] Cons.prems(3) by simp
qed auto

end



section \<open>Reconnects\<close>

text \<open>The number of short runs in a row up to round \<open>i\<close>, after \<open>j\<close> short runs before the first.\<close>

definition short_runs :: "nat \<Rightarrow> round list \<Rightarrow> nat \<Rightarrow> nat" where
  "short_runs j rs i =
     (let short = takeWhile (\<lambda>r. elapsed r < HEALTHY_RUN_THRESHOLD) (rev (take (Suc i) rs))
      in if length short = Suc i then j + Suc i else length short)"

lemma next_backoff_power:
  "next_backoff e (min MAX_BACKOFF (2 ^ j)) = min MAX_BACKOFF (2 ^ (if e < HEALTHY_RUN_THRESHOLD then Suc j else 0))"
proof -
  have "min (min 30 x * 2) 30 = min 30 (2 * x)" for x :: nat by simp
  then show ?thesis by (simp add: next_backoff_def INITIAL_BACKOFF_def MAX_BACKOFF_def)
qed

lemma short_runs_0: "short_runs j (r # rs) 0 = (if elapsed r < HEALTHY_RUN_THRESHOLD then Suc j else 0)"
  by (simp add: short_runs_def)

lemma short_runs_Suc:
  assumes "i < length rs"
  shows "short_runs j (r # rs) (Suc i) = short_runs (short_runs j (r # rs) 0) rs i"
proof -
  let ?P = "\<lambda>r. elapsed r < HEALTHY_RUN_THRESHOLD"
  let ?xs = "rev (take (Suc i) rs)"
  have len: "length ?xs = Suc i" using assms by simp
  show ?thesis
  proof (cases "\<forall>x \<in> set ?xs. ?P x")
    case True
    then have "takeWhile ?P ?xs = ?xs" "takeWhile ?P (?xs @ [r]) = ?xs @ takeWhile ?P [r]"
      using takeWhile_append2 [of ?xs ?P "[r]"] by (simp_all only: takeWhile_eq_all_conv)
    then show ?thesis using len by (simp add: short_runs_def Let_def del: takeWhile_eq_all_conv)
  next
    case False
    then obtain x where x: "x \<in> set ?xs" "\<not> ?P x" by blast
    then have "takeWhile ?P (?xs @ [r]) = takeWhile ?P ?xs" by (rule takeWhile_append1)
    moreover have "length (takeWhile ?P ?xs) \<noteq> Suc i"
      using x len takeWhile_eq_take [of ?P ?xs] set_takeWhileD [of x ?P ?xs] by (metis order_refl take_all)
    moreover have "length (takeWhile ?P ?xs) \<noteq> Suc (Suc i)"
      using len length_takeWhile_le [of ?P ?xs] by simp
    ultimately show ?thesis by (simp add: short_runs_def)
  qed
qed

lemma supervise_sleeps:
  "supervise p (min MAX_BACKOFF (2 ^ j)) rs m = (e, sleeps, m') \<Longrightarrow>
   length sleeps \<le> length rs \<and> (\<forall>i < length sleeps. sleeps ! i = min MAX_BACKOFF (2 ^ short_runs j rs i))"
proof (induction rs arbitrary: j m e sleeps m')
  case (Cons r rs)
  let ?j = "short_runs j (r # rs) 0"
  have b: "next_backoff (elapsed r) (min MAX_BACKOFF (2 ^ j)) = min MAX_BACKOFF (2 ^ ?j)"
    by (simp add: next_backoff_power short_runs_0)
  show ?case
  proof (cases "sleeps = []")
    case False
    then obtain m1 xs where s: "supervise p (min MAX_BACKOFF (2 ^ ?j)) rs m1 = (e, xs, m')"
      and xs: "sleeps = min MAX_BACKOFF (2 ^ ?j) # xs"
      using Cons.prems b by (simp add: Let_def split: if_splits prod.splits option.splits)
    have IH: "length xs \<le> length rs" "\<forall>i < length xs. xs ! i = min MAX_BACKOFF (2 ^ short_runs ?j rs i)"
      using Cons.IH [OF s] by auto
    show ?thesis unfolding xs
    proof (intro conjI allI impI)
      fix i assume i: "i < length (min MAX_BACKOFF (2 ^ ?j) # xs)"
      show "(min MAX_BACKOFF (2 ^ ?j) # xs) ! i = min MAX_BACKOFF (2 ^ short_runs j (r # rs) i)"
      proof (cases i)
        case (Suc k)
        then show ?thesis using IH i short_runs_Suc [of k rs j r] by simp
      qed simp
    qed (use IH in simp)
  qed simp
qed simp

lemma supervise_end:
  "supervise p b rs m = (e, sleeps, m') \<Longrightarrow> e \<noteq> None \<Longrightarrow> length sleeps < length rs \<and> \<not> pool_ok (rs ! length sleeps)"
proof (induction rs arbitrary: b m e sleeps m')
  case (Cons r rs)
  then show ?case by (fastforce simp: Let_def split: if_splits prod.splits option.splits)
qed simp

text \<open>A listener ends with an error, never normally.\<close>

lemma listen_loop_error: "listen_loop p rs m = (Some x, m') \<Longrightarrow> \<exists>e. x = Inl e"
  by (induction p rs m rule: listen_loop.induct) (auto split: prod.splits sum.splits)

lemma run_listener_error: "run_listener p c l rs m = (Some x, m') \<Longrightarrow> \<exists>e. x = Inl e"
  using listen_loop_error by (auto simp: run_listener_def split: if_splits)

text \<open>
  C27. The supervisor of the listener ends only when it cannot create a pool, in
  whichever round that is, and the pause after a round is 2 to the power of the number of short
  runs in a row, at most 30 seconds.
\<close>

theorem backoff_schedule:
  assumes "listen_for_changes p rs m = (e, sleeps, m')"
  shows "(\<forall>i < length sleeps. sleeps ! i = min 30 (2 ^ short_runs 0 rs i)) \<and>
    (e \<noteq> None \<longrightarrow> length sleeps < length rs \<and> \<not> pool_ok (rs ! length sleeps))"
proof -
  have "supervise p (min MAX_BACKOFF (2 ^ 0)) rs m = (e, sleeps, m')"
    using assms by (simp add: listen_for_changes_def INITIAL_BACKOFF_def MAX_BACKOFF_def)
  from supervise_sleeps [OF this] supervise_end [OF this] show ?thesis by (simp add: MAX_BACKOFF_def)
qed

definition sample_round :: "bool \<Rightarrow> round" where
  "sample_round ok = \<lparr> pool_ok = ok, connect_ok = True, listen_ok = True, events = [ConnectionLost], elapsed = 0 \<rparr>"

theorem backoff_schedule_witness:
  "listen_for_changes std_pg [sample_round True, sample_round True, sample_round False] initial_maps = (Some ConnectFailed, [2, 4], initial_maps) \<and>
   (4 :: nat) = min 30 (2 ^ short_runs 0 [sample_round True, sample_round True, sample_round False] 1)"
proof -
  have "listen_for_changes std_pg [sample_round True, sample_round True, sample_round False] initial_maps = (Some ConnectFailed, [2, 4], initial_maps)"
    by (simp add: listen_for_changes_def sample_round_def run_listener_def next_backoff_def INITIAL_BACKOFF_def
        HEALTHY_RUN_THRESHOLD_def MAX_BACKOFF_def)
  with backoff_schedule [OF this] show ?thesis by (auto dest!: spec [of _ 1])
qed

end
