(* ===== verification/System.thy ===== *)
theory System
  imports Daemon
begin

text \<open>
  The control plane as a whole: the queries of the DNS server, the database, the listener and
  the periodic resolver of the daemon, and the map \<open>NAT_MAP\<close>, as a transition system whose
  steps interleave in any order.
\<close>

section \<open>The transition system\<close>

text \<open>\<open>resolving\<close>: the resolver has updated a row and not yet stored the address in the map.\<close>

record system =
  sys_db :: db
  sys_maps :: bpf_maps
  tasks :: "task list"
  resolving :: "(i32 \<times> bytes) option"

datatype event =
    Arrive string
  | Proceed nat outcome
  | Listen
  | Disconnect
  | Receive fault bool
  | Update i32 bytes fault
  | Store bool

definition set_queue :: "string list option \<Rightarrow> system \<Rightarrow> system" where
  "set_queue q s = s \<lparr> sys_db := (sys_db s) \<lparr> domain_changes := q \<rparr> \<rparr>"

definition sys_step :: "pg \<Rightarrow> event \<Rightarrow> system \<Rightarrow> system" where
  "sys_step p ev s =
     (case ev of
        Arrive dname \<Rightarrow> s \<lparr> tasks := tasks s @ [Finding dname] \<rparr>
      | Proceed i oc \<Rightarrow>
          if i < length (tasks s) then
            let (t, d) = aaaa_step p oc (tasks s ! i) (sys_db s)
            in s \<lparr> tasks := (tasks s)[i := t], sys_db := d \<rparr>
          else s
      | Listen \<Rightarrow> set_queue (Some []) s
      | Disconnect \<Rightarrow> set_queue None s
      | Receive f ok \<Rightarrow>
          (case domain_changes (sys_db s) of
             Some (payload # q) \<Rightarrow>
               (case handle_notification p f ok payload (sys_db s) (sys_maps s) of
                  (Inl _, m) \<Rightarrow> set_queue None (s \<lparr> sys_maps := m \<rparr>)
                | (Inr _, m) \<Rightarrow> set_queue (Some q) (s \<lparr> sys_maps := m \<rparr>))
           | _ \<Rightarrow> s)
      | Update did ip f \<Rightarrow>
          if resolving s = None \<and> row_by_id (sys_db s) did \<noteq> None then
            (case run_query f (update_origin p (ipv6_to_string ip) did) (sys_db s) of
               (Inl _, d) \<Rightarrow> s \<lparr> sys_db := d \<rparr>
             | (Inr _, d) \<Rightarrow> s \<lparr> sys_db := d, resolving := Some (did, ip) \<rparr>)
          else s
      | Store ok \<Rightarrow>
          (case resolving s of
             None \<Rightarrow> s
           | Some (did, ip) \<Rightarrow> s \<lparr> sys_maps := snd (insert_nat_entry ok did ip (sys_maps s)), resolving := None \<rparr>))"

text \<open>
  A row that the periodic resolver handles is an update and a store: what the pass does with
  it is what these two events do, if no other step comes between them.
\<close>

lemma resolver_events:
  assumes "ipv6_lookup dname = Found (ip # ips)" "ipv6_to_string ip \<noteq> tx" "row_by_id d did \<noteq> None"
    and "resolve_rows p ipv6_lookup att [(did, dname, tx)] d m = (r, d', m')"
  shows "sys_step p (Store (map_ok (att did)))
      (sys_step p (Update did ip (update_fault (att did))) \<lparr> sys_db = d, sys_maps = m, tasks = ts, resolving = None \<rparr>) =
    \<lparr> sys_db = d', sys_maps = m', tasks = ts, resolving = None \<rparr>"
  using assms
  by (auto simp: sys_step_def split: prod.splits sum.splits)

text \<open>The addresses in events are IPv6 addresses.\<close>

definition event_ok :: "event \<Rightarrow> bool" where
  "event_ok ev = (case ev of Proceed _ oc \<Rightarrow> lookup_ok (upstream oc) | Update _ ip _ \<Rightarrow> length ip = 16 | _ \<Rightarrow> True)"

text \<open>The states that steps reach which satisfy a condition.\<close>

inductive sys_reach :: "pg \<Rightarrow> (system \<Rightarrow> event \<Rightarrow> bool) \<Rightarrow> system \<Rightarrow> system \<Rightarrow> bool" for p allowed s0 where
  refl: "sys_reach p allowed s0 s0"
| step: "sys_reach p allowed s0 s \<Longrightarrow> event_ok ev \<Longrightarrow> allowed s ev \<Longrightarrow> sys_reach p allowed s0 (sys_step p ev s)"

definition initial_system :: "bpf_maps \<Rightarrow> system" where
  "initial_system m = \<lparr> sys_db = initial_db, sys_maps = m, tasks = [], resolving = None \<rparr>"

section \<open>Answers\<close>

text \<open>What is true of a task at every time: a finished one that returned an address found it in the row of the domain.\<close>

fun task_ok :: "db \<Rightarrow> task \<Rightarrow> bool" where
  "task_ok d (Finding _) = True"
| "task_ok d (Allocating _ origin) = (length origin = 16)"
| "task_ok d (Inserting _ origin i) = (length origin = 16 \<and> allocated (domain_id_seq d) i)"
| "task_ok d (Finished dname (Inr (rc, Some (ttl, a)))) =
     (rc = NoError \<and> (\<exists>r. row_of d dname = Some r \<and> row_synthetic r = a))"
| "task_ok d (Finished dname _) = True"

lemma task_ok_keeps: "keeps d d' \<Longrightarrow> task_ok d t \<Longrightarrow> task_ok d' t"
proof (induction d t rule: task_ok.induct)
  case (3 d dn origin i)
  then show ?case using allocated_mono by (auto simp: keeps_def extends_def)
next
  case (4 d dname rc ttl a)
  then show ?case using extends_row_of [of d' d dname] by (fastforce simp: keeps_def)
qed auto

context inet_text
begin

lemma row_synthetic_text:
  assumes "db_ok d" "row_of d dname = Some r"
  shows "ipv6_from_str (host p (row_synthetic r)) = Some (row_synthetic r)"
proof -
  have "row_ok (domain_id_seq d) r" using assms row_of_Some db_ok_row by blast
  then show ?thesis by (simp add: row_ok_def host_text)
qed

lemma find_step_ok:
  assumes "db_ok d" "lookup_ok (upstream oc)" "aaaa_step p oc (Finding dname) d = (t', d')"
  shows "keeps d d' \<and> task_ok d' t'"
proof -
  have k: "run_query (find_fault oc) (find_by_domain p dname) d = (x, d'') \<Longrightarrow> d'' = d" for x d''
    by (auto simp: run_query_def find_by_domain_def split: fault.splits)
  have "length ip = 16" if "lookup_aaaa (upstream oc) dname = Inr (Some ip)" for ip
    using that assms(2) by (auto simp: lookup_aaaa_def lookup_ok_def dest!: spec [of _ dname] split: lookup_result.splits if_splits list.splits)
  moreover have "d' = d"
    using assms(3) k by (auto simp: aaaa_step_def split: prod.splits sum.splits option.splits)
  ultimately show ?thesis
    using assms row_synthetic_text [OF assms(1), of dname]
    by (cases "row_of d dname")
      (auto simp: aaaa_step_def keeps_def find_by_domain_row run_query_def split: fault.splits sum.splits option.splits)
qed

lemma alloc_step_ok:
  assumes "db_ok d" "length origin = 16" "aaaa_step p oc (Allocating dname origin) d = (t', d')"
  shows "keeps d d' \<and> task_ok d' t'"
proof -
  have k: "keeps d (snd (run_query (alloc_fault oc) next_domain_id d))"
    using assms(1) next_domain_id_keeps by (blast intro: run_query_keeps)
  obtain x d'' where x: "run_query (alloc_fault oc) next_domain_id d = (x, d'')" by fastforce
  then have "d'' = d'" using assms(3) by (auto simp: aaaa_step_def split: sum.splits)
  then show ?thesis
    using assms k x next_domain_id_allocated [OF assms(1)] run_query_Inr [of "alloc_fault oc" next_domain_id d]
    by (auto simp: aaaa_step_def split: sum.splits)
qed

lemma insert_step_ok:
  assumes "db_ok d" "length origin = 16" "allocated (domain_id_seq d) i" "aaaa_step p oc (Inserting dname origin i) d = (t', d')"
  shows "keeps d d' \<and> task_ok d' t'"
proof -
  let ?q = "insert_domain p i dname (ipv6_to_string origin) (ipv6_to_string (synthetic_ipv6 i)) 300"
  have q: "keeps d (snd (?q d))"
    using assms(1-3) by (intro insert_domain_keeps) (simp_all add: inet_in_text)
  have k: "keeps d (snd (run_query (insert_fault oc) ?q d))" by (rule run_query_keeps [OF assms(1)]) (rule q)
  obtain x d'' where x: "run_query (insert_fault oc) ?q d = (x, d'')" by fastforce
  then have d': "d'' = d'" using assms(4) by (auto simp: aaaa_step_def split: sum.splits option.splits)
  show ?thesis
  proof (cases x)
    case (Inl e)
    then show ?thesis using assms(4) x k d' by (auto simp: aaaa_step_def)
  next
    case (Inr y)
    obtain j tx where y: "y = (j, tx)" by fastforce
    have "?q d = (Inr (j, tx), d')" by (rule run_query_Inr [of "insert_fault oc"]) (simp add: x Inr y d')
    then obtain r where r: "row_of d' dname = Some r" "tx = host p (row_synthetic r)"
      using insert_domain_result [OF assms(1), of p i dname] by metis
    have "db_ok d'" using k x d' by (simp add: keeps_def)
    then have "ipv6_from_str tx = Some (row_synthetic r)" using row_synthetic_text r by blast
    then show ?thesis using assms(4) x k d' Inr y r by (auto simp: aaaa_step_def)
  qed
qed

lemma aaaa_step_ok:
  assumes "db_ok d" "task_ok d t" "lookup_ok (upstream oc)" "aaaa_step p oc t d = (t', d')"
  shows "keeps d d' \<and> task_ok d' t'"
proof (cases t)
  case (Finished dn r)
  then show ?thesis using assms by (auto simp: aaaa_step_def keeps_def)
qed (use assms find_step_ok alloc_step_ok insert_step_ok in auto)

end

text \<open>The invariant of the system.\<close>

definition sys_ok :: "system \<Rightarrow> bool" where
  "sys_ok s \<longleftrightarrow> db_ok (sys_db s) \<and> list_all (task_ok (sys_db s)) (tasks s)"

lemma keeps_queue [simp]: "keeps d (d' \<lparr> domain_changes := q \<rparr>) = keeps d d'"
  by (simp add: keeps_def db_ok_def extends_def)

lemma sys_ok_keeps:
  "sys_ok s \<Longrightarrow> keeps (sys_db s) (sys_db s') \<Longrightarrow> tasks s' = tasks s \<Longrightarrow> sys_ok s'"
  using task_ok_keeps by (auto simp: sys_ok_def list_all_iff keeps_def)

lemma keeps_refl: "db_ok d \<Longrightarrow> keeps d d"
  by (simp add: keeps_def)

lemma list_all_update: "list_all P xs \<Longrightarrow> P x \<Longrightarrow> list_all P (xs[i := x])"
  by (auto simp: list_all_iff dest!: set_update_subset_insert [THEN subsetD])

context inet_text
begin

lemma proceed_ok:
  assumes "sys_ok s" "lookup_ok (upstream oc)" "i < length (tasks s)"
  shows "sys_ok (sys_step p (Proceed i oc) s)"
proof -
  obtain t d where st: "aaaa_step p oc (tasks s ! i) (sys_db s) = (t, d)" by fastforce
  have "task_ok (sys_db s) (tasks s ! i)" using assms(1,3) by (simp add: sys_ok_def list_all_length)
  then have k: "keeps (sys_db s) d" "task_ok d t"
    using aaaa_step_ok [OF _ _ assms(2) st] assms(1) by (auto simp: sys_ok_def)
  then have "list_all (task_ok d) (tasks s)"
    using assms(1) task_ok_keeps by (auto simp: sys_ok_def list_all_iff)
  then show ?thesis
    using k st assms(3) by (simp add: sys_step_def sys_ok_def list_all_update keeps_def)
qed

lemma update_ok:
  assumes "sys_ok s" "length ip = 16"
  shows "sys_ok (sys_step p (Update did ip f) s)"
proof -
  have d: "db_ok (sys_db s)" using assms(1) by (simp add: sys_ok_def)
  then have "keeps (sys_db s) (snd (update_origin p (ipv6_to_string ip) did (sys_db s)))"
    using update_origin_keeps inet_in_text assms(2) by blast
  then have "keeps (sys_db s) (snd (run_query f (update_origin p (ipv6_to_string ip) did) (sys_db s)))"
    using d by (blast intro: run_query_keeps)
  then show ?thesis
    using assms(1) by (auto simp: sys_step_def split: prod.splits sum.splits intro: sys_ok_keeps)
qed

lemma sys_step_ok:
  assumes "sys_ok s" "event_ok ev"
  shows "sys_ok (sys_step p ev s)"
proof -
  have d: "keeps (sys_db s) (sys_db s)" using assms(1) by (simp add: sys_ok_def keeps_refl)
  show ?thesis
  proof (cases ev)
    case (Arrive dname)
    then show ?thesis using assms(1) by (simp add: sys_step_def sys_ok_def)
  next
    case (Proceed i oc)
    then show ?thesis
      using assms proceed_ok [of s oc i] by (cases "i < length (tasks s)") (auto simp: event_ok_def sys_step_def)
  next
    case (Update did ip f)
    then show ?thesis using assms update_ok by (simp add: event_ok_def)
  next
    case (Receive f ok)
    then show ?thesis
      using assms(1) d
      by (auto simp: sys_step_def set_queue_def split: option.split list.split prod.split sum.split intro: sys_ok_keeps)
  qed (use assms(1) d in \<open>auto simp: sys_step_def set_queue_def split: option.split intro: sys_ok_keeps\<close>)
qed

lemma sys_reach_ok: "sys_reach p al s0 s \<Longrightarrow> sys_ok s0 \<Longrightarrow> sys_ok s"
  by (induction rule: sys_reach.induct) (simp_all add: sys_step_ok)

end

lemma sys_ok_initial: "sys_ok (initial_system m)"
  by (simp add: sys_ok_def initial_system_def db_ok_initial)

text \<open>A query that has been answered with an address.\<close>

definition answered :: "system \<Rightarrow> string \<Rightarrow> bytes \<Rightarrow> bool" where
  "answered s dname a \<longleftrightarrow> (\<exists>rc ttl. Finished dname (Inr (rc, Some (ttl, a))) \<in> set (tasks s))"

lemma answered_row:
  assumes "sys_ok s" "answered s dname a"
  shows "\<exists>r. row_of (sys_db s) dname = Some r \<and> r \<in> set (domains (sys_db s)) \<and> a = synthetic_ipv6 (row_domain_id r)"
proof -
  obtain r where r: "row_of (sys_db s) dname = Some r" "row_synthetic r = a"
    using assms by (auto simp: sys_ok_def answered_def list_all_iff dest!: bspec)
  moreover have "r \<in> set (domains (sys_db s))" using row_of_Some r by blast
  moreover from this have "row_ok (domain_id_seq (sys_db s)) r"
    using assms(1) db_ok_row by (simp add: sys_ok_def)
  ultimately show ?thesis by (auto simp: row_ok_def)
qed

text \<open>
  C3. However the queries of the DNS server, the updates of the resolver and
  the failures of the database interleave, all answers for one domain are the same address, and
  the answers for different domains are different addresses.
\<close>

theorem answers_stable:
  assumes "inet_text p" "sys_reach p (\<lambda>_ _. True) (initial_system m) s"
    and "answered s dname a" and "answered s dname' a'"
  shows "a = a' \<longleftrightarrow> dname = dname'"
proof -
  have ok: "sys_ok s" using inet_text.sys_reach_ok [OF assms(1,2) sys_ok_initial] .
  obtain r where r: "row_of (sys_db s) dname = Some r" "r \<in> set (domains (sys_db s))" "a = synthetic_ipv6 (row_domain_id r)"
    using answered_row [OF ok assms(3)] by blast
  obtain r' where r': "row_of (sys_db s) dname' = Some r'" "r' \<in> set (domains (sys_db s))" "a' = synthetic_ipv6 (row_domain_id r')"
    using answered_row [OF ok assms(4)] by blast
  have "a = a' \<longleftrightarrow> row_domain_id r = row_domain_id r'"
    using r(3) r'(3) by (metis domain_id_synthetic)
  also have "\<dots> \<longleftrightarrow> r = r'"
    using r(2) r'(2) ok by (auto simp: sys_ok_def db_ok_def distinct_map inj_on_eq_iff)
  also have "\<dots> \<longleftrightarrow> dname = dname'"
    using r(1) r'(1) row_of_Some by (metis option.inject)
  finally show ?thesis .
qed

section \<open>Notifications\<close>

definition payload :: "i32 \<Rightarrow> string" where
  "payload i = show_int (sint i)"

lemma parse_payload: "parse_i32 (payload i) = Some (sint i)"
proof -
  have "- (2 ^ 31) \<le> sint i" "sint i < 2 ^ 31"
    using sint_greater_eq [of i] sint_less [of i] by simp_all
  then show ?thesis by (intro parse_i32_show [of "sint i", folded payload_def]) simp_all
qed

lemma payload_inject [simp]: "payload i = payload j \<longleftrightarrow> i = j"
  using parse_payload [of i] parse_payload [of j] by (metis option.inject signed_word_eqI)

text \<open>Every row that a query adds or changes is announced.\<close>

definition announces :: "db \<Rightarrow> db \<Rightarrow> bool" where
  "announces d d' \<longleftrightarrow>
     (\<exists>ids. domain_changes d' = map_option (\<lambda>q. q @ map payload ids) (domain_changes d) \<and>
        (\<forall>r' \<in> set (domains d'). row_domain_id r' \<in> set ids \<or>
           (\<exists>r \<in> set (domains d). row_domain_id r = row_domain_id r' \<and> row_origin r = row_origin r')))"

lemma announces_refl: "announces d d"
  unfolding announces_def by (rule exI [of _ "[]"]) (auto simp: option.map_ident)

lemma fold_notify_queue:
  "domain_changes (fold (\<lambda>r. notify_domain_change (row_domain_id r)) rs d) =
     map_option (\<lambda>q. q @ map payload (map row_domain_id rs)) (domain_changes d)"
  by (induction rs arbitrary: d)
    (simp_all add: notify_domain_change_def option.map_comp o_def payload_def option.map_ident)

lemma insert_domain_announces:
  assumes "db_ok d"
  shows "announces d (snd (insert_domain p did dname origin synthetic ttl d))"
proof (cases "inet_in p origin")
  case None
  then show ?thesis by (simp add: insert_domain_def announces_refl)
next
  case (Some org)
  show ?thesis
  proof (cases "inet_in p synthetic")
    case None
    then show ?thesis using Some by (simp add: insert_domain_def announces_refl)
  next
    case (Some syn)
    show ?thesis
    proof (cases "row_of d dname")
      case None
      show ?thesis
      proof (cases "\<exists>r \<in> set (domains d). row_domain_id r = did")
        case True
        then show ?thesis using \<open>inet_in p origin = _\<close> Some None by (simp add: insert_domain_def row_of_def announces_refl)
      next
        case False
        then show ?thesis
          using \<open>inet_in p origin = _\<close> Some None unfolding announces_def
          by (intro exI [of _ "[did]"]) (auto simp: insert_domain_def row_of_def notify_domain_change_def payload_def)
      qed
    next
      case r: (Some r)
      then have "r' = r" if "r' \<in> set (domains d)" "row_domain r' = dname" for r'
        using row_of_mem [OF assms that(1)] that(2) by simp
      then show ?thesis
        using \<open>inet_in p origin = _\<close> Some r unfolding announces_def
        by (intro exI [of _ "[row_domain_id r]"]) (auto simp: insert_domain_def row_of_def notify_domain_change_def payload_def)
    qed
  qed
qed

lemma update_origin_announces:
  assumes "row_by_id d did \<noteq> None"
  shows "announces d (snd (update_origin p origin did d))"
proof (cases "inet_in p origin")
  case None
  then show ?thesis by (simp add: update_origin_def announces_refl)
next
  case (Some org)
  then show ?thesis
    unfolding announces_def
    by (intro exI [of _ "map row_domain_id (filter (\<lambda>r. row_domain_id r = did) (domains d))"])
      (auto simp: update_origin_def fold_notify_queue)
qed

lemma run_query_announces:
  "announces d (snd (query d)) \<Longrightarrow> announces d (snd (run_query f query d))"
  by (cases f) (simp_all add: run_query_def announces_refl)

lemma aaaa_step_announces:
  assumes "db_ok d" "aaaa_step p oc t d = (t', d')"
  shows "announces d d'"
proof (cases t)
  case (Finding dname)
  have "announces d (snd (run_query (find_fault oc) (find_by_domain p dname) d))"
    by (rule run_query_announces) (simp add: find_by_domain_def announces_refl)
  then show ?thesis
    using assms(2) Finding by (auto simp: aaaa_step_def split: prod.splits sum.splits option.splits)
next
  case (Allocating dname origin)
  have "announces d (snd (next_domain_id d))"
    unfolding announces_def by (rule exI [of _ "[]"]) (auto simp: next_domain_id_def option.map_ident)
  then have "announces d (snd (run_query (alloc_fault oc) next_domain_id d))" by (rule run_query_announces)
  then show ?thesis
    using assms(2) Allocating by (auto simp: aaaa_step_def split: prod.splits sum.splits)
next
  case (Inserting dname origin i)
  have "announces d (snd (run_query (insert_fault oc)
      (insert_domain p i dname (ipv6_to_string origin) (ipv6_to_string (synthetic_ipv6 i)) 300) d))"
    by (rule run_query_announces) (rule insert_domain_announces [OF assms(1)])
  then show ?thesis
    using assms(2) Inserting by (auto simp: aaaa_step_def split: prod.splits sum.splits option.splits)
next
  case (Finished dname r)
  then show ?thesis using assms(2) by (auto simp: aaaa_step_def announces_refl)
qed

section \<open>Agreement of map and database\<close>

text \<open>
  While the listener is connected, the map has the entry of every row or the row has a
  notification in the queue, and what the resolver is about to store is the origin of the row.
\<close>

definition covered :: "db \<Rightarrow> bpf_maps \<Rightarrow> string list \<Rightarrow> bool" where
  "covered d m q \<longleftrightarrow>
     (\<forall>r \<in> set (domains d). NAT_MAP m (row_domain_id r) = Some \<lparr> origin_ipv6 = row_origin r \<rparr> \<or>
        payload (row_domain_id r) \<in> set q)"

definition pending_ok :: "db \<Rightarrow> (i32 \<times> bytes) option \<Rightarrow> bool" where
  "pending_ok d pending =
     (case pending of
        None \<Rightarrow> True
      | Some (did, ip) \<Rightarrow> (\<exists>r. row_by_id d did = Some r \<and> row_origin r = ip))"

definition synced :: "system \<Rightarrow> bool" where
  "synced s \<longleftrightarrow>
     (\<exists>q. domain_changes (sys_db s) = Some q \<and> set q \<subseteq> range payload \<and>
        covered (sys_db s) (sys_maps s) q \<and> pending_ok (sys_db s) (resolving s))"

text \<open>
  Steps that do not lose a notification: the connection of the listener stays, the queries and
  map updates of the daemon succeed, and no query changes the row that the resolver has updated
  and not yet stored in the map.
\<close>

definition undisturbed :: "system \<Rightarrow> event \<Rightarrow> bool" where
  "undisturbed s ev =
     (case ev of
        Listen \<Rightarrow> False
      | Disconnect \<Rightarrow> False
      | Receive f ok \<Rightarrow> f = Fine \<and> ok
      | Store ok \<Rightarrow> ok
      | Proceed i _ \<Rightarrow>
          (case (resolving s, if i < length (tasks s) then tasks s ! i else Finding []) of
             (Some (did, _), Inserting dname _ _) \<Rightarrow>
               (case row_of (sys_db s) dname of Some r \<Rightarrow> row_domain_id r \<noteq> did | None \<Rightarrow> True)
           | _ \<Rightarrow> True)
      | _ \<Rightarrow> True)"

lemma queue_update [simp]:
  "row_by_id (d \<lparr> domain_changes := q \<rparr>) i = row_by_id d i"
  "covered (d \<lparr> domain_changes := q \<rparr>) m q' = covered d m q'"
  "pending_ok (d \<lparr> domain_changes := q \<rparr>) x = pending_ok d x"
  "db_ok (d \<lparr> domain_changes := q \<rparr>) = db_ok d"
  by (simp_all add: row_by_id_def covered_def pending_ok_def db_ok_def cong: option.case_cong prod.case_cong)

lemma announces_covered:
  assumes "announces d d'" "domain_changes d = Some q" "set q \<subseteq> range payload" "covered d m q"
  shows "\<exists>q'. domain_changes d' = Some q' \<and> set q' \<subseteq> range payload \<and> covered d' m q'"
proof -
  obtain ids where ids: "domain_changes d' = Some (q @ map payload ids)"
    "\<forall>r' \<in> set (domains d'). row_domain_id r' \<in> set ids \<or>
       (\<exists>r \<in> set (domains d). row_domain_id r = row_domain_id r' \<and> row_origin r = row_origin r')"
    using assms(1,2) by (auto simp: announces_def)
  have "covered d' m (q @ map payload ids)"
    unfolding covered_def
  proof
    fix r' assume "r' \<in> set (domains d')"
    then consider "row_domain_id r' \<in> set ids"
      | r where "r \<in> set (domains d)" "row_domain_id r = row_domain_id r'" "row_origin r = row_origin r'"
      using ids(2) by blast
    then show "NAT_MAP m (row_domain_id r') = Some \<lparr> origin_ipv6 = row_origin r' \<rparr> \<or>
        payload (row_domain_id r') \<in> set (q @ map payload ids)"
      using assms(4) by cases (auto simp: covered_def)
  qed
  then show ?thesis using ids(1) assms(3) by auto
qed

lemma row_by_id_keeps:
  assumes "db_ok d" "keeps d d'" "row_by_id d did = Some r"
  shows "\<exists>r'. row_by_id d' did = Some r' \<and> row_domain r' = row_domain r"
proof -
  have r: "r \<in> set (domains d)" "row_domain_id r = did" using row_by_id_Some [OF assms(3)] by auto
  then obtain r' where r': "r' \<in> set (domains d')" "row_domain_id r' = did" "row_domain r' = row_domain r"
    using assms(2) unfolding keeps_def extends_def by metis
  then show ?thesis using assms(2) row_by_id_mem [of d' r'] by (auto simp: keeps_def)
qed

text \<open>An insertion changes no row of another domain.\<close>

lemma insert_domain_other:
  "r' \<in> set (domains (snd (insert_domain p did dname origin synthetic ttl d))) \<Longrightarrow> row_domain r' \<noteq> dname \<Longrightarrow>
   r' \<in> set (domains d)"
  by (auto simp: insert_domain_def split: option.splits if_splits)

lemma aaaa_step_other:
  assumes "aaaa_step p oc t d = (t', d')" "r' \<in> set (domains d')" "\<And>dname origin i. t = Inserting dname origin i \<Longrightarrow> row_domain r' \<noteq> dname"
  shows "r' \<in> set (domains d)"
proof (cases t)
  case (Finding dname)
  have "domains (snd (run_query (find_fault oc) (find_by_domain p dname) d)) = domains d"
    by (simp add: run_query_def find_by_domain_def split: fault.split)
  then show ?thesis
    using assms Finding by (auto simp: aaaa_step_def split: prod.splits sum.splits option.splits)
next
  case (Allocating dname origin)
  have "domains (snd (run_query (alloc_fault oc) next_domain_id d)) = domains d"
    by (simp add: run_query_def next_domain_id_def split: fault.split)
  then show ?thesis
    using assms Allocating by (auto simp: aaaa_step_def split: prod.splits sum.splits)
next
  case (Inserting dname origin i)
  let ?q = "insert_domain p i dname (ipv6_to_string origin) (ipv6_to_string (synthetic_ipv6 i)) 300"
  have "d' = snd (run_query (insert_fault oc) ?q d)"
    using assms(1) Inserting by (auto simp: aaaa_step_def split: prod.splits sum.splits option.splits)
  then consider "d' = d" | "d' = snd (?q d)" by (cases "insert_fault oc") (simp_all add: run_query_def)
  then show ?thesis
  proof cases
    case 1
    then show ?thesis using assms(2) by simp
  next
    case 2
    show ?thesis
      by (rule insert_domain_other [OF assms(2) [unfolded 2]]) (rule assms(3) [OF Inserting])
  qed
next
  case (Finished dname r)
  then show ?thesis using assms by (auto simp: aaaa_step_def)
qed

lemma update_origin_row:
  assumes "inet_in p origin = Some org"
  shows "row_by_id (snd (update_origin p origin did d)) did = map_option (\<lambda>r. r \<lparr> row_origin := org \<rparr>) (row_by_id d did)"
proof -
  let ?f = "\<lambda>r. if row_domain_id r = did then r \<lparr> row_origin := org \<rparr> else r"
  have "row_by_id (snd (update_origin p origin did d)) did = map_option ?f (row_by_id d did)"
    using assms unfolding row_by_id_def by (simp add: update_origin_def find_map_keep)
  then show ?thesis by (cases "row_by_id d did") (auto dest: row_by_id_Some)
qed

context inet_text
begin

lemma proceed_synced:
  assumes "sys_ok s" "synced s" "undisturbed s (Proceed i oc)" "lookup_ok (upstream oc)" "i < length (tasks s)"
  shows "synced (sys_step p (Proceed i oc) s)"
proof -
  let ?d = "sys_db s"
  obtain t d where st: "aaaa_step p oc (tasks s ! i) ?d = (t, d)" by fastforce
  have ok: "db_ok ?d" using assms(1) by (simp add: sys_ok_def)
  have "task_ok ?d (tasks s ! i)" using assms(1,5) by (simp add: sys_ok_def list_all_length)
  then have k: "keeps ?d d" using aaaa_step_ok [OF ok _ assms(4) st] by simp
  have "pending_ok d (resolving s)"
  proof (cases "resolving s")
    case None
    then show ?thesis by (simp add: pending_ok_def)
  next
    case (Some x)
    obtain did ip where x: "x = (did, ip)" by fastforce
    then obtain r where r: "row_by_id ?d did = Some r" "row_origin r = ip"
      using assms(2) Some by (auto simp: synced_def pending_ok_def)
    obtain r' where r': "row_by_id d did = Some r'" "row_domain r' = row_domain r"
      using row_by_id_keeps [OF ok k r(1)] by blast
    have m: "r' \<in> set (domains d)" "row_domain_id r' = did" using row_by_id_Some [OF r'(1)] by auto
    have mr: "r \<in> set (domains ?d)" "row_domain_id r = did" using row_by_id_Some [OF r(1)] by auto
    have "row_domain r' \<noteq> dname" if "tasks s ! i = Inserting dname origin j" for dname origin j
      using assms(3,5) Some x that mr row_of_mem [OF ok mr(1)] r'(2) by (auto simp: undisturbed_def)
    then have "r' \<in> set (domains ?d)" using aaaa_step_other [OF st m(1)] by blast
    then have "r' = r" using row_by_id_mem [OF ok] m(2) r(1) by fastforce
    then show ?thesis using Some x r' r(2) by (simp add: pending_ok_def)
  qed
  moreover have "\<exists>q'. domain_changes d = Some q' \<and> set q' \<subseteq> range payload \<and> covered d (sys_maps s) q'"
    using assms(2) announces_covered [OF aaaa_step_announces [OF ok st]] by (auto simp: synced_def)
  ultimately show ?thesis using st assms(5) by (simp add: sys_step_def synced_def)
qed

lemma update_synced:
  assumes "sys_ok s" "synced s" "length ip = 16"
  shows "synced (sys_step p (Update did ip f) s)"
proof (cases "resolving s = None \<and> row_by_id (sys_db s) did \<noteq> None")
  case True
  let ?d = "sys_db s"
  let ?q = "update_origin p (ipv6_to_string ip) did"
  obtain x d where st: "run_query f ?q ?d = (x, d)" by fastforce
  have "announces ?d (snd (run_query f ?q ?d))"
    by (rule run_query_announces, rule update_origin_announces) (use True in simp)
  then have "announces ?d d" using st by simp
  then have c: "\<exists>q'. domain_changes d = Some q' \<and> set q' \<subseteq> range payload \<and> covered d (sys_maps s) q'"
    using assms(2) announces_covered by (auto simp: synced_def)
  show ?thesis
  proof (cases x)
    case (Inl e)
    then show ?thesis using True st c by (simp add: sys_step_def synced_def pending_ok_def)
  next
    case (Inr u)
    have "?q ?d = (Inr u, d)" by (rule run_query_Inr [of f]) (simp add: st Inr)
    then have "row_by_id d did = map_option (\<lambda>r. r \<lparr> row_origin := ip \<rparr>) (row_by_id ?d did)"
      using update_origin_row [OF inet_in_text [OF assms(3)], of did ?d] by simp
    then show ?thesis using True st c Inr by (auto simp: sys_step_def synced_def pending_ok_def)
  qed
next
  case False
  then have "sys_step p (Update did ip f) s = s" by (auto simp: sys_step_def)
  then show ?thesis using assms(2) by simp
qed

lemma handle_payload:
  assumes "db_ok d"
  shows "handle_notification p Fine True (payload i) d m =
    (Inr (), case row_by_id d i of None \<Rightarrow> m | Some r \<Rightarrow> m \<lparr> NAT_MAP := (NAT_MAP m)(i \<mapsto> \<lparr> origin_ipv6 = row_origin r \<rparr>) \<rparr>)"
proof (cases "row_by_id d i")
  case None
  then show ?thesis
    by (simp add: handle_notification_def parse_payload run_query_def fetch_origin_def row_by_id_def)
next
  case (Some r)
  then have "length (row_origin r) = 16" using row_by_id_Some db_ok_origin [OF assms] by blast
  with Some show ?thesis
    by (simp add: handle_notification_def parse_payload run_query_def fetch_origin_def row_by_id_def host_text)
qed

lemma receive_payload:
  assumes "sys_ok s" "synced s" "domain_changes (sys_db s) = Some (n # q)"
  shows "\<exists>m. sys_step p (Receive Fine True) s = set_queue (Some q) (s \<lparr> sys_maps := m \<rparr>) \<and>
    set q \<subseteq> range payload \<and> covered (sys_db s) m q"
proof -
  let ?d = "sys_db s"
  have ok: "db_ok ?d" using assms(1) by (simp add: sys_ok_def)
  obtain i where i: "n = payload i" "set q \<subseteq> range payload" "covered ?d (sys_maps s) (n # q)"
    using assms(2,3) by (auto simp: synced_def)
  define m where "m = (case row_by_id ?d i of None \<Rightarrow> sys_maps s
    | Some r \<Rightarrow> sys_maps s \<lparr> NAT_MAP := (NAT_MAP (sys_maps s))(i \<mapsto> \<lparr> origin_ipv6 = row_origin r \<rparr>) \<rparr>)"
  have "covered ?d m q"
    unfolding covered_def
  proof
    fix r assume r: "r \<in> set (domains ?d)"
    show "NAT_MAP m (row_domain_id r) = Some \<lparr> origin_ipv6 = row_origin r \<rparr> \<or> payload (row_domain_id r) \<in> set q"
    proof (cases "row_domain_id r = i")
      case True
      then have "row_by_id ?d i = Some r" using row_by_id_mem [OF ok r] by simp
      then show ?thesis using True by (simp add: m_def)
    next
      case False
      then have "NAT_MAP m (row_domain_id r) = NAT_MAP (sys_maps s) (row_domain_id r)"
        by (simp add: m_def split: option.split)
      then show ?thesis using i(1,3) r False by (auto simp: covered_def)
    qed
  qed
  moreover have "sys_step p (Receive Fine True) s = set_queue (Some q) (s \<lparr> sys_maps := m \<rparr>)"
    using assms(3) i(1) handle_payload [OF ok, of i "sys_maps s"] by (simp add: sys_step_def m_def)
  ultimately show ?thesis using i(2) by blast
qed

lemma receive_synced:
  assumes "sys_ok s" "synced s"
  shows "synced (sys_step p (Receive Fine True) s)"
proof -
  obtain q where q: "domain_changes (sys_db s) = Some q" using assms(2) by (auto simp: synced_def)
  show ?thesis
  proof (cases q)
    case Nil
    then show ?thesis using assms(2) q by (simp add: sys_step_def)
  next
    case (Cons n ns)
    then show ?thesis
      using receive_payload [OF assms, of n ns] q assms(2)
      by (auto simp: synced_def set_queue_def)
  qed
qed

lemma store_synced:
  assumes "sys_ok s" "synced s"
  shows "synced (sys_step p (Store True) s)"
proof (cases "resolving s")
  case None
  then show ?thesis using assms(2) by (simp add: sys_step_def)
next
  case (Some x)
  obtain did ip where x: "x = (did, ip)" by fastforce
  then obtain r where r: "row_by_id (sys_db s) did = Some r" "row_origin r = ip"
    using assms(2) Some by (auto simp: synced_def pending_ok_def)
  have "r' = r" if "r' \<in> set (domains (sys_db s))" "row_domain_id r' = did" for r'
    using row_by_id_mem [of "sys_db s" r'] that r(1) assms(1) by (simp add: sys_ok_def)
  then show ?thesis
    using assms(2) Some x r(2) by (auto simp: sys_step_def synced_def covered_def pending_ok_def)
qed

lemma synced_step:
  assumes "sys_ok s" "synced s" "event_ok ev" "undisturbed s ev"
  shows "synced (sys_step p ev s)"
proof (cases ev)
  case (Arrive dname)
  then show ?thesis using assms(2) by (simp add: sys_step_def synced_def)
next
  case (Proceed i oc)
  then show ?thesis
    using assms proceed_synced [of s i oc] by (cases "i < length (tasks s)") (auto simp: event_ok_def sys_step_def)
next
  case (Update did ip f)
  then show ?thesis using assms update_synced by (simp add: event_ok_def)
next
  case (Receive f ok)
  then show ?thesis using assms receive_synced by (simp add: undisturbed_def)
next
  case (Store ok)
  then show ?thesis using assms store_synced by (simp add: undisturbed_def)
qed (use assms(4) in \<open>simp_all add: undisturbed_def\<close>)

lemma synced_reach: "sys_reach p undisturbed s0 s \<Longrightarrow> sys_ok s0 \<Longrightarrow> synced s0 \<Longrightarrow> sys_ok s \<and> synced s"
  by (induction rule: sys_reach.induct) (simp_all add: sys_step_ok synced_step)

end

text \<open>The listener works through its queue.\<close>

fun drain :: "pg \<Rightarrow> nat \<Rightarrow> system \<Rightarrow> system" where
  "drain p 0 s = s"
| "drain p (Suc n) s = drain p n (sys_step p (Receive Fine True) s)"

context inet_text
begin

lemma drain_empties:
  assumes "sys_ok s" "synced s" "domain_changes (sys_db s) = Some q"
  shows "sys_ok (drain p (length q) s) \<and> synced (drain p (length q) s) \<and>
    domain_changes (sys_db (drain p (length q) s)) = Some [] \<and>
    domains (sys_db (drain p (length q) s)) = domains (sys_db s) \<and> tasks (drain p (length q) s) = tasks s"
  using assms
proof (induction q arbitrary: s)
  case (Cons n q)
  let ?s = "sys_step p (Receive Fine True) s"
  obtain m where m: "?s = set_queue (Some q) (s \<lparr> sys_maps := m \<rparr>)" using receive_payload [OF Cons.prems] by blast
  have "domain_changes (sys_db ?s) = Some q" "domains (sys_db ?s) = domains (sys_db s)" "tasks ?s = tasks s"
    by (simp_all add: m set_queue_def)
  moreover have "sys_ok ?s" "synced ?s"
    using sys_step_ok receive_synced Cons.prems by (simp_all add: event_ok_def)
  ultimately show ?case using Cons.IH [of ?s] by simp
qed simp

end

lemma synced_empty_queue: "synced s \<Longrightarrow> domain_changes (sys_db s) = Some [] \<Longrightarrow> in_sync (sys_db s) (sys_maps s)"
  by (auto simp: synced_def covered_def in_sync_def)

text \<open>A start without queries, with the listener connected and the map in step with the database.\<close>

definition ready :: "system \<Rightarrow> bool" where
  "ready s \<longleftrightarrow> db_ok (sys_db s) \<and> tasks s = [] \<and> resolving s = None \<and>
     domain_changes (sys_db s) = Some [] \<and> in_sync (sys_db s) (sys_maps s)"

lemma ready_ok: "ready s \<Longrightarrow> sys_ok s \<and> synced s"
  by (auto simp: ready_def sys_ok_def synced_def covered_def in_sync_def pending_ok_def)

text \<open>
  C4. Starting from a map that agrees with the database and a listener without
  pending notifications, queries, resolver updates and the listener keep every row in the map or
  announced, in any order of their steps, as long as they are not disturbed by a lost
  connection, a failed call of the daemon or a conflicting write; so whenever no notification
  is pending, the map agrees with the database.
\<close>

theorem sync_invariant:
  assumes "inet_text p" "ready s0" "sys_reach p undisturbed s0 s"
  shows "\<exists>q. domain_changes (sys_db s) = Some q \<and>
    (\<forall>r \<in> set (domains (sys_db s)).
       NAT_MAP (sys_maps s) (row_domain_id r) = Some \<lparr> origin_ipv6 = row_origin r \<rparr> \<or> payload (row_domain_id r) \<in> set q) \<and>
    (q = [] \<longrightarrow> nat_of_db (sys_db s) \<subseteq>\<^sub>m NAT_MAP (sys_maps s))"
proof -
  have s: "sys_ok s" "synced s"
    using inet_text.synced_reach [OF assms(1,3)] ready_ok [OF assms(2)] by auto
  then obtain q where q: "domain_changes (sys_db s) = Some q" "covered (sys_db s) (sys_maps s) q"
    by (auto simp: synced_def)
  then show ?thesis
    using s synced_empty_queue [of s] in_sync_nat_of_db [of "sys_db s" "sys_maps s"]
    by (auto simp: covered_def sys_ok_def)
qed

text \<open>
  C12. From every state of such a run, the listener reaches agreement by handling
  the notifications that are in its queue, one step for each; the rows and the answers stay.
\<close>

theorem sync_liveness:
  assumes "inet_text p" "ready s0" "sys_reach p undisturbed s0 s"
  shows "\<exists>n. domain_changes (sys_db (drain p n s)) = Some [] \<and>
    in_sync (sys_db (drain p n s)) (sys_maps (drain p n s)) \<and>
    domains (sys_db (drain p n s)) = domains (sys_db s) \<and> tasks (drain p n s) = tasks s"
proof -
  have s: "sys_ok s" "synced s"
    using inet_text.synced_reach [OF assms(1,3)] ready_ok [OF assms(2)] by auto
  then obtain q where "domain_changes (sys_db s) = Some q" by (auto simp: synced_def)
  from inet_text.drain_empties [OF assms(1) s this] show ?thesis
    using synced_empty_queue by blast
qed

section \<open>What the control plane changes of the maps\<close>

text \<open>Only \<open>NAT_MAP\<close>, and only to entries with 16-byte addresses.\<close>

definition nat_ok :: "bpf_maps \<Rightarrow> bool" where
  "nat_ok m \<longleftrightarrow> (\<forall>i n. NAT_MAP m i = Some n \<longrightarrow> length (origin_ipv6 n) = 16)"

definition maps_inv :: "bpf_maps \<Rightarrow> system \<Rightarrow> bool" where
  "maps_inv m0 s \<longleftrightarrow>
     sys_maps s = m0 \<lparr> NAT_MAP := NAT_MAP (sys_maps s) \<rparr> \<and> nat_ok (sys_maps s) \<and>
     (\<forall>i ip. resolving s = Some (i, ip) \<longrightarrow> length ip = 16)"

lemma insert_nat_ok:
  assumes "m = m0 \<lparr> NAT_MAP := NAT_MAP m \<rparr>" "nat_ok m" "length ip = 16" "m' = snd (insert_nat_entry ok i ip m)"
  shows "m' = m0 \<lparr> NAT_MAP := NAT_MAP m' \<rparr> \<and> nat_ok m'"
  using assms by (cases m; cases m0) (auto simp: insert_nat_entry_def nat_ok_def)

lemma handle_notification_ok:
  assumes "m = m0 \<lparr> NAT_MAP := NAT_MAP m \<rparr>" "nat_ok m" "handle_notification p f ok n d m = (r, m')"
  shows "m' = m0 \<lparr> NAT_MAP := NAT_MAP m' \<rparr> \<and> nat_ok m'"
proof -
  have "m' = m \<or> (\<exists>i ip. length ip = 16 \<and> m' = snd (insert_nat_entry ok i ip m))"
    using assms(3) ipv6_from_str_length
    by (auto simp: handle_notification_def Let_def split: option.splits prod.splits sum.splits)
  then show ?thesis using assms(1,2) insert_nat_ok by blast
qed

lemma sys_step_maps:
  assumes "maps_inv m0 s" "event_ok ev"
  shows "maps_inv m0 (sys_step p ev s)"
proof (cases ev)
  case (Receive f ok)
  have m: "sys_maps s = m0 \<lparr> NAT_MAP := NAT_MAP (sys_maps s) \<rparr>" "nat_ok (sys_maps s)"
    using assms(1) by (simp_all only: maps_inv_def)
  show ?thesis
  proof (cases "domain_changes (sys_db s)")
    case (Some q)
    show ?thesis
    proof (cases q)
      case (Cons n ns)
      obtain r m' where h: "handle_notification p f ok n (sys_db s) (sys_maps s) = (r, m')" by fastforce
      then show ?thesis
        using handle_notification_ok [OF m h] assms(1) Receive Some Cons
        by (cases r) (auto simp: sys_step_def set_queue_def maps_inv_def)
    qed (use assms(1) Receive Some in \<open>simp add: sys_step_def\<close>)
  qed (use assms(1) Receive in \<open>simp add: sys_step_def\<close>)
next
  case (Store ok)
  have m: "sys_maps s = m0 \<lparr> NAT_MAP := NAT_MAP (sys_maps s) \<rparr>" "nat_ok (sys_maps s)"
    using assms(1) by (simp_all only: maps_inv_def)
  show ?thesis
  proof (cases "resolving s")
    case (Some x)
    obtain i ip where x: "x = (i, ip)" by fastforce
    then have "length ip = 16" using assms(1) Some by (simp add: maps_inv_def)
    then show ?thesis
      using insert_nat_ok [OF m _ HOL.refl, of ip ok i] Store Some x by (simp add: sys_step_def maps_inv_def)
  qed (use assms(1) Store in \<open>simp add: sys_step_def\<close>)
qed (use assms in \<open>auto simp: sys_step_def set_queue_def maps_inv_def event_ok_def split: prod.splits sum.splits\<close>)

lemma sys_reach_maps: "sys_reach p al s0 s \<Longrightarrow> maps_inv m0 s0 \<Longrightarrow> maps_inv m0 s"
  by (induction rule: sys_reach.induct) (simp_all add: sys_step_maps)

lemma drain_maps: "maps_inv m0 s \<Longrightarrow> maps_inv m0 (drain p n s)"
  by (induction n arbitrary: s) (simp_all add: sys_step_maps event_ok_def)

section \<open>Sample runs\<close>

definition run :: "pg \<Rightarrow> event list \<Rightarrow> system \<Rightarrow> system" where
  "run p evs s = fold (sys_step p) evs s"

fun run_ok :: "pg \<Rightarrow> (system \<Rightarrow> event \<Rightarrow> bool) \<Rightarrow> event list \<Rightarrow> system \<Rightarrow> bool" where
  "run_ok p allowed [] s = True"
| "run_ok p allowed (ev # evs) s = (event_ok ev \<and> allowed s ev \<and> run_ok p allowed evs (sys_step p ev s))"

lemma run_reach: "run_ok p allowed evs s \<Longrightarrow> sys_reach p allowed s0 s \<Longrightarrow> sys_reach p allowed s0 (run p evs s)"
  by (induction evs arbitrary: s) (simp_all add: run_def sys_reach.step)

lemma run_ok_True: "list_all event_ok evs \<Longrightarrow> run_ok p (\<lambda>_ _. True) evs s"
  by (induction evs arbitrary: s) simp_all

definition resolves :: "bytes \<Rightarrow> outcome" where
  "resolves ip = \<lparr> find_fault = Fine, upstream = (\<lambda>_. Found [ip]), alloc_fault = Fine, insert_fault = Fine \<rparr>"

lemma event_ok_resolves: "length ip = 16 \<Longrightarrow> event_ok (Proceed i (resolves ip))"
  by (simp add: event_ok_def lookup_ok_def resolves_def)

lemma notify_payload:
  "notify_domain_change i d = d \<lparr> domain_changes := map_option (\<lambda>q. q @ [payload i]) (domain_changes d) \<rparr>"
  by (simp add: notify_domain_change_def payload_def)

lemmas run_simps = run_def sys_step_def aaaa_step_def resolves_def run_query_def find_by_domain_def lookup_aaaa_def
  next_domain_id_def insert_domain_def notify_payload set_queue_def initial_system_def initial_db_def

text \<open>Queries for two new domains whose steps alternate.\<close>

definition alternate :: "string \<Rightarrow> string \<Rightarrow> bytes \<Rightarrow> event list" where
  "alternate dname dname' ip =
     [Arrive dname, Arrive dname', Proceed 0 (resolves ip), Proceed 1 (resolves ip), Proceed 0 (resolves ip),
      Proceed 1 (resolves ip), Proceed 0 (resolves ip), Proceed 1 (resolves ip)]"

text \<open>A query for a new domain, as the first query of a run.\<close>

definition first_query :: "string \<Rightarrow> bytes \<Rightarrow> event list" where
  "first_query dname ip = [Arrive dname, Proceed 0 (resolves ip), Proceed 0 (resolves ip), Proceed 0 (resolves ip)]"

definition listening_system :: "bpf_maps \<Rightarrow> system" where
  "listening_system m = set_queue (Some []) (initial_system m)"

definition first_row :: "string \<Rightarrow> bytes \<Rightarrow> domain_rec" where
  "first_row dname ip = \<lparr> row_domain_id = 1, row_domain = dname, row_origin = ip, row_synthetic = synthetic_ipv6 1, row_ttl = Some 300 \<rparr>"

context inet_text
begin

lemma run_alternate:
  assumes "length ip = 16" "dname \<noteq> dname'"
  shows "tasks (run p (alternate dname dname' ip) (initial_system m)) =
    [Finished dname (Inr (NoError, Some (300, synthetic_ipv6 1))), Finished dname' (Inr (NoError, Some (300, synthetic_ipv6 2)))]"
  using assms by (simp add: run_simps alternate_def inet_in_text host_text)

lemma run_first:
  assumes "length ip = 16"
  shows "run p (first_query dname ip) (listening_system m) =
    \<lparr> sys_db = \<lparr> domains = [first_row dname ip], domain_id_seq = 2, domain_changes = Some [payload 1] \<rparr>, sys_maps = m,
      tasks = [Finished dname (Inr (NoError, Some (300, synthetic_ipv6 1)))], resolving = None \<rparr>"
  using assms by (simp add: run_simps first_query_def listening_system_def first_row_def inet_in_text host_text)

lemma run_first_ok:
  assumes "length ip = 16"
  shows "run_ok p undisturbed (first_query dname ip) (listening_system m)"
  using assms
  by (simp add: run_simps first_query_def listening_system_def undisturbed_def event_ok_def lookup_ok_def inet_in_text host_text)

end

lemma listening_ready: "ready (listening_system m)"
  by (simp add: ready_def listening_system_def set_queue_def initial_system_def db_ok_initial)
    (simp add: initial_db_def in_sync_def)

theorem answers_stable_witness: "synthetic_ipv6 1 = synthetic_ipv6 2 \<longleftrightarrow> ''a.org'' = ''b.org''"
proof -
  let ?evs = "alternate ''a.org'' ''b.org'' (replicate 16 1)"
  let ?s = "run std_pg ?evs (initial_system initial_maps)"
  have "list_all event_ok ?evs"
    by (simp add: alternate_def event_ok_resolves) (simp add: event_ok_def)
  then have "sys_reach std_pg (\<lambda>_ _. True) (initial_system initial_maps) ?s"
    using run_reach [OF run_ok_True sys_reach.refl] by blast
  moreover have "answered ?s ''a.org'' (synthetic_ipv6 1)" "answered ?s ''b.org'' (synthetic_ipv6 2)"
    unfolding answered_def std.run_alternate [of "replicate 16 1" "''a.org''" "''b.org''" initial_maps, simplified] by simp_all
  ultimately show ?thesis using answers_stable [OF std.inet_text_axioms] by blast
qed

theorem sync_invariant_witness:
  "\<exists>q. domain_changes (sys_db (run std_pg (first_query ''a.org'' (replicate 16 1)) (listening_system initial_maps))) = Some q \<and>
     (NAT_MAP initial_maps 1 = Some \<lparr> origin_ipv6 = replicate 16 1 \<rparr> \<or> payload 1 \<in> set q)"
  using sync_invariant [OF std.inet_text_axioms listening_ready
      run_reach [OF std.run_first_ok [of "replicate 16 1" "''a.org''"] sys_reach.refl], of initial_maps, simplified]
  by (simp add: std.run_first first_row_def)

theorem sync_liveness_witness:
  "\<exists>n. NAT_MAP (sys_maps (drain std_pg n (run std_pg (first_query ''a.org'' (replicate 16 1)) (listening_system initial_maps)))) 1 =
     Some \<lparr> origin_ipv6 = replicate 16 1 \<rparr>"
proof -
  let ?s = "run std_pg (first_query ''a.org'' (replicate 16 1)) (listening_system initial_maps)"
  obtain n where n: "in_sync (sys_db (drain std_pg n ?s)) (sys_maps (drain std_pg n ?s))"
    "domains (sys_db (drain std_pg n ?s)) = domains (sys_db ?s)"
    using sync_liveness [OF std.inet_text_axioms listening_ready
        run_reach [OF std.run_first_ok [of "replicate 16 1" "''a.org''"] sys_reach.refl]] by auto
  have "domains (sys_db ?s) = [first_row ''a.org'' (replicate 16 1)]" by (simp add: std.run_first)
  with n show ?thesis by (auto simp: in_sync_def first_row_def)
qed

section \<open>Notifications that are lost\<close>



text \<open>Two queries for a new domain, the second slower than a resolver pass.\<close>

definition slow_query :: "string \<Rightarrow> bytes \<Rightarrow> bytes \<Rightarrow> bytes \<Rightarrow> event list" where
  "slow_query dname ip0 ip1 ip2 =
     [Arrive dname, Arrive dname, Proceed 0 (resolves ip0), Proceed 1 (resolves ip1),
      Proceed 0 (resolves ip0), Proceed 0 (resolves ip0), Receive Fine True,
      Update 1 ip2 Fine,
      Proceed 1 (resolves ip1), Proceed 1 (resolves ip1), Receive Fine True, Receive Fine True,
      Store True]"

text \<open>
  C36. The resolver stores an address in the map after it has updated the row. A
  slow query for the domain that changes the row between the two, with both notifications
  handled in time, leaves the map with the address of the resolver and the row with the one of
  the query, with no notification pending.
\<close>

theorem stale_store:
  assumes "inet_text p" "length ip0 = 16" "length ip1 = 16" "length ip2 = 16"
  shows "let s = run p (slow_query dname ip0 ip1 ip2) (listening_system initial_maps)
    in domain_changes (sys_db s) = Some [] \<and> resolving s = None \<and>
       nat_of_db (sys_db s) 1 = Some \<lparr> origin_ipv6 = ip1 \<rparr> \<and> NAT_MAP (sys_maps s) 1 = Some \<lparr> origin_ipv6 = ip2 \<rparr>"
  using assms(2-4)
  by (simp add: run_simps slow_query_def listening_system_def Let_def handle_notification_def parse_payload
      fetch_origin_def row_by_id_def update_origin_def nat_of_db_def
      inet_text.inet_in_text [OF assms(1)] inet_text.host_text [OF assms(1)])

theorem stale_store_witness:
  "let s = run std_pg (slow_query ''a.org'' (replicate 16 1) (replicate 16 2) (replicate 16 3)) (listening_system initial_maps)
   in nat_of_db (sys_db s) 1 = Some \<lparr> origin_ipv6 = replicate 16 2 \<rparr> \<and>
      NAT_MAP (sys_maps s) 1 = Some \<lparr> origin_ipv6 = replicate 16 3 \<rparr>"
  using stale_store [OF std.inet_text_axioms, of "replicate 16 1" "replicate 16 2" "replicate 16 3" "''a.org''"]
  by (simp add: Let_def)

end
