(* ===== verification/Loader.thy ===== *)
theory Loader
  imports DaemonKey System Tc_Correct
begin

text \<open>
  The start of the daemon (\<open>daemon/src/loader.rs\<close> and \<open>main\<close> of \<open>daemon/src/main.rs\<close>): waiting
  for the tunnel interface, loading and attaching the eBPF programs, writing the maps, and the
  bulk load. What the operating system and the loader library answer is a record argument.
\<close>

section \<open>Waiting for an interface\<close>

text \<open>What ends a pause between two polls.\<close>

datatype wake = Slept | CtrlC | SigTerm

datatype start_error =
    Interrupted
  | Terminated
  | SignalSetup
  | EnvMissing string
  | BadKey string key_error
  | LoadFailed
  | PinDir
  | ProgramNotFound string
  | ProgramType string
  | ProgramLoad string
  | ProgramAttach string
  | IfindexRead string
  | IfindexInvalid string
  | MapNotFound string
  | MapType string
  | MapWrite string
  | Ifaddrs
  | NoWanAddress
  | PoolFailed
  | DaemonFailed daemon_error

text \<open>
  The loop over the polls: whether the interface exists at a poll, and what ends the pause
  after it. \<open>None\<close>: the loop is still waiting.
\<close>

fun poll_interface :: "(bool \<times> wake) list \<Rightarrow> (start_error + unit) option" where
  "poll_interface [] = None"
| "poll_interface ((present, w) # polls) =
     (if present then Some (Inr ())
      else (case w of CtrlC \<Rightarrow> Some (Inl Interrupted) | SigTerm \<Rightarrow> Some (Inl Terminated) | Slept \<Rightarrow> poll_interface polls))"

definition wait_for_interface :: "bool \<Rightarrow> (bool \<times> wake) list \<Rightarrow> (start_error + unit) option" where
  "wait_for_interface handler_ok polls = (if handler_ok then poll_interface polls else Some (Inl SignalSetup))"

section \<open>Environment of the loader\<close>

record program_status =
  prog_found :: bool
  prog_type_ok :: bool
  prog_load_ok :: bool
  prog_attach_ok :: bool

record map_status =
  map_found :: bool
  map_type_ok :: bool
  map_write_ok :: "nat \<Rightarrow> bool"

datatype sockaddr = In6 bytes | OtherAddr

record host_env =
  elf_ok :: bool
  pin_ok :: bool
  program :: "string \<Rightarrow> program_status"
  bpf_map :: "string \<Rightarrow> map_status"
  ifindex_file :: "string \<Rightarrow> string option"
  ifaddrs :: "(string \<times> sockaddr option) list option"

record loaded =
  ebpf_maps :: bpf_maps
  attached :: "(string \<times> string) list"

type_synonym load_step = "loaded \<Rightarrow> (start_error + unit) \<times> loaded"

definition and_then :: "load_step \<Rightarrow> load_step \<Rightarrow> load_step" where
  "and_then f g l = (case f l of (Inl e, l) \<Rightarrow> (Inl e, l) | (Inr _, l) \<Rightarrow> g l)"

definition fail_unless :: "bool \<Rightarrow> start_error \<Rightarrow> load_step" where
  "fail_unless ok e l = (if ok then (Inr (), l) else (Inl e, l))"

section \<open>Loading\<close>

definition ifindex :: "host_env \<Rightarrow> string \<Rightarrow> start_error + u32" where
  "ifindex env name =
     (case ifindex_file env name of
        None \<Rightarrow> Inl (IfindexRead name)
      | Some s \<Rightarrow>
          (case parse_uint 10 (2 ^ 32 - 1) (trim s) of
             None \<Rightarrow> Inl (IfindexInvalid name)
           | Some n \<Rightarrow> Inr (word_of_nat n)))"

text \<open>Looking up a program, loading it and attaching it to an interface.\<close>

definition attach_program :: "host_env \<Rightarrow> string \<Rightarrow> string \<Rightarrow> load_step" where
  "attach_program env name iface =
     and_then (fail_unless (prog_found (program env name)) (ProgramNotFound name))
     (and_then (fail_unless (prog_type_ok (program env name)) (ProgramType name))
     (and_then (fail_unless (prog_load_ok (program env name)) (ProgramLoad name))
     (and_then (fail_unless (prog_attach_ok (program env name)) (ProgramAttach name))
       (\<lambda>l. (Inr (), l \<lparr> attached := attached l @ [(name, iface)] \<rparr>)))))"

definition open_map :: "host_env \<Rightarrow> string \<Rightarrow> load_step" where
  "open_map env name =
     and_then (fail_unless (map_found (bpf_map env name)) (MapNotFound name))
       (fail_unless (map_type_ok (bpf_map env name)) (MapType name))"

text \<open>Writing an element of an array, given as an update of the maps.\<close>

definition set_element :: "host_env \<Rightarrow> string \<Rightarrow> nat \<Rightarrow> (bpf_maps \<Rightarrow> bpf_maps) \<Rightarrow> load_step" where
  "set_element env name i f l =
     (if map_write_ok (bpf_map env name) i then (Inr (), l \<lparr> ebpf_maps := f (ebpf_maps l) \<rparr>) else (Inl (MapWrite name), l))"

definition write_ifindex :: "host_env \<Rightarrow> string \<Rightarrow> load_step" where
  "write_ifindex env tunnel l =
     (case ifindex env tunnel of
        Inl e \<Rightarrow> (Inl e, l)
      | Inr idx \<Rightarrow>
          and_then (open_map env ''XFRM_IFINDEX'')
            (set_element env ''XFRM_IFINDEX'' 0 (\<lambda>m. m \<lparr> XFRM_IFINDEX := (XFRM_IFINDEX m)[0 := idx] \<rparr>)) l)"

definition write_keys :: "host_env \<Rightarrow> ProxySrcKey \<Rightarrow> ProxySrcKey option \<Rightarrow> load_step" where
  "write_keys env key prev =
     and_then (open_map env ''OBFS_KEYS'')
     (and_then (set_element env ''OBFS_KEYS'' 0 (\<lambda>m. m \<lparr> OBFS_KEYS := (OBFS_KEYS m)[0 := key] \<rparr>))
       (case prev of
          None \<Rightarrow> Pair (Inr ())
        | Some k \<Rightarrow> set_element env ''OBFS_KEYS'' 1 (\<lambda>m. m \<lparr> OBFS_KEYS := (OBFS_KEYS m)[1 := k] \<rparr>)))"

text \<open>\<open>is_unicast_link_local\<close>: the prefix fe80::/10.\<close>

definition is_unicast_link_local :: "bytes \<Rightarrow> bool" where
  "is_unicast_link_local a \<longleftrightarrow> a ! 0 = 0xfe \<and> a ! 1 AND 0xc0 = 0x80"

fun first_wan_address :: "string \<Rightarrow> (string \<times> sockaddr option) list \<Rightarrow> bytes option" where
  "first_wan_address iface [] = None"
| "first_wan_address iface ((name, addr) # rest) =
     (case (name = iface, addr) of
        (True, Some (In6 ip)) \<Rightarrow> if \<not> is_unicast_link_local ip then Some ip else first_wan_address iface rest
      | _ \<Rightarrow> first_wan_address iface rest)"

definition get_wan_ipv6 :: "host_env \<Rightarrow> string \<Rightarrow> start_error + bytes" where
  "get_wan_ipv6 env iface =
     (case ifaddrs env of
        None \<Rightarrow> Inl Ifaddrs
      | Some addrs \<Rightarrow> (case first_wan_address iface addrs of None \<Rightarrow> Inl NoWanAddress | Some ip \<Rightarrow> Inr ip))"

definition write_dev_wan :: "host_env \<Rightarrow> string \<Rightarrow> load_step" where
  "write_dev_wan env wan l =
     (case get_wan_ipv6 env wan of
        Inl e \<Rightarrow> (Inl e, l)
      | Inr ip \<Rightarrow>
          and_then (open_map env ''DEV_WAN_IPV6'')
            (set_element env ''DEV_WAN_IPV6'' 0 (\<lambda>m. m \<lparr> DEV_WAN_IPV6 := (DEV_WAN_IPV6 m)[0 := ip] \<rparr>)) l)"

text \<open>The queueing disciplines are added without a check, and so is the logger.\<close>

definition load_and_attach ::
  "host_env \<Rightarrow> bool \<Rightarrow> string \<Rightarrow> string \<Rightarrow> ProxySrcKey \<Rightarrow> ProxySrcKey option \<Rightarrow> (start_error + unit) \<times> loaded" where
  "load_and_attach env dev tunnel_iface wan_iface key prev_key =
     and_then (fail_unless (elf_ok env) LoadFailed)
     (and_then (fail_unless (pin_ok env) PinDir)
     (and_then (attach_program env ''tc_ingress'' tunnel_iface)
     (and_then (attach_program env ''tc_ingress_wan'' wan_iface)
     (and_then (attach_program env ''xdp_wan'' wan_iface)
     (and_then (write_ifindex env tunnel_iface)
     (and_then (write_keys env key prev_key)
       (if dev then write_dev_wan env wan_iface else Pair (Inr ()))))))))
     \<lparr> ebpf_maps = initial_maps, attached = [] \<rparr>"

section \<open>Lemmas\<close>

lemma and_then_Inr: "and_then f g l = (Inr u, l') \<longleftrightarrow> (\<exists>l1. f l = (Inr (), l1) \<and> g l1 = (Inr u, l'))"
  by (auto simp: and_then_def split: prod.splits sum.splits)

lemma and_then_eq:
  "f l = (Inl e, l1) \<Longrightarrow> and_then f g l = (Inl e, l1)" "f l = (Inr u, l1) \<Longrightarrow> and_then f g l = g l1"
  by (simp_all add: and_then_def)

lemma fail_unless_Inr [simp]: "fail_unless ok e l = (Inr u, l') \<longleftrightarrow> ok \<and> l' = l"
  by (auto simp: fail_unless_def)

lemma attach_program_Inr:
  "attach_program env name iface l = (Inr u, l') \<Longrightarrow> l' = l \<lparr> attached := attached l @ [(name, iface)] \<rparr>"
  by (auto simp: attach_program_def and_then_Inr)

lemma open_map_Inr: "open_map env name l = (Inr u, l') \<Longrightarrow> l' = l"
  by (auto simp: open_map_def and_then_Inr)

lemma set_element_Inr: "set_element env name i f l = (Inr u, l') \<Longrightarrow> l' = l \<lparr> ebpf_maps := f (ebpf_maps l) \<rparr>"
  by (auto simp: set_element_def split: if_splits)

lemma write_ifindex_Inr:
  "write_ifindex env tunnel l = (Inr u, l') \<Longrightarrow>
     \<exists>idx. ifindex env tunnel = Inr idx \<and>
       l' = l \<lparr> ebpf_maps := (ebpf_maps l) \<lparr> XFRM_IFINDEX := (XFRM_IFINDEX (ebpf_maps l))[0 := idx] \<rparr> \<rparr>"
  by (auto simp: write_ifindex_def and_then_Inr dest!: open_map_Inr set_element_Inr split: sum.splits)

lemma write_keys_Inr:
  "write_keys env key prev l = (Inr u, l') \<Longrightarrow>
     l' = l \<lparr> ebpf_maps := (ebpf_maps l) \<lparr> OBFS_KEYS :=
       (case prev of None \<Rightarrow> (OBFS_KEYS (ebpf_maps l))[0 := key] | Some k \<Rightarrow> (OBFS_KEYS (ebpf_maps l))[0 := key, 1 := k]) \<rparr> \<rparr>"
  by (cases prev) (auto simp: write_keys_def and_then_Inr dest!: open_map_Inr set_element_Inr)

lemma write_dev_wan_Inr:
  "write_dev_wan env wan l = (Inr u, l') \<Longrightarrow>
     \<exists>ip. get_wan_ipv6 env wan = Inr ip \<and>
       l' = l \<lparr> ebpf_maps := (ebpf_maps l) \<lparr> DEV_WAN_IPV6 := (DEV_WAN_IPV6 (ebpf_maps l))[0 := ip] \<rparr> \<rparr>"
  by (auto simp: write_dev_wan_def and_then_Inr dest!: open_map_Inr set_element_Inr split: sum.splits)

lemma first_wan_address_Some:
  "first_wan_address iface addrs = Some ip \<Longrightarrow> (iface, Some (In6 ip)) \<in> set addrs \<and> \<not> is_unicast_link_local ip"
  by (induction iface addrs rule: first_wan_address.induct) (auto split: option.splits sockaddr.splits if_splits bool.splits)

text \<open>Steps that leave a part of the state alone, also when they fail.\<close>

definition preserves :: "(loaded \<Rightarrow> 'a) \<Rightarrow> load_step \<Rightarrow> bool" where
  "preserves part f \<longleftrightarrow> (\<forall>l. part (snd (f l)) = part l)"

lemma preserves_and_then: "preserves part f \<Longrightarrow> preserves part g \<Longrightarrow> preserves part (and_then f g)"
  unfolding preserves_def and_then_def by (auto split: prod.split sum.split) (metis snd_conv)+

lemma preserves_basic:
  "preserves part (fail_unless ok e)" "preserves part (Pair (Inr ()))" "preserves part (open_map env name)"
proof -
  show f: "preserves part (fail_unless ok e)" for ok e by (simp add: preserves_def fail_unless_def)
  show "preserves part (Pair (Inr ()))" by (simp add: preserves_def)
  show "preserves part (open_map env name)" unfolding open_map_def by (intro preserves_and_then f)
qed

lemma preserves_set:
  "(\<And>l. part (l \<lparr> ebpf_maps := f (ebpf_maps l) \<rparr>) = part l) \<Longrightarrow>
     preserves part (and_then (open_map env name) (set_element env name i f)) \<and> preserves part (set_element env name i f)"
  by (intro conjI preserves_and_then preserves_basic) (simp_all add: preserves_def set_element_def)

text \<open>The keys, and what must be in place when a key is active.\<close>

abbreviation keys_of :: "loaded \<Rightarrow> ProxySrcKey list" where
  "keys_of l \<equiv> OBFS_KEYS (ebpf_maps l)"

abbreviation routes_of :: "loaded \<Rightarrow> (string \<times> string) list \<times> u32 list" where
  "routes_of l \<equiv> (attached l, XFRM_IFINDEX (ebpf_maps l))"

lemma preserves_keys_attach: "preserves keys_of (attach_program env name iface)"
proof -
  have "preserves keys_of (\<lambda>l. (Inr (), l \<lparr> attached := attached l @ [(name, iface)] \<rparr>))" by (simp add: preserves_def)
  then show ?thesis unfolding attach_program_def by (intro preserves_and_then preserves_basic)
qed

lemma preserves_keys_ifindex: "preserves keys_of (write_ifindex env tunnel)"
  unfolding preserves_def write_ifindex_def
  by (auto split: sum.split simp: preserves_set [where part = keys_of, unfolded preserves_def])

lemma preserves_dev_wan: "preserves keys_of (write_dev_wan env wan)" "preserves routes_of (write_dev_wan env wan)"
  unfolding preserves_def write_dev_wan_def
  by (auto split: sum.split simp: preserves_set [where part = keys_of, unfolded preserves_def]
      preserves_set [where part = routes_of, unfolded preserves_def, simplified])

lemma preserves_routes_keys: "preserves routes_of (write_keys env key prev)"
  unfolding write_keys_def
  by (cases prev) (auto intro!: preserves_and_then preserves_basic simp: preserves_set)

text \<open>What is done before the keys are written.\<close>

definition load_programs :: "host_env \<Rightarrow> string \<Rightarrow> string \<Rightarrow> load_step" where
  "load_programs env tunnel_iface wan_iface =
     and_then (fail_unless (elf_ok env) LoadFailed)
     (and_then (fail_unless (pin_ok env) PinDir)
     (and_then (attach_program env ''tc_ingress'' tunnel_iface)
     (and_then (attach_program env ''tc_ingress_wan'' wan_iface)
     (and_then (attach_program env ''xdp_wan'' wan_iface)
       (write_ifindex env tunnel_iface)))))"

lemma and_then_assoc: "and_then f (and_then g h) = and_then (and_then f g) h"
  by (auto simp: and_then_def fun_eq_iff split: prod.split sum.split)

lemma load_and_attach_split:
  "load_and_attach env dev tunnel wan key prev =
     and_then (load_programs env tunnel wan)
       (and_then (write_keys env key prev) (if dev then write_dev_wan env wan else Pair (Inr ())))
       \<lparr> ebpf_maps = initial_maps, attached = [] \<rparr>"
  by (simp add: load_and_attach_def load_programs_def and_then_assoc)

lemma preserves_keys_programs: "preserves keys_of (load_programs env tunnel wan)"
  unfolding load_programs_def
  by (intro preserves_and_then preserves_basic preserves_keys_attach preserves_keys_ifindex)

lemma load_programs_Inr:
  assumes "load_programs env tunnel wan \<lparr> ebpf_maps = initial_maps, attached = [] \<rparr> = (Inr u, l)"
  shows "\<exists>idx. ifindex env tunnel = Inr idx \<and>
    l = \<lparr> ebpf_maps = initial_maps \<lparr> XFRM_IFINDEX := [idx] \<rparr>,
          attached = [(''tc_ingress'', tunnel), (''tc_ingress_wan'', wan), (''xdp_wan'', wan)] \<rparr>"
  using assms
  by (auto simp: load_programs_def and_then_Inr initial_maps_def dest!: attach_program_Inr write_ifindex_Inr)

lemma write_keys_keys:
  "OBFS_KEYS (ebpf_maps (snd (write_keys env key prev l))) \<in>
     {OBFS_KEYS (ebpf_maps l), (OBFS_KEYS (ebpf_maps l))[0 := key],
      (case prev of None \<Rightarrow> (OBFS_KEYS (ebpf_maps l))[0 := key] | Some k \<Rightarrow> (OBFS_KEYS (ebpf_maps l))[0 := key, 1 := k])}"
  by (auto simp: write_keys_def and_then_def open_map_def fail_unless_def set_element_def split: option.split)

lemma is_zero_zero_key: "is_zero zero_key"
  by (simp add: is_zero_iff zero_key_def list_all_iff)

section \<open>Properties of the loader\<close>

text \<open>
  When loading succeeds, the maps are the initial ones but for the index of the tunnel
  interface, the keys and, in dev-mode, a WAN address of the interface that is not link-local.
\<close>

lemma loaded_maps:
  assumes "load_and_attach env dev tunnel wan key prev = (Inr u, l)"
  shows "attached l = [(''tc_ingress'', tunnel), (''tc_ingress_wan'', wan), (''xdp_wan'', wan)] \<and>
    (\<exists>idx a. ifindex env tunnel = Inr idx \<and>
       ebpf_maps l = initial_maps \<lparr> XFRM_IFINDEX := [idx],
         OBFS_KEYS := [key, case prev of None \<Rightarrow> zero_key | Some k \<Rightarrow> k], DEV_WAN_IPV6 := [a] \<rparr> \<and>
       (if dev then (\<exists>addrs. ifaddrs env = Some addrs \<and> (wan, Some (In6 a)) \<in> set addrs \<and> \<not> is_unicast_link_local a)
        else a = zero_addr))"
proof -
  let ?l0 = "\<lparr> ebpf_maps = initial_maps, attached = [] \<rparr>"
  obtain l1 l2 where l1: "load_programs env tunnel wan ?l0 = (Inr (), l1)" "write_keys env key prev l1 = (Inr (), l2)"
    and l: "(if dev then write_dev_wan env wan else Pair (Inr ())) l2 = (Inr u, l)"
    using assms by (auto simp: load_and_attach_split and_then_Inr)
  obtain idx where idx: "ifindex env tunnel = Inr idx"
    "l1 = \<lparr> ebpf_maps = initial_maps \<lparr> XFRM_IFINDEX := [idx] \<rparr>,
          attached = [(''tc_ingress'', tunnel), (''tc_ingress_wan'', wan), (''xdp_wan'', wan)] \<rparr>"
    using load_programs_Inr [OF l1(1)] by blast
  have l2: "l2 = l1 \<lparr> ebpf_maps := (ebpf_maps l1) \<lparr> OBFS_KEYS := [key, case prev of None \<Rightarrow> zero_key | Some k \<Rightarrow> k] \<rparr> \<rparr>"
    using write_keys_Inr [OF l1(2)] by (simp add: idx(2) initial_maps_def split: option.split)
  show ?thesis
  proof (cases dev)
    case True
    then obtain ip where "get_wan_ipv6 env wan = Inr ip"
      "l = l2 \<lparr> ebpf_maps := (ebpf_maps l2) \<lparr> DEV_WAN_IPV6 := [ip] \<rparr> \<rparr>"
      using write_dev_wan_Inr [of env wan l2 u l] l by (auto simp: l2 idx(2) initial_maps_def)
    then show ?thesis
      using True idx l2 by (auto simp: get_wan_ipv6_def dest!: first_wan_address_Some split: option.splits)
  next
    case False
    then show ?thesis using idx l l2 by (auto simp: initial_maps_def)
  qed
qed

text \<open>
  C24. However loading ends, the eBPF programs have no active key or the given
  one, and with an active key all programs are attached and the index of the tunnel interface
  is set; so a partial start never translates packets that it could not also send back.
\<close>

theorem load_fail_closed:
  assumes "load_and_attach env dev tunnel wan key prev = (r, l)"
  shows "active_key (ebpf_maps l) = None \<or>
    active_key (ebpf_maps l) = Some key \<and>
    attached l = [(''tc_ingress'', tunnel), (''tc_ingress_wan'', wan), (''xdp_wan'', wan)] \<and>
    (\<exists>idx. ifindex env tunnel = Inr idx \<and> XFRM_IFINDEX (ebpf_maps l) = [idx])"
proof -
  let ?l0 = "\<lparr> ebpf_maps = initial_maps, attached = [] \<rparr>"
  let ?rest = "and_then (write_keys env key prev) (if dev then write_dev_wan env wan else Pair (Inr ()))"
  obtain r1 l1 where p: "load_programs env tunnel wan ?l0 = (r1, l1)" by fastforce
  have k: "keys_of l1 = [zero_key, zero_key]"
    using preserves_keys_programs [of env tunnel wan] p by (auto simp: preserves_def initial_maps_def dest!: spec [of _ ?l0])
  show ?thesis
  proof (cases r1)
    case (Inl e)
    then have "l = l1"
      using assms and_then_eq(1) [of "load_programs env tunnel wan" ?l0 e l1 ?rest] p by (simp add: load_and_attach_split)
    then show ?thesis using k is_zero_zero_key by (simp add: active_key_def array_get_def)
  next
    case (Inr u)
    then have l: "?rest l1 = (r, l)" 
      using assms and_then_eq(2) [of "load_programs env tunnel wan" ?l0 u l1 ?rest] p by (simp add: load_and_attach_split)
    have "preserves routes_of ?rest"
      by (intro preserves_and_then preserves_routes_keys) (simp add: preserves_dev_wan preserves_basic)
    then have "routes_of (snd (?rest l1)) = routes_of l1" by (simp only: preserves_def)
    then have "routes_of l = routes_of l1" using l by simp
    moreover have "keys_of l = keys_of (snd (write_keys env key prev l1))"
    proof -
      obtain r2 l2 where w: "write_keys env key prev l1 = (r2, l2)" by fastforce
      have "preserves keys_of (if dev then write_dev_wan env wan else Pair (Inr ()))"
        by (simp add: preserves_dev_wan preserves_basic)
      then have "keys_of (snd ((if dev then write_dev_wan env wan else Pair (Inr ())) l2)) = keys_of l2"
        by (simp only: preserves_def)
      then show ?thesis
        using l w and_then_eq [of "write_keys env key prev" l1 _ l2] by (cases r2) simp_all
    qed
    then have "active_key (ebpf_maps l) \<in> {None, Some key}"
      using write_keys_keys [of env key prev l1] k is_zero_zero_key
      by (cases prev) (auto simp: active_key_def array_get_def)
    moreover obtain idx where "ifindex env tunnel = Inr idx"
      "routes_of l1 = ([(''tc_ingress'', tunnel), (''tc_ingress_wan'', wan), (''xdp_wan'', wan)], [idx])"
      using load_programs_Inr [of env tunnel wan u l1] p Inr by auto
    ultimately show ?thesis by auto
  qed
qed

text \<open>A host on which everything succeeds.\<close>

definition good_host :: host_env where
  "good_host = \<lparr> elf_ok = True, pin_ok = True,
     program = (\<lambda>_. \<lparr> prog_found = True, prog_type_ok = True, prog_load_ok = True, prog_attach_ok = True \<rparr>),
     bpf_map = (\<lambda>_. \<lparr> map_found = True, map_type_ok = True, map_write_ok = (\<lambda>_. True) \<rparr>),
     ifindex_file = (\<lambda>_. Some ''5''), ifaddrs = None \<rparr>"

lemma good_ifindex: "ifindex good_host name = Inr 5"
proof -
  have "trim ''5'' = ''5''" by (rule trim_graphic) (simp_all add: graphic_def char_code_def)
  then show ?thesis by (simp add: ifindex_def good_host_def parse_uint_def digit_val_def char_code_def)
qed

lemma good_load:
  "load_and_attach good_host False tunnel wan key None =
    (Inr (), \<lparr> ebpf_maps = initial_maps \<lparr> XFRM_IFINDEX := [5], OBFS_KEYS := [key, zero_key] \<rparr>,
       attached = [(''tc_ingress'', tunnel), (''tc_ingress_wan'', wan), (''xdp_wan'', wan)] \<rparr>)"
  by (simp add: load_and_attach_def and_then_def attach_program_def open_map_def fail_unless_def set_element_def
      write_ifindex_def good_ifindex write_keys_def initial_maps_def) (simp add: good_host_def)

theorem load_fail_closed_witness:
  "active_key (ebpf_maps (snd (load_and_attach (good_host \<lparr> ifindex_file := \<lambda>_. None \<rparr>) False ''xfrm0'' ''eth0'' TEST_KEY None))) = None"
proof -
  let ?env = "good_host \<lparr> ifindex_file := \<lambda>_. None \<rparr>"
  have "ifindex ?env ''xfrm0'' = Inl (IfindexRead ''xfrm0'')" by (simp add: ifindex_def)
  then show ?thesis
    using load_fail_closed [of ?env False "''xfrm0''" "''eth0''" TEST_KEY None] by (metis Inr_not_Inl prod.collapse)
qed

text \<open>
  The wait ends with success exactly if the interface is there at some
  poll and no signal came before, and it goes on exactly as long as neither has happened: once
  the interface appears, the wait ends at the next poll.
\<close>

theorem wait_for_interface_iff:
  "(wait_for_interface True polls = Some (Inr ()) \<longleftrightarrow>
      (\<exists>n < length polls. fst (polls ! n) \<and> (\<forall>i < n. \<not> fst (polls ! i) \<and> snd (polls ! i) = Slept))) \<and>
   (wait_for_interface True polls = None \<longleftrightarrow> (\<forall>poll \<in> set polls. \<not> fst poll \<and> snd poll = Slept))"
proof (induction polls)
  case (Cons x polls)
  obtain b w where x: "x = (b, w)" by fastforce
  have ex: "(\<exists>n < length (x # polls). fst ((x # polls) ! n) \<and> (\<forall>i < n. \<not> fst ((x # polls) ! i) \<and> snd ((x # polls) ! i) = Slept)) \<longleftrightarrow>
      b \<or> \<not> b \<and> w = Slept \<and> (\<exists>n < length polls. fst (polls ! n) \<and> (\<forall>i < n. \<not> fst (polls ! i) \<and> snd (polls ! i) = Slept))"
    by (cases b) (auto simp: x Ex_less_Suc2 All_less_Suc2)
  show ?case
    using Cons.IH unfolding ex by (cases w) (auto simp: wait_for_interface_def x)
qed (simp add: wait_for_interface_def)

theorem wait_for_interface_iff_witness:
  "wait_for_interface True [(False, Slept), (True, Slept)] = Some (Inr ())"
  using wait_for_interface_iff [of "[(False, Slept), (True, Slept)]"] by (auto simp: Ex_less_Suc2 All_less_Suc2)

section \<open>Start of the daemon\<close>

record daemon_env =
  env_var :: "string \<Rightarrow> string option"
  handler_ok :: bool
  polls :: "(bool \<times> wake) list"
  host_of :: host_env
  db_pool_ok :: bool
  load_fault :: fault
  insert_ok :: "u32 \<Rightarrow> bool"

text \<open>Opening \<open>NAT_MAP\<close> for the tasks of the daemon; the bulk load opens it in the same way.\<close>

definition from_ebpf :: "host_env \<Rightarrow> start_error + unit" where
  "from_ebpf env =
     (if \<not> map_found (bpf_map env ''NAT_MAP'') then Inl (MapNotFound ''NAT_MAP'')
      else if \<not> map_type_ok (bpf_map env ''NAT_MAP'') then Inl (MapType ''NAT_MAP'')
      else Inr ())"

definition required_var :: "daemon_env \<Rightarrow> string \<Rightarrow> start_error + string" where
  "required_var e name = (case env_var e name of None \<Rightarrow> Inl (EnvMissing name) | Some v \<Rightarrow> Inr v)"

definition required_key :: "daemon_env \<Rightarrow> string \<Rightarrow> start_error + ProxySrcKey" where
  "required_key e name =
     (case required_var e name of
        Inl err \<Rightarrow> Inl err
      | Inr hex \<Rightarrow> (case parse_proxy_key_hex hex of Inl err \<Rightarrow> Inl (BadKey name err) | Inr key \<Rightarrow> Inr key))"

definition optional_key :: "daemon_env \<Rightarrow> string \<Rightarrow> start_error + ProxySrcKey option" where
  "optional_key e name =
     (case env_var e name of
        None \<Rightarrow> Inr None
      | Some hex \<Rightarrow> (case parse_proxy_key_hex hex of Inl err \<Rightarrow> Inl (BadKey name err) | Inr key \<Rightarrow> Inr (Some key)))"

text \<open>
  \<open>main\<close> up to the point where the listener and the resolver are spawned. The result is the
  error it ends with, or the maps that the spawned tasks go on with; \<open>None\<close> while it waits.
\<close>

definition daemon_start :: "pg \<Rightarrow> daemon_env \<Rightarrow> bool \<Rightarrow> db \<Rightarrow> (start_error + bpf_maps) option" where
  "daemon_start p e dev d =
     (case required_var e ''DATABASE_URL'' of Inl err \<Rightarrow> Some (Inl err) | Inr _ \<Rightarrow>
     (case required_var e ''INTERFACE_NAME'' of Inl err \<Rightarrow> Some (Inl err) | Inr interface_name \<Rightarrow>
     (case required_var e ''WAN_INTERFACE'' of Inl err \<Rightarrow> Some (Inl err) | Inr wan_interface \<Rightarrow>
     (case required_key e ''PROXY_ADDR_KEY_HEX'' of Inl err \<Rightarrow> Some (Inl err) | Inr key \<Rightarrow>
     (case optional_key e ''PROXY_ADDR_PREV_KEY_HEX'' of Inl err \<Rightarrow> Some (Inl err) | Inr prev_key \<Rightarrow>
     (case wait_for_interface (handler_ok e) (polls e) of
        None \<Rightarrow> None
      | Some (Inl err) \<Rightarrow> Some (Inl err)
      | Some (Inr _) \<Rightarrow>
     (case load_and_attach (host_of e) dev interface_name wan_interface key prev_key of
        (Inl err, _) \<Rightarrow> Some (Inl err)
      | (Inr _, l) \<Rightarrow>
          if \<not> db_pool_ok e then Some (Inl PoolFailed)
          else
            (case bulk_load_from_db p (load_fault e) (from_ebpf (host_of e) = Inr ()) (insert_ok e) d (ebpf_maps l) of
               (Inl err, _) \<Rightarrow> Some (Inl (DaemonFailed err))
             | (Inr _, m) \<Rightarrow> (case from_ebpf (host_of e) of Inl err \<Rightarrow> Some (Inl err) | Inr _ \<Rightarrow> Some (Inr m))))))))))"

lemma daemon_started:
  assumes "inet_text p" "db_ok d" "daemon_start p e dev d = Some (Inr m)"
  shows "\<exists>hex key idx prev a. env_var e ''PROXY_ADDR_KEY_HEX'' = Some hex \<and> parse_proxy_key_hex hex = Inr key \<and>
    m = initial_maps \<lparr> NAT_MAP := nat_of_db d, XFRM_IFINDEX := [idx], OBFS_KEYS := [key, prev], DEV_WAN_IPV6 := [a] \<rparr> \<and>
    (\<not> dev \<longrightarrow> a = zero_addr)"
proof -
  obtain hex key prev tunnel wan l n where
    hex: "env_var e ''PROXY_ADDR_KEY_HEX'' = Some hex" "parse_proxy_key_hex hex = Inr key"
    and l: "load_and_attach (host_of e) dev tunnel wan key prev = (Inr (), l)"
    and m: "bulk_load_from_db p (load_fault e) (from_ebpf (host_of e) = Inr ()) (insert_ok e) d (ebpf_maps l) = (Inr n, m)"
    using assms(3)
    by (auto simp: daemon_start_def required_key_def required_var_def
        split: sum.splits option.splits prod.splits if_splits)
  obtain idx a where "ebpf_maps l = initial_maps \<lparr> XFRM_IFINDEX := [idx],
      OBFS_KEYS := [key, case prev of None \<Rightarrow> zero_key | Some k \<Rightarrow> k], DEV_WAN_IPV6 := [a] \<rparr>" "\<not> dev \<longrightarrow> a = zero_addr"
    using loaded_maps [OF l] by auto
  moreover from this(1) have "m = (ebpf_maps l) \<lparr> NAT_MAP := nat_of_db d \<rparr>"
    using inet_text.bulk_load_result [OF assms(1,2) m] by (simp add: initial_maps_def)
  ultimately show ?thesis using hex by (fastforce simp: initial_maps_def)
qed

lemma active_key_parsed: "parse_proxy_key_hex hex = Inr key \<Longrightarrow> OBFS_KEYS m = [key, prev] \<Longrightarrow> active_key m = Some key"
  using parsed_key_nonzero by (simp add: active_key_def array_get_def)

lemma listening_after_start:
  assumes "db_ok d" "NAT_MAP m = nat_of_db d"
  shows "ready (sys_step p Listen \<lparr> sys_db = d, sys_maps = m, tasks = [], resolving = None \<rparr>)"
  using assms by (auto simp: ready_def sys_step_def set_queue_def in_sync_def nat_of_db_mem)

text \<open>
  C13. When the daemon has started, the key of its environment is active, the
  map describes exactly the domains of the database, and if the listener connects before the
  database changes, the control plane is in a state from which it stays synchronised.
\<close>

theorem daemon_start_ready:
  assumes "inet_text p" "db_ok d" "daemon_start p e dev d = Some (Inr m)"
  shows "(\<exists>hex key. env_var e ''PROXY_ADDR_KEY_HEX'' = Some hex \<and> parse_proxy_key_hex hex = Inr key \<and> active_key m = Some key) \<and>
    NAT_MAP m = nat_of_db d \<and>
    ready (sys_step p Listen \<lparr> sys_db = d, sys_maps = m, tasks = [], resolving = None \<rparr>)"
  using daemon_started [OF assms] active_key_parsed listening_after_start [OF assms(2)] by fastforce

definition good_env :: daemon_env where
  "good_env = \<lparr> env_var = (\<lambda>name. if name = ''PROXY_ADDR_KEY_HEX'' then Some (concat (replicate 32 ''+1''))
       else if name = ''PROXY_ADDR_PREV_KEY_HEX'' then None else Some ''x''),
     handler_ok = True, polls = [(True, Slept)], host_of = good_host, db_pool_ok = True, load_fault = Fine,
     insert_ok = (\<lambda>_. True) \<rparr>"

lemma good_from_ebpf: "from_ebpf good_host = Inr ()"
  by (simp add: from_ebpf_def good_host_def)

definition good_maps :: bpf_maps where
  "good_maps = initial_maps \<lparr> XFRM_IFINDEX := [5], OBFS_KEYS := [ones_key, zero_key] \<rparr>"

lemma good_start: "daemon_start std_pg good_env False initial_db = Some (Inr good_maps)"
proof -
  have "required_key good_env ''PROXY_ADDR_KEY_HEX'' = Inr ones_key"
    using plus_key by (simp add: required_key_def required_var_def good_env_def)
  then show ?thesis
    by (simp add: daemon_start_def)
      (simp add: good_env_def required_var_def good_from_ebpf optional_key_def wait_for_interface_def good_load
        bulk_load_from_db_def run_query_def all_origins_def initial_db_def good_maps_def)
qed

theorem daemon_start_ready_witness:
  "(\<exists>key. active_key good_maps = Some key) \<and>
   ready (sys_step std_pg Listen \<lparr> sys_db = initial_db, sys_maps = good_maps, tasks = [], resolving = None \<rparr>)"
  using daemon_start_ready [OF std.inet_text_axioms db_ok_initial good_start] by blast

end
