(* ===== verification/Lifecycle.thy ===== *)
theory Lifecycle
  imports Loader
begin

text \<open>
  The daemon after its start (\<open>main\<close> of \<open>daemon/src/main.rs\<close> from the spawned tasks on): the
  task of the listener, the task of the periodic resolver and the wait for a signal, as a state
  machine whose events come in any order. The listener is \<open>listen_for_changes\<close> cut at the calls
  that it awaits; if it returns an error its task panics, which ends the task and not the process.
\<close>

section \<open>State and events\<close>

text \<open>
  Where the listener waits: for the pool, for the connection, for a notification, for the end of
  a pause. The number is the current backoff. A panicked task is gone.
\<close>

datatype listener_task = Pooling nat | Connecting nat | Listening nat | Pausing nat | Panicked daemon_error

record process =
  proc_db :: db
  proc_maps :: bpf_maps
  listener :: listener_task
  running :: bool

text \<open>
  The elapsed seconds of a run of the listener come with the event that ends it. \<open>Tick\<close> is a pass
  of the resolver, \<open>OtherWrite\<close> what other programs do to the database. \<open>ShutdownSignal\<close> also
  stands for an error of the signal handlers, which ends \<open>main\<close> as a signal does.
\<close>

datatype proc_event =
    Pooled bool
  | Connected bool bool nat
  | Notified string fault bool nat
  | RecvError nat
  | Woken
  | Tick fault "string \<Rightarrow> lookup_result" "i32 \<Rightarrow> attempt"
  | OtherWrite db
  | ShutdownSignal

definition spawn_tasks :: "db \<Rightarrow> bpf_maps \<Rightarrow> process" where
  "spawn_tasks d m = \<lparr> proc_db = d, proc_maps = m, listener = Pooling INITIAL_BACKOFF, running = True \<rparr>"

section \<open>Steps\<close>

text \<open>An event that the listener does not wait for leaves it alone.\<close>

fun listener_step :: "pg \<Rightarrow> proc_event \<Rightarrow> db \<Rightarrow> listener_task \<times> bpf_maps \<Rightarrow> listener_task \<times> bpf_maps" where
  "listener_step p (Pooled ok) d (Pooling b, m) = (if ok then Connecting b else Panicked ConnectFailed, m)"
| "listener_step p (Connected connected listening secs) d (Connecting b, m) =
     (if connected \<and> listening then Listening b else Pausing (next_backoff secs b), m)"
| "listener_step p (Notified pload f ok secs) d (Listening b, m) =
     (case handle_notification p f ok pload d m of
        (Inl e, m) \<Rightarrow> (Pausing (next_backoff secs b), m)
      | (Inr _, m) \<Rightarrow> (Listening b, m))"
| "listener_step p (RecvError secs) d (Listening b, m) = (Pausing (next_backoff secs b), m)"
| "listener_step p Woken d (Pausing b, m) = (Pooling b, m)"
| "listener_step p ev d s = s"

definition proc_step :: "pg \<Rightarrow> proc_event \<Rightarrow> process \<Rightarrow> process" where
  "proc_step p ev s =
     (if \<not> running s then s
      else case ev of
          ShutdownSignal \<Rightarrow> s\<lparr>running := False\<rparr>
        | OtherWrite d \<Rightarrow> s\<lparr>proc_db := d\<rparr>
        | Tick f ipv6_lookup att \<Rightarrow>
            (let (_, d, m) = resolve_all p f ipv6_lookup att (proc_db s) (proc_maps s)
             in s\<lparr>proc_db := d, proc_maps := m\<rparr>)
        | _ \<Rightarrow>
            (let (l, m) = listener_step p ev (proc_db s) (listener s, proc_maps s)
             in s\<lparr>listener := l, proc_maps := m\<rparr>))"

fun proc_run :: "pg \<Rightarrow> proc_event list \<Rightarrow> process \<Rightarrow> process" where
  "proc_run p [] s = s"
| "proc_run p (ev # evs) s = proc_run p evs (proc_step p ev s)"

section \<open>Lemmas\<close>

fun heard :: "proc_event \<Rightarrow> bool" where
  "heard (Tick f l a) = False"
| "heard (OtherWrite d) = False"
| "heard ShutdownSignal = False"
| "heard ev = True"

lemma proc_run_append: "proc_run p (xs @ ys) s = proc_run p ys (proc_run p xs s)"
  by (induction xs arbitrary: s) simp_all

lemma step_running: "running (proc_step p ev s) \<longleftrightarrow> running s \<and> ev \<noteq> ShutdownSignal"
  by (cases ev) (simp_all add: proc_step_def split: prod.split)

lemma run_running: "running (proc_run p evs s) \<longleftrightarrow> running s \<and> ShutdownSignal \<notin> set evs"
  by (induction evs arbitrary: s) (auto simp: step_running)

lemma listener_panicked: "listener_step p ev d (Panicked e, m) = (Panicked e, m)"
  by (cases ev) simp_all

lemma step_panicked: "listener s = Panicked e \<Longrightarrow> listener (proc_step p ev s) = Panicked e"
  by (cases ev) (auto simp: proc_step_def listener_panicked split: prod.split)

lemma step_deaf: "listener s = Panicked e \<Longrightarrow> heard ev \<Longrightarrow> proc_step p ev s = s"
  by (cases ev) (auto simp: proc_step_def listener_panicked)

lemma run_deaf:
  "listener s = Panicked e \<Longrightarrow> listener (proc_run p evs s) = Panicked e \<and>
     proc_run p evs s = proc_run p (filter (\<lambda>ev. \<not> heard ev) evs) s"
proof (induction evs arbitrary: s)
  case (Cons ev evs)
  show ?case
  proof (cases "heard ev")
    case True
    then have "proc_step p ev s = s" by (rule step_deaf [OF Cons.prems])
    with Cons.IH [OF Cons.prems] True show ?thesis by (metis filter.simps(2) proc_run.simps(2))
  next
    case False
    with Cons.IH [OF step_panicked [OF Cons.prems], of p ev] show ?thesis by (metis filter.simps(2) proc_run.simps(2))
  qed
qed simp

text \<open>A panic needs a pool that could not be created.\<close>

lemma step_panics: "listener (proc_step p ev s) = Panicked e \<Longrightarrow> listener s = Panicked e \<or> ev = Pooled False \<and> e = ConnectFailed"
  by (cases ev; cases "listener s") (auto simp: proc_step_def split: if_splits prod.splits sum.splits)

lemma run_panics:
  "listener (proc_run p evs s) = Panicked e \<Longrightarrow> listener s \<noteq> Panicked e \<Longrightarrow> Pooled False \<in> set evs \<and> e = ConnectFailed"
  by (induction evs arbitrary: s) (auto dest: step_panics)

text \<open>The backoff of a task, and its bounds.\<close>

fun task_backoff :: "listener_task \<Rightarrow> nat" where
  "task_backoff (Pooling b) = b"
| "task_backoff (Connecting b) = b"
| "task_backoff (Listening b) = b"
| "task_backoff (Pausing b) = b"
| "task_backoff (Panicked e) = INITIAL_BACKOFF"

lemma next_backoff_bounds: "1 \<le> b \<Longrightarrow> 1 \<le> next_backoff secs b \<and> next_backoff secs b \<le> 30"
  by (auto simp: next_backoff_def INITIAL_BACKOFF_def MAX_BACKOFF_def)

lemma step_backoff:
  assumes "1 \<le> task_backoff (listener s) \<and> task_backoff (listener s) \<le> 30"
  shows "1 \<le> task_backoff (listener (proc_step p ev s)) \<and> task_backoff (listener (proc_step p ev s)) \<le> 30"
  using assms next_backoff_bounds
  by (cases ev; cases "listener s")
    (auto simp: proc_step_def INITIAL_BACKOFF_def split: if_splits prod.splits sum.splits)

lemma run_backoff:
  "1 \<le> task_backoff (listener s) \<and> task_backoff (listener s) \<le> 30 \<Longrightarrow>
   1 \<le> task_backoff (listener (proc_run p evs s)) \<and> task_backoff (listener (proc_run p evs s)) \<le> 30"
  by (induction evs arbitrary: s) (simp_all add: step_backoff del: One_nat_def)

section \<open>The listener as a whole\<close>

text \<open>The events of a run of \<open>run_listener\<close> that has connected.\<close>

fun received_events :: "nat \<Rightarrow> received list \<Rightarrow> proc_event list" where
  "received_events secs [] = []"
| "received_events secs (ConnectionLost # rs) = [RecvError secs]"
| "received_events secs (Notification pload d f ok # rs) = OtherWrite d # Notified pload f ok secs # received_events secs rs"

definition round_events :: "round \<Rightarrow> proc_event list" where
  "round_events r =
     Pooled (pool_ok r) # Connected (connect_ok r) (listen_ok r) (elapsed r) # received_events (elapsed r) (events r)"

text \<open>A task that pauses or has panicked takes no notice of what is received.\<close>

lemma received_ignored:
  assumes "\<exists>b. listener s = Pausing b \<or> (\<exists>e. listener s = Panicked e)"
  shows "listener (proc_run p (received_events secs rs) s) = listener s \<and>
    proc_maps (proc_run p (received_events secs rs) s) = proc_maps s"
  using assms
proof (induction secs rs arbitrary: s rule: received_events.induct)
  case (3 secs pload d f ok rs)
  let ?s = "proc_step p (Notified pload f ok secs) (proc_step p (OtherWrite d) s)"
  have "listener ?s = listener s" "proc_maps ?s = proc_maps s"
    using 3(2) by (auto simp: proc_step_def)
  with 3(1) [of ?s] 3(2) show ?case by simp
qed (auto simp: proc_step_def)

lemma received_run:
  assumes "listener s = Listening b" "running s"
  shows "case listen_loop p rs (proc_maps s) of (res, m') \<Rightarrow>
    proc_maps (proc_run p (received_events secs rs) s) = m' \<and>
    listener (proc_run p (received_events secs rs) s) = (if res = None then Listening b else Pausing (next_backoff secs b))"
  using assms
proof (induction secs rs arbitrary: s rule: received_events.induct)
  case (3 secs pload d f ok rs)
  let ?s = "proc_step p (Notified pload f ok secs) (proc_step p (OtherWrite d) s)"
  obtain x m where h: "handle_notification p f ok pload d (proc_maps s) = (x, m)" by fastforce
  show ?case
  proof (cases x)
    case (Inl e)
    then have "listener ?s = Pausing (next_backoff secs b)" "proc_maps ?s = m"
      using 3(2,3) h by (simp_all add: proc_step_def)
    with received_ignored [of ?s p secs rs] show ?thesis using Inl h by simp
  next
    case (Inr u)
    then have "listener ?s = Listening b" "proc_maps ?s = m" "running ?s"
      using 3(2,3) h by (simp_all add: proc_step_def)
    with 3(1) [of ?s] show ?thesis using Inr h by simp
  qed
qed (auto simp: proc_step_def)

lemma round_run:
  assumes "listener s = Pooling b" "running s" "pool_ok r"
  shows "case run_listener p (connect_ok r) (listen_ok r) (events r) (proc_maps s) of (res, m') \<Rightarrow>
    proc_maps (proc_run p (round_events r) s) = m' \<and>
    listener (proc_run p (round_events r) s) = (if res = None then Listening b else Pausing (next_backoff (elapsed r) b))"
proof (cases "connect_ok r \<and> listen_ok r")
  case True
  let ?s = "s\<lparr>listener := Listening b\<rparr>"
  have "proc_run p (round_events r) s = proc_run p (received_events (elapsed r) (events r)) ?s"
    using assms True by (simp add: round_events_def proc_step_def)
  with received_run [where s = ?s and b = b and p = p and rs = "events r" and secs = "elapsed r"] assms(2) True show ?thesis by (simp add: run_listener_def)
next
  case False
  let ?s = "s\<lparr>listener := Pausing (next_backoff (elapsed r) b)\<rparr>"
  have "proc_run p (round_events r) s = proc_run p (received_events (elapsed r) (events r)) ?s"
    using assms False by (auto simp: round_events_def proc_step_def)
  with received_ignored [of ?s p "elapsed r" "events r"] False show ?thesis by (auto simp: run_listener_def)
qed

definition listener_only :: "proc_event list \<Rightarrow> bool" where
  "listener_only evs \<longleftrightarrow> list_all (\<lambda>ev. heard ev \<or> (\<exists>d. ev = OtherWrite d)) evs"

lemma listener_only_round: "listener_only (round_events r)"
proof -
  have "listener_only (received_events secs rs)" for secs rs
    by (induction secs rs rule: received_events.induct) (auto simp: listener_only_def)
  then show ?thesis by (simp add: round_events_def listener_only_def)
qed

lemma listener_only_running: "listener_only evs \<Longrightarrow> running (proc_run p evs s) = running s"
  by (auto simp: run_running listener_only_def list_all_iff)

lemma supervise_run:
  assumes "supervise p b rs (proc_maps s) = (e, sleeps, m')" "listener s = Pooling b" "running s"
  shows "\<exists>evs. listener_only evs \<and> proc_maps (proc_run p evs s) = m' \<and>
    (\<forall>x. e = Some x \<longrightarrow> listener (proc_run p evs s) = Panicked x)"
  using assms
proof (induction rs arbitrary: b s sleeps)
  case Nil
  then show ?case by (intro exI [of _ "[]"]) (auto simp: listener_only_def)
next
  case (Cons r rs)
  show ?case
  proof (cases "pool_ok r")
    case False
    with Cons.prems show ?thesis
      by (intro exI [of _ "[Pooled False]"]) (auto simp: listener_only_def proc_step_def)
  next
    case True
    let ?s = "proc_run p (round_events r) s"
    obtain res m where l: "run_listener p (connect_ok r) (listen_ok r) (events r) (proc_maps s) = (res, m)" by fastforce
    from round_run [OF Cons.prems(2,3) True, of p] have
      s: "proc_maps ?s = m" "listener ?s = (if res = None then Listening b else Pausing (next_backoff (elapsed r) b))"
      by (simp_all add: l)
    have up: "running ?s" using listener_only_running [OF listener_only_round] Cons.prems(3) by simp
    show ?thesis
    proof (cases res)
      case None
      with Cons.prems(1) True l s show ?thesis
        by (intro exI [of _ "round_events r"]) (auto simp: listener_only_round)
    next
      case (Some x)
      let ?t = "proc_step p Woken ?s"
      have t: "proc_maps ?t = m" "listener ?t = Pooling (next_backoff (elapsed r) b)" "running ?t"
        using s Some up by (simp_all add: proc_step_def)
      obtain sl where "supervise p (next_backoff (elapsed r) b) rs (proc_maps ?t) = (e, sl, m')"
        using Cons.prems(1) True l Some t(1) by (auto simp: Let_def split: prod.splits)
      from Cons.IH [OF this t(2,3)] obtain evs where
        "listener_only evs" "proc_maps (proc_run p evs ?t) = m'" "\<forall>x. e = Some x \<longrightarrow> listener (proc_run p evs ?t) = Panicked x"
        by blast
      then show ?thesis
        using listener_only_round [of r]
        by (intro exI [of _ "round_events r @ Woken # evs"]) (auto simp: proc_run_append listener_only_def)
    qed
  qed
qed

section \<open>Properties\<close>



text \<open>
  C15. If the supervisor of the listener ends with an error, which it reaches in a run
  of the process with the same effect on the maps, its task is gone and the process goes on
  without it: from then on nothing but the periodic resolver changes the maps, and every
  notification is ignored until the process is told to stop.
\<close>

theorem daemon_deaf:
  assumes "listen_for_changes p rs m = (Some x, sleeps, m')"
  shows "\<exists>evs. let s = proc_run p evs (spawn_tasks d m) in
    listener_only evs \<and> proc_maps s = m' \<and> running s \<and> listener s = Panicked x \<and>
    (\<forall>later. proc_run p later s = proc_run p (filter (\<lambda>ev. \<not> heard ev) later) s \<and>
      (ShutdownSignal \<notin> set later \<longrightarrow> running (proc_run p later s)))"
proof -
  have "supervise p INITIAL_BACKOFF rs (proc_maps (spawn_tasks d m)) = (Some x, sleeps, m')"
    "listener (spawn_tasks d m) = Pooling INITIAL_BACKOFF" "running (spawn_tasks d m)"
    using assms by (simp_all add: listen_for_changes_def spawn_tasks_def)
  from supervise_run [OF this] obtain evs where
    e: "listener_only evs" "proc_maps (proc_run p evs (spawn_tasks d m)) = m'"
      "listener (proc_run p evs (spawn_tasks d m)) = Panicked x"
    by blast
  then have "running (proc_run p evs (spawn_tasks d m))"
    using listener_only_running [OF e(1)] by (simp add: spawn_tasks_def)
  then show ?thesis
    using e run_deaf [OF e(3)] run_running by (intro exI [of _ evs]) (auto simp: Let_def)
qed

theorem daemon_deaf_witness:
  "listen_for_changes std_pg [sample_round False] initial_maps = (Some ConnectFailed, [], initial_maps) \<and>
   (\<exists>evs. running (proc_run std_pg evs (spawn_tasks initial_db initial_maps)) \<and>
      listener (proc_run std_pg evs (spawn_tasks initial_db initial_maps)) = Panicked ConnectFailed)"
proof -
  have "listen_for_changes std_pg [sample_round False] initial_maps = (Some ConnectFailed, [], initial_maps)"
    by (simp add: listen_for_changes_def sample_round_def)
  with daemon_deaf [OF this, of initial_db] show ?thesis by (auto simp: Let_def)
qed

end
