(* ===== verification/DnsServer.thy ===== *)
theory DnsServer
  imports Dns
begin

text \<open>
  The receive loop of the DNS server (\<open>dns-server/src/main.rs\<close>): a semaphore bounds the
  queries in flight, further queries are answered with SERVFAIL at once, and so are queries
  that fail or time out.
\<close>

section \<open>Configuration\<close>

definition DEFAULT_MAX_CONCURRENT_QUERIES :: nat where
  "DEFAULT_MAX_CONCURRENT_QUERIES = 256"

definition DEFAULT_QUERY_TIMEOUT_SECS :: nat where
  "DEFAULT_QUERY_TIMEOUT_SECS = 5"

definition SATURATION_LOG_INTERVAL :: u64 where
  "SATURATION_LOG_INTERVAL = 100"

text \<open>A variable that is not set or not a 64-bit number selects the default.\<close>

definition env_number :: "string option \<Rightarrow> nat \<Rightarrow> nat" where
  "env_number var dflt =
     (case var of
        None \<Rightarrow> dflt
      | Some v \<Rightarrow> (case parse_uint 10 (2 ^ 64 - 1) v of None \<Rightarrow> dflt | Some n \<Rightarrow> n))"

definition max_concurrent :: "string option \<Rightarrow> nat" where
  "max_concurrent var = env_number var DEFAULT_MAX_CONCURRENT_QUERIES"

definition query_timeout :: "string option \<Rightarrow> nat" where
  "query_timeout var = env_number var DEFAULT_QUERY_TIMEOUT_SECS"

section \<open>State and steps\<close>

type_synonym peer = "bytes \<times> u16"

text \<open>\<open>warnings\<close> counts the lines that the saturation logger wrote.\<close>

record server =
  permits :: nat
  in_flight :: "(peer \<times> bytes) list"
  dropped_count :: u64
  warnings :: nat
  sent :: "(peer \<times> bytes) list"

definition start_server :: "nat \<Rightarrow> server" where
  "start_server mx = \<lparr> permits = mx, in_flight = [], dropped_count = 0, warnings = 0, sent = [] \<rparr>"

definition send_to :: "peer \<Rightarrow> bytes option \<Rightarrow> server \<Rightarrow> server" where
  "send_to src pkt s = (case pkt of None \<Rightarrow> s | Some v \<Rightarrow> s \<lparr> sent := sent s @ [(src, v)] \<rparr>)"

text \<open>One iteration of the loop; \<open>recv_from\<close> cuts a datagram to the 4096 bytes of the buffer.\<close>

definition recv_step :: "'n hickory \<Rightarrow> peer \<Rightarrow> bytes \<Rightarrow> server \<Rightarrow> server" where
  "recv_step h src packet s =
     (let data = take 4096 packet
      in if permits s = 0 then
           let n = dropped_count s + 1;
               s = s \<lparr> dropped_count := n,
                      warnings := warnings s + (if n mod SATURATION_LOG_INTERVAL = 1 then 1 else 0) \<rparr>
           in send_to src (servfail h data) s
         else s \<lparr> permits := permits s - 1, in_flight := in_flight s @ [(src, data)] \<rparr>)"

datatype task_end = Handled "dns_error + bytes" | TimedOut

definition task_reply :: "'n hickory \<Rightarrow> bytes \<Rightarrow> task_end \<Rightarrow> bytes option" where
  "task_reply h data e =
     (case e of
        Handled (Inr response) \<Rightarrow> Some response
      | Handled (Inl _) \<Rightarrow> servfail h data
      | TimedOut \<Rightarrow> servfail h data)"

definition finish_step :: "'n hickory \<Rightarrow> nat \<Rightarrow> task_end \<Rightarrow> server \<Rightarrow> server" where
  "finish_step h i e s =
     (let (src, data) = in_flight s ! i
      in (send_to src (task_reply h data e) s)
           \<lparr> permits := permits s + 1, in_flight := take i (in_flight s) @ drop (Suc i) (in_flight s) \<rparr>)"

text \<open>The states after \<open>n\<close> datagrams; queries finish in any order.\<close>

inductive server_run :: "'n hickory \<Rightarrow> nat \<Rightarrow> nat \<Rightarrow> server \<Rightarrow> bool" for h mx where
  start: "server_run h mx 0 (start_server mx)"
| recv: "server_run h mx n s \<Longrightarrow> server_run h mx (Suc n) (recv_step h src packet s)"
| finish: "server_run h mx n s \<Longrightarrow> i < length (in_flight s) \<Longrightarrow> server_run h mx n (finish_step h i e s)"

section \<open>Start\<close>

text \<open>
  What \<open>main\<close> meets before its loop: the environment variables, whether the database can be
  reached and a socket be bound, and the largest number of permits of a semaphore, beyond which
  its constructor panics.
\<close>

record dns_env =
  env_database_url :: "string option"
  env_listen_addr :: "string option"
  env_max_concurrent :: "string option"
  env_query_timeout :: "string option"
  pool_connects :: "string \<Rightarrow> bool"
  can_bind :: "socket_addr \<Rightarrow> bool"
  max_permits :: nat

datatype dns_start_error = NoDatabaseUrl | PoolFailed | InvalidListenAddr | SemaphorePanic | BindFailed

text \<open>The address that is bound, the time limit of a query and the state at the start of the loop.\<close>

definition dns_main :: "dns_env \<Rightarrow> dns_start_error + socket_addr \<times> nat \<times> server" where
  "dns_main e =
     (case env_database_url e of
        None \<Rightarrow> Inl NoDatabaseUrl
      | Some database_url \<Rightarrow>
     let listen_addr = (case env_listen_addr e of None \<Rightarrow> ''0.0.0.0:53'' | Some v \<Rightarrow> v);
         mx = max_concurrent (env_max_concurrent e);
         secs = query_timeout (env_query_timeout e)
     in if \<not> pool_connects e database_url then Inl PoolFailed
        else case socket_from_str listen_addr of
            None \<Rightarrow> Inl InvalidListenAddr
          | Some socket_addr \<Rightarrow>
              if mx > max_permits e then Inl SemaphorePanic
              else if \<not> can_bind e socket_addr then Inl BindFailed
              else Inr (socket_addr, secs, start_server mx))"

section \<open>Lemmas\<close>

lemma send_to_fields [simp]:
  "permits (send_to src v s) = permits s" "in_flight (send_to src v s) = in_flight s"
  "dropped_count (send_to src v s) = dropped_count s" "warnings (send_to src v s) = warnings s"
  by (simp_all add: send_to_def split: option.split)

lemma length_remove_nth: "i < length xs \<Longrightarrow> length (take i xs @ drop (Suc i) xs) = length xs - 1"
  by simp

lemma permits_balance: "server_run h mx n s \<Longrightarrow> permits s + length (in_flight s) = mx"
proof (induction rule: server_run.induct)
  case start
  then show ?case by (simp add: start_server_def)
next
  case (recv n s src packet)
  then show ?case by (auto simp: recv_step_def Let_def)
next
  case (finish n s i e)
  then show ?case by (auto simp: finish_step_def Let_def split: prod.split)
qed

lemma warn_step: "(Suc m + 99) div 100 = (m + 99) div 100 + (if (m + 1) mod 100 = 1 then 1 else 0 :: nat)"
proof -
  define q r where "q = m div 100" and "r = m mod 100"
  have m: "m = 100 * q + r" "r < 100" by (simp_all add: q_def r_def)
  have "(m + 1) mod 100 = (r + 1) mod 100" by (simp add: m(1))
  then have c: "(m + 1) mod 100 = 1 \<longleftrightarrow> r = 0" using m(2) by (cases "r = 99") auto
  have "(m + 99) div 100 = q + (r + 99) div 100" "(Suc m + 99) div 100 = q + (r + 100) div 100"
    by (simp_all add: m(1))
  moreover have "(r + 99) div 100 = (if r = 0 then 0 else 1)" "(r + 100) div 100 = 1"
    using m(2) by (auto simp: div_nat_eqI)
  ultimately show ?thesis using c by simp
qed

lemma logged_drops:
  "server_run h mx n s \<Longrightarrow> n < 2 ^ 64 \<Longrightarrow> unat (dropped_count s) \<le> n \<and> warnings s = (unat (dropped_count s) + 99) div 100"
proof (induction rule: server_run.induct)
  case start
  then show ?case by (simp add: start_server_def)
next
  case (recv n s src packet)
  then have le: "unat (dropped_count s) \<le> n" and w: "warnings s = (unat (dropped_count s) + 99) div 100" by simp_all
  have u: "unat (dropped_count s + 1) = unat (dropped_count s) + 1"
    using le recv.prems by (simp add: unat_plus_if_size word_size)
  have m: "(dropped_count s + 1) mod SATURATION_LOG_INTERVAL = 1 \<longleftrightarrow> (unat (dropped_count s) + 1) mod 100 = 1"
    using u by (simp add: SATURATION_LOG_INTERVAL_def word_unat_eq_iff unat_mod_distrib)
  show ?case
    using le w u m warn_step [of "unat (dropped_count s)"] by (simp add: recv_step_def Let_def)
next
  case (finish n s i e)
  then show ?case by (auto simp: finish_step_def Let_def split: prod.split)
qed

lemma shed_sent:
  "permits s = 0 \<Longrightarrow> sent (recv_step h src packet s) =
     sent s @ (case servfail h (take 4096 packet) of None \<Rightarrow> [] | Some v \<Rightarrow> [(src, v)])"
  by (simp add: recv_step_def Let_def send_to_def split: option.split)

lemma finish_sent:
  "in_flight s ! i = (src, data) \<Longrightarrow> sent (finish_step h i e s) =
     sent s @ (case task_reply h data e of None \<Rightarrow> [] | Some v \<Rightarrow> [(src, v)])"
  by (simp add: finish_step_def send_to_def split: option.split)

section \<open>Properties\<close>

text \<open>
  C21. However queries arrive and finish, the number of queries in flight and the
  number of free permits add up to the limit, and the saturation logger has written one line
  for each hundred queries that were turned away, rounded up.
\<close>

theorem server_bounded:
  assumes "server_run h mx n s" "n < 2 ^ 64"
  shows "permits s + length (in_flight s) = mx \<and> length (in_flight s) \<le> mx \<and>
    warnings s = (unat (dropped_count s) + 99) div 100"
  using permits_balance [OF assms(1)] logged_drops [OF assms] by simp

theorem server_bounded_witness:
  "permits (recv_step sample_hickory ([], 0) [1] (start_server 1)) +
     length (in_flight (recv_step sample_hickory ([], 0) [1] (start_server 1))) = 1"
  using server_bounded [OF server_run.recv [OF server_run.start [of sample_hickory 1], of "([], 0)" "[1]"]] by simp



lemma default_listen_addr: "socket_from_str ''0.0.0.0:53'' = Some (SocketV4 [0, 0, 0, 0] 53)"
proof -
  have "char_of (48 :: nat) = CHR ''0''" "char_of (53 :: nat) = CHR ''5''" "char_of (51 :: nat) = CHR ''3''"
    by code_simp+
  then have "socket_to_string (SocketV4 [0, 0, 0, 0] 53) = ''0.0.0.0:53''"
    by (simp add: ipv4_to_string_def radix_digits.simps digit_char_def)
  with socket_roundtrip [of "SocketV4 [0, 0, 0, 0] 53"] show ?thesis by simp
qed

lemma env_number_digits: "n < 2 ^ 64 \<Longrightarrow> env_number (Some (radix_digits 10 n)) d = n"
  using parse_uint_digits [of 10 n "2 ^ 64 - 1"] by (simp add: env_number_def)

text \<open>
  C23. The server does what its environment says: with the text of any
  IPv4 or IPv6 socket address it binds this address (without one, port 53 of all IPv4 addresses),
  with the decimal text of a number it starts with that many permits, and from then on never has
  more queries in flight.
\<close>

theorem dns_main_configured:
  assumes "env_database_url e = Some url" "pool_connects e url"
    and "env_listen_addr e = map_option socket_to_string addr" "addr \<noteq> None \<longrightarrow> socket_ok (the addr)"
    and "env_max_concurrent e = Some (radix_digits 10 n)" "n < 2 ^ 64" "n \<le> max_permits e"
    and "can_bind e (case addr of None \<Rightarrow> SocketV4 [0, 0, 0, 0] 53 | Some a \<Rightarrow> a)"
  shows "\<exists>secs s0. dns_main e = Inr (case addr of None \<Rightarrow> SocketV4 [0, 0, 0, 0] 53 | Some a \<Rightarrow> a, secs, s0) \<and>
    permits s0 = n \<and> server_run h n 0 s0 \<and> (\<forall>k s. server_run h n k s \<longrightarrow> length (in_flight s) \<le> n)"
proof -
  have "length (in_flight s) \<le> n" if "server_run h n k s" for k s
    using permits_balance [OF that] by simp
  moreover have "permits (start_server n) = n" by (simp add: start_server_def)
  moreover have "dns_main e = Inr (case addr of None \<Rightarrow> SocketV4 [0, 0, 0, 0] 53 | Some a \<Rightarrow> a,
      query_timeout (env_query_timeout e), start_server n)"
    using assms by (cases addr) (auto simp: dns_main_def max_concurrent_def env_number_digits default_listen_addr socket_roundtrip)
  ultimately show ?thesis using server_run.start [of h n] by blast
qed

definition sample_env :: dns_env where
  "sample_env =
     \<lparr> env_database_url = Some ''postgres://db'',
       env_listen_addr = Some (socket_to_string (SocketV6 (replicate 15 0 @ [1]) 0 5353)),
       env_max_concurrent = Some (radix_digits 10 2), env_query_timeout = None,
       pool_connects = (\<lambda>_. True), can_bind = (\<lambda>_. True), max_permits = 2 ^ 61 - 1 \<rparr>"

theorem dns_main_configured_witness:
  "\<exists>secs s0. dns_main sample_env = Inr (SocketV6 (replicate 15 0 @ [1]) 0 5353, secs, s0) \<and> permits s0 = 2"
  using dns_main_configured [of sample_env "''postgres://db''" "Some (SocketV6 (replicate 15 0 @ [1]) 0 5353)" 2 sample_hickory]
  by (auto simp: sample_env_def)

end
