(* ===== verification/Xtask.thy ===== *)
theory Xtask
  imports DaemonKey Ipv6Text
begin

text \<open>
  The workspace tool (\<open>xtask/src/main.rs\<close>): the location of the workspace, the check of the
  configuration files against the contract, the build command of the eBPF object, the decoder of
  proxy-source addresses and the dispatch to them. The file system, the output of \<open>cargo\<close>, the TOML
  parser and the exit status of the build are arguments; the command line is parsed by a library.
\<close>

section \<open>Paths\<close>

text \<open>\<open>String::from_utf8\<close>: the well-formed byte sequences of UTF-8.\<close>

definition utf8_tail :: "char \<Rightarrow> bool" where
  "utf8_tail c \<longleftrightarrow> 0x80 \<le> char_code c \<and> char_code c \<le> 0xBF"

text \<open>The bounds of the second byte after a given first byte, and the number of bytes that follow it.\<close>

definition utf8_second :: "nat \<Rightarrow> (nat \<times> nat \<times> nat) option" where
  "utf8_second b =
     (if 0xC2 \<le> b \<and> b \<le> 0xDF then Some (0x80, 0xBF, 0)
      else if b = 0xE0 then Some (0xA0, 0xBF, 1)
      else if b = 0xED then Some (0x80, 0x9F, 1)
      else if 0xE1 \<le> b \<and> b \<le> 0xEF then Some (0x80, 0xBF, 1)
      else if b = 0xF0 then Some (0x90, 0xBF, 2)
      else if 0xF1 \<le> b \<and> b \<le> 0xF3 then Some (0x80, 0xBF, 2)
      else if b = 0xF4 then Some (0x80, 0x8F, 2)
      else None)"

function utf8_valid :: "string \<Rightarrow> bool" where
  "utf8_valid [] = True"
| "utf8_valid (c # cs) =
     (if char_code c < 128 then utf8_valid cs
      else
        (case utf8_second (char_code c) of
           None \<Rightarrow> False
         | Some (lo, hi, n) \<Rightarrow>
             cs \<noteq> [] \<and> lo \<le> char_code (hd cs) \<and> char_code (hd cs) \<le> hi \<and> n \<le> length (tl cs) \<and>
             list_all utf8_tail (take n (tl cs)) \<and> utf8_valid (drop (Suc n) cs)))"
  by pat_completeness auto

termination
  by (relation "measure length") auto

text \<open>
  \<open>Path::parent\<close> on the reversed text: separators and \<open>.\<close> components at the end are not part of
  the last component; a path without a component, or the root, has no parent.
\<close>

fun path_trim :: "string \<Rightarrow> string" where
  "path_trim [] = []"
| "path_trim (c # r) =
     (if c = CHR ''/'' then (if r = [] then ''/'' else path_trim r)
      else if c = CHR ''.'' \<and> r \<noteq> [] \<and> hd r = CHR ''/'' then path_trim r
      else c # r)"

definition path_parent :: "string \<Rightarrow> string option" where
  "path_parent s =
     (let r = path_trim (rev s)
      in if r = [] \<or> r = ''/'' then None
         else Some (rev (path_trim (dropWhile (\<lambda>c. c \<noteq> CHR ''/'') r))))"

text \<open>\<open>Path::join\<close> with a relative path.\<close>

definition path_join :: "string \<Rightarrow> string \<Rightarrow> string" where
  "path_join root rel = (if root = [] \<or> last root = CHR ''/'' then root @ rel else root @ ''/'' @ rel)"

section \<open>Contract check\<close>

record xtask_contract =
  synthetic_prefix_cidr :: string
  if_id :: nat

fun contains :: "string \<Rightarrow> string \<Rightarrow> bool" where
  "contains [] pat = (pat = [])"
| "contains (c # cs) pat = (take (length pat) (c # cs) = pat \<or> contains cs pat)"

definition swanctl_conf :: string where
  "swanctl_conf = ''client/swanctl.conf''"

definition swanctl_j2 :: string where
  "swanctl_j2 = ''ansible/roles/prototype_net/templates/swanctl.conf.j2''"

text \<open>The triples of file, expected text and description.\<close>

definition checks :: "xtask_contract \<Rightarrow> (string \<times> string \<times> string) list" where
  "checks c =
     (let local_ts = ''local_ts = '' @ synthetic_prefix_cidr c;
          if_id_in = ''if_id_in = '' @ radix_digits 10 (if_id c);
          if_id_out = ''if_id_out = '' @ radix_digits 10 (if_id c);
          xfrm_if_link = ''if_id '' @ radix_digits 10 (if_id c) @ '' dev eth0'';
          xfrm_j2_placeholder = ''{{ xfrm_if_id }}''
      in [(swanctl_conf, local_ts, ''local_ts synthetic prefix''),
          (swanctl_conf, if_id_in, ''if_id_in''),
          (swanctl_conf, if_id_out, ''if_id_out''),
          (''client/entrypoint.sh'', xfrm_if_link, ''xfrm if_id in ip link add''),
          (swanctl_j2, ''{{ vip_pool_start }}'', ''Jinja2 {{ vip_pool_start }} placeholder''),
          (swanctl_j2, ''{{ vip_pool_end }}'', ''Jinja2 {{ vip_pool_end }} placeholder''),
          (swanctl_j2, ''{{ synthetic_prefix_cidr }}'', ''Jinja2 {{ synthetic_prefix_cidr }} placeholder''),
          (swanctl_j2, xfrm_j2_placeholder, ''Jinja2 {{ xfrm_if_id }} placeholder''),
          (''ansible/roles/prototype_net/templates/prototype-xfrm0.service.j2'', xfrm_j2_placeholder,
           ''Jinja2 {{ xfrm_if_id }} placeholder'')])"

datatype failure = Unreadable string | NotFound string string string

datatype xtask_error =
    LocateFailed
  | LocateNotUtf8
  | NoParentPanic
  | ContractUnreadable
  | ContractInvalid
  | ChecksFailed "failure list"
  | CargoFailed
  | BuildFailed

text \<open>The output of \<open>cargo locate-project\<close>, if it can be run, the files and the parser of the contract.\<close>

record workspace =
  locate_project :: "string option"
  read_file :: "string \<Rightarrow> string option"
  parse_toml :: "string \<Rightarrow> xtask_contract option"

text \<open>The exit status of \<open>cargo\<close> is not looked at; an output without a parent directory panics.\<close>

definition workspace_root :: "workspace \<Rightarrow> xtask_error + string" where
  "workspace_root w =
     (case locate_project w of
        None \<Rightarrow> Inl LocateFailed
      | Some out \<Rightarrow>
          if \<not> utf8_valid out then Inl LocateNotUtf8
          else (case path_parent (trim out) of None \<Rightarrow> Inl NoParentPanic | Some root \<Rightarrow> Inr root))"

fun run_checks :: "workspace \<Rightarrow> string \<Rightarrow> (string \<times> string \<times> string) list \<Rightarrow> failure list" where
  "run_checks w root [] = []"
| "run_checks w root ((rel_path, pat, description) # cs) =
     (case read_file w (path_join root rel_path) of
        None \<Rightarrow> Unreadable rel_path # run_checks w root cs
      | Some content \<Rightarrow>
          if \<not> contains content pat then NotFound rel_path description pat # run_checks w root cs
          else run_checks w root cs)"

definition verify_contract :: "workspace \<Rightarrow> xtask_error + nat" where
  "verify_contract w =
     (case workspace_root w of
        Inl e \<Rightarrow> Inl e
      | Inr root \<Rightarrow>
     case read_file w (path_join root ''contract.toml'') of
        None \<Rightarrow> Inl ContractUnreadable
      | Some src \<Rightarrow>
     case parse_toml w src of
        None \<Rightarrow> Inl ContractInvalid
      | Some c \<Rightarrow>
          let failures = run_checks w root (checks c)
          in if failures = [] then Inr (length (checks c)) else Inl (ChecksFailed failures))"

section \<open>Build\<close>

definition build_args :: "bool \<Rightarrow> string list" where
  "build_args dev_mode =
     [''+nightly'', ''build'', ''-Z'', ''build-std=core'', ''--target'', ''bpfel-unknown-none'', ''--release''] @
     (if dev_mode then [''--features'', ''dev-mode''] else [])"

text \<open>
  \<open>cargo\<close> gives the outcome of a command: \<open>None\<close> if it cannot be run, otherwise its success. The
  result has the commands that were run, with their target directory and working directory.
\<close>

record cargo_command =
  cargo_args :: "string list"
  cargo_target_dir :: string
  cargo_current_dir :: string

definition ebpf_command :: "string \<Rightarrow> bool \<Rightarrow> cargo_command" where
  "ebpf_command root dev_mode =
     \<lparr> cargo_args = build_args dev_mode, cargo_target_dir = path_join root ''target'',
       cargo_current_dir = path_join root ''ebpf'' \<rparr>"

definition build_ebpf ::
  "workspace \<Rightarrow> (cargo_command \<Rightarrow> bool option) \<Rightarrow> bool \<Rightarrow> (xtask_error + unit) \<times> cargo_command list" where
  "build_ebpf w cargo dev_mode =
     (case verify_contract w of
        Inl e \<Rightarrow> (Inl e, [])
      | Inr _ \<Rightarrow>
     case workspace_root w of
        Inl e \<Rightarrow> (Inl e, [])
      | Inr root \<Rightarrow>
     case cargo (ebpf_command root dev_mode) of
        None \<Rightarrow> (Inl CargoFailed, [])
      | Some ok \<Rightarrow> (if ok then Inr () else Inl BuildFailed, [ebpf_command root dev_mode]))"

section \<open>Decoder\<close>

datatype tool_error = ToolKey key_error | ToolAddress | ToolProto | DecodeFailed

definition parse_ipv6 :: "string \<Rightarrow> bytes option" where
  "parse_ipv6 s = ipv6_from_str s"

definition format_ipv6 :: "bytes \<Rightarrow> string" where
  "format_ipv6 bs = ipv6_to_string bs"

definition tool_key :: "string \<Rightarrow> key_error + ProxySrcKey" where
  "tool_key s =
     (let hex = trim s
      in if length hex \<noteq> 64 then Inl (BadLength (length hex))
         else
           (case hex_bytes hex [0..<32] of
              Inl e \<Rightarrow> Inl e
            | Inr bs \<Rightarrow> Inr \<lparr> prince_key = take 16 bs, siphash_key = take 16 (drop 16 bs) \<rparr>))"

definition ascii_lower :: "string \<Rightarrow> string" where
  "ascii_lower s = map (\<lambda>c. if 65 \<le> char_code c \<and> char_code c \<le> 90 then char_of (char_code c + 32) else c) s"

definition tool_proto :: "string \<Rightarrow> u8 option" where
  "tool_proto prot =
     (if ascii_lower prot = ''tcp'' then Some 6 else if ascii_lower prot = ''udp'' then Some 17 else None)"

text \<open>What the tool prints: the two ids, the VIP of the client and the synthetic address.\<close>

record tool_output =
  out_client_id :: u32
  out_domain_id :: u32
  out_client_vip :: string
  out_synthetic_addr :: string

definition decode_proxy_src_tool :: "string \<Rightarrow> string \<Rightarrow> u16 \<Rightarrow> u16 \<Rightarrow> string \<Rightarrow> tool_error + tool_output" where
  "decode_proxy_src_tool hex addr_str sport dport prot =
     (case tool_key hex of
        Inl e \<Rightarrow> Inl (ToolKey e)
      | Inr key \<Rightarrow>
          (case parse_ipv6 (trim addr_str) of
             None \<Rightarrow> Inl ToolAddress
           | Some addr \<Rightarrow>
               (case tool_proto prot of
                  None \<Rightarrow> Inl ToolProto
                | Some pr \<Rightarrow>
                    (case decode_proxy_src addr (ProxySrcCtx_new sport dport pr) key of
                       None \<Rightarrow> Inl DecodeFailed
                     | Some (client_id, did) \<Rightarrow>
                         Inr \<lparr> out_client_id = client_id, out_domain_id = did,
                               out_client_vip = format_ipv6 (client_vip_from_id24 client_id),
                               out_synthetic_addr = format_ipv6 (synthetic_ipv6 did) \<rparr>))))"

section \<open>Dispatch\<close>

datatype command =
    BuildEbpf bool
  | VerifyContract
  | DecodeProxySrc string string u16 u16 string

text \<open>
  The exit status of the tool: 0, 1 for an error or a failed decoding, 101 for a panic.
\<close>

fun xtask_error_code :: "xtask_error \<Rightarrow> nat" where
  "xtask_error_code NoParentPanic = 101"
| "xtask_error_code _ = 1"

fun tool_error_code :: "tool_error \<Rightarrow> nat" where
  "tool_error_code (ToolKey (SlicePanic i)) = 101"
| "tool_error_code _ = 1"

fun xtask_main :: "workspace \<Rightarrow> (cargo_command \<Rightarrow> bool option) \<Rightarrow> command \<Rightarrow> nat" where
  "xtask_main w cargo (BuildEbpf dev_mode) =
     (case fst (build_ebpf w cargo dev_mode) of Inl e \<Rightarrow> xtask_error_code e | Inr _ \<Rightarrow> 0)"
| "xtask_main w cargo VerifyContract =
     (case verify_contract w of Inl e \<Rightarrow> xtask_error_code e | Inr _ \<Rightarrow> 0)"
| "xtask_main w cargo (DecodeProxySrc hex addr sport dport prot) =
     (case decode_proxy_src_tool hex addr sport dport prot of Inl e \<Rightarrow> tool_error_code e | Inr _ \<Rightarrow> 0)"

section \<open>Lemmas\<close>

lemma contains_iff: "contains s pat \<longleftrightarrow> (\<exists>a b. s = a @ pat @ b)"
proof (induction s)
  case (Cons c cs)
  have "(\<exists>b. c # cs = pat @ b) \<longleftrightarrow> take (length pat) (c # cs) = pat"
    by (metis append_eq_conv_conj append_take_drop_id)
  then show ?case using Cons by (auto simp: append_eq_Cons_conv Cons_eq_append_conv)
qed auto

lemma run_checks_Nil: "run_checks w root cs = [] \<longleftrightarrow>
    (\<forall>(path, pat, descr) \<in> set cs. \<exists>content. read_file w (path_join root path) = Some content \<and> contains content pat)"
  by (induction w root cs rule: run_checks.induct) (auto split: option.split)

lemma utf8_ascii: "list_all (\<lambda>c. char_code c < 128) s \<Longrightarrow> utf8_valid s"
  by (induction s) simp_all

lemma trim_empty: "trim [] = []"
  by code_simp

lemma xtask_error_code_pos: "xtask_error_code e \<noteq> 0"
  by (cases e) simp_all

text \<open>A directory in the form that \<open>cargo\<close> prints: absolute, in ASCII, without a separator or a dot component at its end.\<close>

definition plain_dir :: "string \<Rightarrow> bool" where
  "plain_dir root \<longleftrightarrow> list_all (\<lambda>c. char_code c < 128) root \<and> root \<noteq> [] \<and> hd root = CHR ''/'' \<and> path_trim (rev root) = rev root"

lemma manifest_trimmed: "plain_dir root \<Longrightarrow> trim (root @ ''/Cargo.toml'' @ [CHR 0x0A]) = root @ ''/Cargo.toml''"
  using trim_padded [of "[]" "[CHR 0x0A]" "root @ ''/Cargo.toml''"]
  by (simp add: plain_dir_def ascii_blank_def graphic_def char_code_def)

lemma manifest_parent: "plain_dir root \<Longrightarrow> path_parent (root @ ''/Cargo.toml'') = Some root"
  by (simp add: path_parent_def plain_dir_def)

lemma workspace_root_manifest:
  "plain_dir root \<Longrightarrow> locate_project w = Some (root @ ''/Cargo.toml'' @ [CHR 0x0A]) \<Longrightarrow> workspace_root w = Inr root"
  using utf8_ascii [of "root @ ''/Cargo.toml'' @ [CHR 0x0A]"] manifest_trimmed [of root] manifest_parent [of root]
  by (simp add: workspace_root_def plain_dir_def char_code_def)

section \<open>Properties\<close>

text \<open>
  The tool reads back every address that it prints.
\<close>

theorem ipv6_text_roundtrip:
  assumes "length a = 16"
  shows "parse_ipv6 (format_ipv6 a) = Some a"
  using ipv6_from_to_string [OF assms] by (simp add: parse_ipv6_def format_ipv6_def)

theorem ipv6_text_roundtrip_witness: "parse_ipv6 (format_ipv6 (synthetic_ipv6 7)) = Some (synthetic_ipv6 7)"
  by (rule ipv6_text_roundtrip) simp

text \<open>
  C25. In a workspace that \<open>cargo\<close> locates, the contract check exits with
  status 0 exactly if the contract of the workspace can be read and every expected text occurs
  in its file; the build runs \<open>cargo\<close> only after such a check, in the eBPF directory of the
  workspace and with the dev-mode feature exactly if it was asked for. If \<open>cargo\<close> prints nothing,
  every command that needs the workspace panics.
\<close>

theorem xtask_exit_status:
  assumes "plain_dir root"
  shows "(locate_project w = Some (root @ ''/Cargo.toml'' @ [CHR 0x0A]) \<longrightarrow>
      (xtask_main w cargo VerifyContract = 0 \<longleftrightarrow>
        (\<exists>src c. read_file w (path_join root ''contract.toml'') = Some src \<and> parse_toml w src = Some c \<and>
          (\<forall>(path, pat, descr) \<in> set (checks c).
             \<exists>before after. read_file w (path_join root path) = Some (before @ pat @ after)))) \<and>
      (\<forall>cmd \<in> set (snd (build_ebpf w cargo dev_mode)). xtask_main w cargo VerifyContract = 0 \<and>
         cargo_current_dir cmd = path_join root ''ebpf'' \<and> (''--features'' \<in> set (cargo_args cmd) \<longleftrightarrow> dev_mode))) \<and>
    (locate_project w = Some [] \<longrightarrow> xtask_main w cargo VerifyContract = 101 \<and> xtask_main w cargo (BuildEbpf dev_mode) = 101)"
proof -
  have c: "(\<forall>(path, pat, descr) \<in> set cs. \<exists>before after. read_file w (path_join root path) = Some (before @ pat @ after)) \<longleftrightarrow>
      run_checks w root cs = []" for cs
    unfolding run_checks_Nil contains_iff by fastforce
  have e: "workspace_root w = Inl NoParentPanic" if "locate_project w = Some []"
    using that trim_empty by (simp add: workspace_root_def path_parent_def)
  show ?thesis
    unfolding c using workspace_root_manifest [OF assms] e xtask_error_code_pos
    by (auto simp: verify_contract_def build_ebpf_def ebpf_command_def build_args_def Let_def
        split: option.splits if_splits sum.splits)
qed

definition empty_workspace :: workspace where
  "empty_workspace = \<lparr> locate_project = Some (''/w'' @ ''/Cargo.toml'' @ [CHR 0x0A]), read_file = (\<lambda>_. None), parse_toml = (\<lambda>_. None) \<rparr>"

theorem xtask_exit_status_witness:
  "plain_dir ''/w'' \<and> xtask_main empty_workspace (\<lambda>_. Some True) VerifyContract \<noteq> 0 \<and>
   xtask_main (empty_workspace\<lparr>locate_project := Some []\<rparr>) (\<lambda>_. Some True) VerifyContract = 101"
proof -
  have p: "plain_dir ''/w''" by (simp add: plain_dir_def char_code_def)
  with xtask_exit_status [OF p, of empty_workspace "\<lambda>_. Some True" False]
    xtask_exit_status [OF p, of "empty_workspace\<lparr>locate_project := Some []\<rparr>" "\<lambda>_. Some True" False]
  show ?thesis by (simp add: empty_workspace_def)
qed

text \<open>
  Given the key in the form the daemon takes, the textual form of an
  encoded address, the ports and the protocol in either case, the decoder prints the ids that
  were encoded and the two addresses that belong to them.
\<close>

theorem decode_tool_inverts:
  assumes "length bs = 32" and "encode_proxy_src c d (ProxySrcCtx_new sport dport pr)
      \<lparr> prince_key = take 16 bs, siphash_key = drop 16 bs \<rparr> = Some a"
    and "tool_proto prot = Some pr"
  shows "decode_proxy_src_tool (key_hex bs) (format_ipv6 a) sport dport prot =
    Inr \<lparr> out_client_id = c, out_domain_id = d, out_client_vip = format_ipv6 (client_vip_from_id24 c),
          out_synthetic_addr = format_ipv6 (synthetic_ipv6 d) \<rparr>"
proof -
  let ?key = "\<lparr> prince_key = take 16 bs, siphash_key = drop 16 bs \<rparr>"
  have "tool_key (key_hex bs) = Inr ?key"
    using key_hex_bytes [OF assms(1), of "[]" "[]"] assms(1) by (simp add: tool_key_def)
  moreover have len: "length a = 16" using assms(2) by (auto simp: encode_proxy_src_eq Let_def split: if_splits)
  then have "trim (format_ipv6 a) = format_ipv6 a"
    using graphic_ipv6 ipv6_to_string_nonempty by (simp add: format_ipv6_def trim_all_graphic)
  moreover have "parse_ipv6 (format_ipv6 a) = Some a"
    using ipv6_from_to_string [OF len] by (simp add: parse_ipv6_def format_ipv6_def)
  moreover have "decode_proxy_src a (ProxySrcCtx_new sport dport pr) ?key = Some (c, d)"
    using ps.dec_enc [where a = "(c, d)"] assms(2) by simp
  ultimately show ?thesis using assms(3) by (simp add: decode_proxy_src_tool_def)
qed

theorem decode_tool_inverts_witness:
  "\<exists>a. encode_proxy_src 100 7 (ProxySrcCtx_new 50000 443 6) TEST_KEY = Some a \<and>
     decode_proxy_src_tool (key_hex (prince_key TEST_KEY @ siphash_key TEST_KEY)) (format_ipv6 a) 50000 443 ''TCP'' =
       Inr \<lparr> out_client_id = 100, out_domain_id = 7, out_client_vip = format_ipv6 (client_vip_from_id24 100),
             out_synthetic_addr = format_ipv6 (synthetic_ipv6 7) \<rparr>"
proof -
  let ?bs = "prince_key TEST_KEY @ siphash_key TEST_KEY"
  have k: "\<lparr> prince_key = take 16 ?bs, siphash_key = drop 16 ?bs \<rparr> = TEST_KEY" "length ?bs = 32"
    by (simp_all add: TEST_KEY_def)
  obtain a where a: "encode_proxy_src 100 7 (ProxySrcCtx_new 50000 443 6) TEST_KEY = Some a" using TEST_KEY_vector by blast
  have "ascii_lower ''TCP'' = ''tcp''" by code_simp
  then have "tool_proto ''TCP'' = Some 6" by (simp add: tool_proto_def)
  then show ?thesis using decode_tool_inverts [OF k(2), unfolded k(1), OF a] a by blast
qed

end
