(* ===== verification/MacAgent.thy ===== *)
theory MacAgent
  imports Xtask
begin

text \<open>
  The macOS agent (\<open>macos-agent\<close>): the commands \<open>start\<close> and \<open>stop\<close> with the packages they
  use: detection of the active network service, backup and restoration of its DNS servers, the
  state files, and the wait for the VPN. The tools of the system are the record \<open>tools\<close>, and
  what the agent relies on is the locale \<open>macos_dns\<close>. Go's \<open>TrimSpace\<close> and \<open>Fields\<close> use the white
  space of \<open>RustStr\<close>.
\<close>

section \<open>Strings\<close>

definition newline :: char where
  "newline = CHR 0x0A"

text \<open>\<open>strings.Split(s, "\n")\<close>.\<close>

fun split_lines :: "string \<Rightarrow> string list" where
  "split_lines [] = [[]]"
| "split_lines (c # cs) =
     (if c = newline then [] # split_lines cs
      else case split_lines cs of [] \<Rightarrow> [[c]] | l # ls \<Rightarrow> (c # l) # ls)"

definition has_str_prefix :: "string \<Rightarrow> string \<Rightarrow> bool" where
  "has_str_prefix s pre = (take (length pre) s = pre)"

definition trim_prefix :: "string \<Rightarrow> string \<Rightarrow> string" where
  "trim_prefix s pre = (if has_str_prefix s pre then drop (length pre) s else s)"

text \<open>\<open>strings.Fields\<close>; \<open>acc\<close> is the field that is being read.\<close>

function fields_from :: "string \<Rightarrow> string \<Rightarrow> string list" where
  "fields_from acc s =
     (case s of
        [] \<Rightarrow> if acc = [] then [] else [acc]
      | c # cs \<Rightarrow>
          (case ws_prefix ws_chars s of
             Some w \<Rightarrow> (if acc = [] then [] else [acc]) @ fields_from [] (drop (length w) s)
           | None \<Rightarrow> fields_from (acc @ [c]) cs))"
  by auto

termination
  by (relation "measure (\<lambda>(acc, s). length s)") (auto dest: ws_prefix_less)

declare fields_from.simps [simp del]

section \<open>State files\<close>

record Config =
  ServerIP :: string
  DNSIP :: string
  ClientID :: string
  SyntheticPrefix :: string
  ProfileName :: string
  CAIssuerCN :: string

record DNSBackup =
  Service :: string
  Servers :: "string list"

text \<open>A file is missing, holds the JSON text of a value, or holds something else.\<close>

datatype 'a state_file = Absent | Json 'a | Garbage

datatype agent_error =
    NoHome
  | MkDirFailed
  | ReadFailed
  | ParseFailed
  | WriteFailed
  | RemoveFailed
  | RouteFailed
  | NoInterfaceLine
  | PortsFailed
  | NoService string
  | GetDNSFailed
  | SetDNSFailed
  | WaitTimeout "agent_error option"

text \<open>What the file system answers during one command. A write that fails can leave a truncated file.\<close>

datatype write_result = Written | NotWritten | Truncated

record fs =
  home_ok :: bool
  mkdir_ok :: bool
  read_config_ok :: bool
  read_backup_ok :: bool
  stat_config_ok :: bool
  write_config :: write_result
  write_backup :: write_result
  stat_backup_ok :: bool
  remove_ok :: bool

record 'h machine =
  os :: 'h
  config_file :: "Config state_file"
  backup_file :: "DNSBackup state_file"

fun parse_file :: "'a state_file \<Rightarrow> agent_error + 'a" where
  "parse_file Absent = Inl ReadFailed"
| "parse_file (Json x) = Inr x"
| "parse_file Garbage = Inl ParseFailed"

definition LoadConfig :: "fs \<Rightarrow> 'h machine \<Rightarrow> agent_error + Config" where
  "LoadConfig f m =
     (if \<not> home_ok f then Inl NoHome
      else if \<not> read_config_ok f then Inl ReadFailed
      else parse_file (config_file m))"

definition SaveConfig :: "fs \<Rightarrow> Config \<Rightarrow> 'h machine \<Rightarrow> (agent_error + unit) \<times> 'h machine" where
  "SaveConfig f cfg m =
     (if \<not> home_ok f then (Inl NoHome, m)
      else if \<not> mkdir_ok f then (Inl MkDirFailed, m)
      else case write_config f of
          Written \<Rightarrow> (Inr (), m\<lparr>config_file := Json cfg\<rparr>)
        | NotWritten \<Rightarrow> (Inl WriteFailed, m)
        | Truncated \<Rightarrow> (Inl WriteFailed, m\<lparr>config_file := Garbage\<rparr>))"

definition ConfigExists :: "fs \<Rightarrow> 'h machine \<Rightarrow> bool" where
  "ConfigExists f m = (home_ok f \<and> stat_config_ok f \<and> config_file m \<noteq> Absent)"

definition SaveDNSBackup :: "fs \<Rightarrow> DNSBackup \<Rightarrow> 'h machine \<Rightarrow> (agent_error + unit) \<times> 'h machine" where
  "SaveDNSBackup f backup m =
     (if \<not> home_ok f then (Inl NoHome, m)
      else if \<not> mkdir_ok f then (Inl MkDirFailed, m)
      else case write_backup f of
          Written \<Rightarrow> (Inr (), m\<lparr>backup_file := Json backup\<rparr>)
        | NotWritten \<Rightarrow> (Inl WriteFailed, m)
        | Truncated \<Rightarrow> (Inl WriteFailed, m\<lparr>backup_file := Garbage\<rparr>))"

definition LoadDNSBackup :: "fs \<Rightarrow> 'h machine \<Rightarrow> agent_error + DNSBackup" where
  "LoadDNSBackup f m =
     (if \<not> home_ok f then Inl NoHome
      else if \<not> read_backup_ok f then Inl ReadFailed
      else parse_file (backup_file m))"

definition DNSBackupExists :: "fs \<Rightarrow> 'h machine \<Rightarrow> bool" where
  "DNSBackupExists f m = (home_ok f \<and> stat_backup_ok f \<and> backup_file m \<noteq> Absent)"

text \<open>A file that does not exist is not an error.\<close>

definition RemoveDNSBackup :: "fs \<Rightarrow> 'h machine \<Rightarrow> (agent_error + unit) \<times> 'h machine" where
  "RemoveDNSBackup f m =
     (if \<not> home_ok f then (Inl NoHome, m)
      else if backup_file m = Absent then (Inr (), m)
      else if remove_ok f then (Inr (), m\<lparr>backup_file := Absent\<rparr>)
      else (Inl RemoveFailed, m))"

section \<open>Tools of the system\<close>

text \<open>
  The output of a command that only reads (\<open>None\<close> if it fails), or whether a command succeeds
  and the state it leaves.
\<close>

record 'h tools =
  route_get_default :: "'h \<Rightarrow> string option"
  listallhardwareports :: "'h \<Rightarrow> string option"
  getdnsservers :: "string \<Rightarrow> 'h \<Rightarrow> string option"
  setdnsservers :: "string \<Rightarrow> string list \<Rightarrow> 'h \<Rightarrow> bool \<times> 'h"
  setv6automatic :: "string \<Rightarrow> 'h \<Rightarrow> bool \<times> 'h"
  flushcache :: "'h \<Rightarrow> bool \<times> 'h"
  killall_mDNSResponder :: "'h \<Rightarrow> 'h"
  netstat_inet6 :: "'h \<Rightarrow> string option"

section \<open>The active network service\<close>

fun interface_line :: "string list \<Rightarrow> string option" where
  "interface_line [] = None"
| "interface_line (line # rest) =
     (let line = trim line; parts = fields_from [] line
      in if has_str_prefix line ''interface:'' \<and> 2 \<le> length parts then Some (parts ! 1)
         else interface_line rest)"

definition defaultRouteInterface :: "'h tools \<Rightarrow> 'h \<Rightarrow> agent_error + string" where
  "defaultRouteInterface T h =
     (case route_get_default T h of
        None \<Rightarrow> Inl RouteFailed
      | Some out \<Rightarrow>
          (case interface_line (split_lines out) of
             None \<Rightarrow> Inl NoInterfaceLine
           | Some iface \<Rightarrow> Inr iface))"

fun port_service :: "string \<Rightarrow> string \<Rightarrow> string list \<Rightarrow> string option" where
  "port_service iface currentService [] = None"
| "port_service iface currentService (line # rest) =
     (let line = trim line;
          currentService =
            (if has_str_prefix line ''Hardware Port:'' then trim_prefix line ''Hardware Port: ''
             else currentService)
      in if has_str_prefix line ''Device:'' \<and> trim (trim_prefix line ''Device:'') = iface
         then Some currentService
         else port_service iface currentService rest)"

definition serviceForInterface :: "'h tools \<Rightarrow> string \<Rightarrow> 'h \<Rightarrow> agent_error + string" where
  "serviceForInterface T iface h =
     (case listallhardwareports T h of
        None \<Rightarrow> Inl PortsFailed
      | Some out \<Rightarrow>
          (case port_service iface [] (split_lines out) of
             None \<Rightarrow> Inl (NoService iface)
           | Some service \<Rightarrow> Inr service))"

definition ActiveService :: "'h tools \<Rightarrow> 'h \<Rightarrow> agent_error + string" where
  "ActiveService T h =
     (case defaultRouteInterface T h of
        Inl e \<Rightarrow> Inl e
      | Inr iface \<Rightarrow> serviceForInterface T iface h)"

definition no_servers :: string where
  "no_servers = ''There aren't any DNS Servers''"

definition DNSServers :: "'h tools \<Rightarrow> string \<Rightarrow> 'h \<Rightarrow> agent_error + string list" where
  "DNSServers T service h =
     (case getdnsservers T service h of
        None \<Rightarrow> Inl GetDNSFailed
      | Some out \<Rightarrow>
          (let output = trim out
           in if contains output no_servers then Inr []
              else Inr (filter (\<lambda>s. s \<noteq> []) (map trim (split_lines output)))))"

section \<open>Backup and restoration of the DNS servers\<close>

definition setDNS :: "'h tools \<Rightarrow> string \<Rightarrow> string \<Rightarrow> 'h machine \<Rightarrow> (agent_error + unit) \<times> 'h machine" where
  "setDNS T service ip m =
     (case setdnsservers T service [ip] (os m) of
        (ok, h) \<Rightarrow> (if ok then Inr () else Inl SetDNSFailed, m\<lparr>os := h\<rparr>))"

definition restoreDNS :: "'h tools \<Rightarrow> string \<Rightarrow> string list \<Rightarrow> 'h machine \<Rightarrow> (agent_error + unit) \<times> 'h machine" where
  "restoreDNS T service servers m =
     (case setdnsservers T service (if servers = [] then [''Empty''] else servers) (os m) of
        (ok, h) \<Rightarrow> (if ok then Inr () else Inl SetDNSFailed, m\<lparr>os := h\<rparr>))"

definition BackupAndSet :: "'h tools \<Rightarrow> fs \<Rightarrow> string \<Rightarrow> 'h machine \<Rightarrow> (agent_error + string) \<times> 'h machine" where
  "BackupAndSet T f dnsIP m =
     (case ActiveService T (os m) of
        Inl e \<Rightarrow> (Inl e, m)
      | Inr service \<Rightarrow>
     case DNSServers T service (os m) of
        Inl e \<Rightarrow> (Inl e, m)
      | Inr servers \<Rightarrow>
     case SaveDNSBackup f \<lparr> Service = service, Servers = servers \<rparr> m of
        (Inl e, m1) \<Rightarrow> (Inl e, m1)
      | (Inr _, m1) \<Rightarrow>
     case setDNS T service dnsIP m1 of
        (Inl e, m2) \<Rightarrow> (Inl e, m2)
      | (Inr _, m2) \<Rightarrow> (Inr service, m2))"

definition Restore :: "'h tools \<Rightarrow> fs \<Rightarrow> 'h machine \<Rightarrow> (agent_error + unit) \<times> 'h machine" where
  "Restore T f m =
     (case LoadDNSBackup f m of
        Inl e \<Rightarrow> (Inl e, m)
      | Inr backup \<Rightarrow>
     case restoreDNS T (Service backup) (Servers backup) m of
        (Inl e, m1) \<Rightarrow> (Inl e, m1)
      | (Inr _, m1) \<Rightarrow> RemoveDNSBackup f m1)"

text \<open>\<open>killall\<close> runs only if the flush succeeds; a failure of the flush is a warning to the callers.\<close>

definition FlushCache :: "'h tools \<Rightarrow> 'h machine \<Rightarrow> 'h machine" where
  "FlushCache T m =
     (case flushcache T (os m) of
        (ok, h) \<Rightarrow> m\<lparr>os := if ok then killall_mDNSResponder T h else h\<rparr>)"

section \<open>The VPN\<close>

text \<open>The output of the status command: of \<open>vpnctl\<close> where the binary exists, else of \<open>scutil\<close>.\<close>

datatype status_cmd = Vpnctl "string option" | Scutil "string option"

fun Status :: "status_cmd \<Rightarrow> string option" where
  "Status (Vpnctl out) = map_option trim out"
| "Status (Scutil out) = map_option (\<lambda>s. trim (hd (split_lines (trim s)))) out"

definition IsConnected :: "status_cmd \<Rightarrow> bool option" where
  "IsConnected c = map_option (\<lambda>status. status = ''Connected'') (Status c)"

definition defaultTimeout :: nat where
  "defaultTimeout = 90"

definition defaultPollInterval :: nat where
  "defaultPollInterval = 2"

text \<open>
  The loop of both waits: \<open>now\<close> is the number of seconds since its start, each round takes some
  time (a pause of \<open>defaultPollInterval\<close> and the query) and ends with a status. The result is
  whether the wanted status was seen before the deadline, \<open>None\<close> while the loop goes on.
\<close>

fun wait_loop :: "bool \<Rightarrow> nat \<Rightarrow> (nat \<times> status_cmd) list \<Rightarrow> bool option" where
  "wait_loop want now [] = (if now < defaultTimeout then None else Some False)"
| "wait_loop want now ((dur, c) # polls) =
     (if now < defaultTimeout then
        if IsConnected c = Some want then Some True else wait_loop want (now + dur) polls
      else Some False)"

definition WaitForConnection :: "status_cmd \<Rightarrow> (nat \<times> status_cmd) list \<Rightarrow> bool option" where
  "WaitForConnection first polls =
     (if IsConnected first = Some True then Some True else wait_loop True 0 polls)"

definition WaitForDisconnection :: "status_cmd \<Rightarrow> (nat \<times> status_cmd) list \<Rightarrow> bool option" where
  "WaitForDisconnection first polls =
     (if IsConnected first = Some True then wait_loop False 0 polls else Some True)"

definition HasIPv6Route :: "'h tools \<Rightarrow> string \<Rightarrow> 'h \<Rightarrow> bool option" where
  "HasIPv6Route T pre h =
     (case netstat_inet6 T h of
        None \<Rightarrow> None
      | Some out \<Rightarrow> Some (\<exists>line \<in> set (split_lines out). contains line (takeWhile (\<lambda>c. c \<noteq> CHR ''/'') pre)))"

section \<open>The commands\<close>

text \<open>The statuses seen by a command: in the first check, at the start of the wait, in its rounds.\<close>

record vpn_obs =
  vpn_check :: status_cmd
  vpn_first :: status_cmd
  vpn_polls :: "(nat \<times> status_cmd) list"

text \<open>
  The result is \<open>None\<close> while the command waits; a successful start reports what it found out
  about the route.
\<close>

definition runStart ::
  "'h tools \<Rightarrow> fs \<Rightarrow> vpn_obs \<Rightarrow> 'h machine \<Rightarrow> (agent_error + bool option) option \<times> 'h machine" where
  "runStart T f v m =
     (case LoadConfig f m of
        Inl e \<Rightarrow> (Some (Inl e), m)
      | Inr cfg \<Rightarrow>
     case ActiveService T (os m) of
        Inl e \<Rightarrow> (Some (Inl e), m)
      | Inr service \<Rightarrow>
     let m1 = m\<lparr>os := snd (setv6automatic T service (os m))\<rparr>;
         alreadyConnected = (IsConnected (vpn_check v) = Some True)
     in case BackupAndSet T f (DNSIP cfg) m1 of
        (Inl e, m2) \<Rightarrow> (Some (Inl e), m2)
      | (Inr svc, m2) \<Rightarrow>
     let m3 = FlushCache T m2;
         finish = (Some (Inr (HasIPv6Route T (SyntheticPrefix cfg) (os m3))), m3)
     in if alreadyConnected then finish
        else case WaitForConnection (vpn_first v) (vpn_polls v) of
            None \<Rightarrow> (None, m3)
          | Some True \<Rightarrow> finish
          | Some False \<Rightarrow>
              (case Restore T f m3 of
                 (Inl e, m4) \<Rightarrow> (Some (Inl (WaitTimeout (Some e))), m4)
               | (Inr _, m4) \<Rightarrow> (Some (Inl (WaitTimeout None)), m4)))"

definition runStop ::
  "'h tools \<Rightarrow> fs \<Rightarrow> vpn_obs \<Rightarrow> 'h machine \<Rightarrow> (agent_error + unit) option \<times> 'h machine" where
  "runStop T f v m =
     (case LoadConfig f m of
        Inl e \<Rightarrow> (Some (Inl e), m)
      | Inr cfg \<Rightarrow>
     case (if IsConnected (vpn_check v) = Some True
           then WaitForDisconnection (vpn_first v) (vpn_polls v) else Some True) of
        None \<Rightarrow> (None, m)
      | Some False \<Rightarrow> (Some (Inl (WaitTimeout None)), m)
      | Some True \<Rightarrow>
     if DNSBackupExists f m then
       (case Restore T f m of
          (Inl e, m1) \<Rightarrow> (Some (Inl e), m1)
        | (Inr _, m1) \<Rightarrow> (Some (Inr ()), FlushCache T m1))
     else (Some (Inr ()), FlushCache T m))"

section \<open>What the agent relies on\<close>

text \<open>What \<open>networksetup -getdnsservers\<close> prints: a line per server, or a message.\<close>

definition dns_output :: "string \<Rightarrow> string list \<Rightarrow> string" where
  "dns_output service servers =
     (if servers = [] then no_servers @ '' set on '' @ service @ ''.'' @ [newline]
      else concat (map (\<lambda>s. s @ [newline]) servers))"

definition server_text :: "string \<Rightarrow> bool" where
  "server_text s \<longleftrightarrow> s \<noteq> [] \<and> s \<noteq> ''Empty'' \<and> list_all graphic s"

definition routes :: "'h tools \<Rightarrow> 'h \<Rightarrow> string option \<times> string option" where
  "routes T h = (route_get_default T h, listallhardwareports T h)"

text \<open>
  \<open>servers\<close> is the configuration of each service. Setting it changes one service, and no tool
  but that one changes it or which service is active.
\<close>

locale macos_dns =
  fixes T :: "'h tools" and servers :: "'h \<Rightarrow> string \<Rightarrow> string list"
  assumes get_dns: "getdnsservers T svc h = Some out \<Longrightarrow>
      list_all server_text (servers h svc) \<and> out = dns_output svc (servers h svc)"
    and set_dns: "setdnsservers T svc xs h = (True, h') \<Longrightarrow>
      servers h' = (servers h)(svc := if xs = [''Empty''] then [] else xs)"
    and keep_dns: "servers (snd (setv6automatic T svc h)) = servers h"
      "servers (snd (flushcache T h)) = servers h" "servers (killall_mDNSResponder T h) = servers h"
    and keep_route: "routes T (snd (setdnsservers T svc xs h)) = routes T h"
      "routes T (snd (setv6automatic T svc h)) = routes T h"
      "routes T (snd (flushcache T h)) = routes T h"
      "routes T (killall_mDNSResponder T h) = routes T h"

section \<open>Lemmas\<close>

lemma newline_not_graphic: "\<not> graphic newline" "ascii_blank newline"
  by (simp_all add: newline_def graphic_def ascii_blank_def char_code_def)

lemma fields_graphic: "graphic c \<Longrightarrow> fields_from acc (c # s) = fields_from (acc @ [c]) s"
  using ws_prefix_graphic [of ws_chars c s] ws_chars_not_graphic
  by (subst fields_from.simps) (auto split: option.split)

lemma fields_blank: "ascii_blank c \<Longrightarrow> fields_from acc (c # s) = (if acc = [] then [] else [acc]) @ fields_from [] s"
  using ws_prefix_blank [of ws_chars c s] ascii_ws_single(1) blank_in_ws [of c]
  by (subst fields_from.simps) simp

lemma split_lines_one: "newline \<notin> set s \<Longrightarrow> split_lines s = [s]"
  by (induction s) auto

lemma split_lines_app: "newline \<notin> set s \<Longrightarrow> split_lines (s @ newline # t) = s # split_lines t"
  by (induction s) auto

fun joined :: "string list \<Rightarrow> string" where
  "joined [] = []"
| "joined [s] = s"
| "joined (s # ss) = s @ newline # joined ss"

lemma concat_joined: "xs \<noteq> [] \<Longrightarrow> concat (map (\<lambda>s. s @ [newline]) xs) = joined xs @ [newline]"
  by (induction xs rule: joined.induct) auto

lemma server_text_graphic: "server_text s \<Longrightarrow> s \<noteq> [] \<and> (\<forall>c \<in> set s. graphic c) \<and> newline \<notin> set s"
  using newline_not_graphic by (auto simp: server_text_def list_all_iff)

lemma split_lines_joined: "xs \<noteq> [] \<Longrightarrow> list_all server_text xs \<Longrightarrow> split_lines (joined xs) = xs"
  by (induction xs rule: joined.induct) (auto simp: server_text_graphic split_lines_one split_lines_app)

lemma joined_ends:
  "xs \<noteq> [] \<Longrightarrow> list_all server_text xs \<Longrightarrow> joined xs \<noteq> [] \<and> graphic (hd (joined xs)) \<and> graphic (last (joined xs))"
  by (induction xs rule: joined.induct) (auto dest!: server_text_graphic simp: hd_append)

lemma joined_chars: "list_all server_text xs \<Longrightarrow> c \<in> set (joined xs) \<Longrightarrow> graphic c \<or> c = newline"
  by (induction xs rule: joined.induct) (auto dest!: server_text_graphic)

lemma map_trim_servers: "list_all server_text xs \<Longrightarrow> filter (\<lambda>s. s \<noteq> []) (map trim xs) = xs"
  by (induction xs) (auto simp: server_text_def trim_all_graphic)

lemma no_servers_space: "CHR '' '' \<in> set no_servers" "\<not> graphic (CHR '' '')" "CHR '' '' \<noteq> newline"
  by (simp_all add: no_servers_def graphic_def newline_def char_code_def)

lemma not_contains_joined: "list_all server_text xs \<Longrightarrow> \<not> contains (joined xs) no_servers"
  using joined_chars [of xs "CHR '' ''"] no_servers_space by (auto simp: contains_iff)

lemma trim_message: "trim (no_servers @ '' set on '' @ svc @ ''.'' @ [newline]) = no_servers @ '' set on '' @ svc @ ''.''"
  using trim_padded [of "[]" "[newline]" "no_servers @ '' set on '' @ svc @ ''.''"] newline_not_graphic
  by (simp add: no_servers_def graphic_def char_code_def)

text \<open>The agent reads back what \<open>networksetup\<close> prints.\<close>

lemma read_dns_output:
  assumes "list_all server_text xs" "getdnsservers T svc h = Some (dns_output svc xs)"
  shows "DNSServers T svc h = Inr xs"
proof (cases "xs = []")
  case True
  have "contains (no_servers @ '' set on '' @ svc @ ''.'') no_servers" unfolding contains_iff by (metis append_Nil)
  with True assms(2) show ?thesis
    by (simp add: DNSServers_def dns_output_def trim_message [simplified])
next
  case False
  then have "trim (joined xs @ [newline]) = joined xs"
    using trim_padded [of "[]" "[newline]" "joined xs"] joined_ends [OF False assms(1)] newline_not_graphic by simp
  with False assms show ?thesis
    by (simp add: DNSServers_def dns_output_def concat_joined not_contains_joined split_lines_joined map_trim_servers)
qed

lemma ActiveService_routes: "routes T h = routes T h' \<Longrightarrow> ActiveService T h = ActiveService T h'"
  by (auto simp: routes_def ActiveService_def defaultRouteInterface_def serviceForInterface_def split: sum.split)

lemma FlushCache_files [simp]:
  "backup_file (FlushCache T m) = backup_file m" "config_file (FlushCache T m) = config_file m"
  by (simp_all add: FlushCache_def split: prod.split)

text \<open>Only the wait itself ends with the error of a wait.\<close>

lemma no_wait_active: "ActiveService T h \<noteq> Inl (WaitTimeout x)"
  by (auto simp: ActiveService_def defaultRouteInterface_def serviceForInterface_def split: sum.splits option.splits)

lemma no_wait_config: "LoadConfig f m \<noteq> Inl (WaitTimeout x)"
  by (cases "config_file m") (auto simp: LoadConfig_def)

lemma no_wait_backup: "BackupAndSet T f ip m \<noteq> (Inl (WaitTimeout x), m')"
  using no_wait_active [of T "os m" x]
  by (auto simp: BackupAndSet_def DNSServers_def SaveDNSBackup_def setDNS_def Let_def
      split: sum.splits option.splits prod.splits if_splits write_result.splits)

lemmas no_wait_error = no_wait_active no_wait_config no_wait_backup

context macos_dns
begin

lemma dns_read: "DNSServers T svc h = Inr xs \<Longrightarrow> xs = servers h svc \<and> list_all server_text xs"
proof -
  assume a: "DNSServers T svc h = Inr xs"
  then obtain out where o: "getdnsservers T svc h = Some out"
    by (auto simp: DNSServers_def split: option.splits)
  from get_dns [OF o] have l: "list_all server_text (servers h svc)" and "out = dns_output svc (servers h svc)" by auto
  with o have "DNSServers T svc h = Inr (servers h svc)" by (intro read_dns_output) simp_all
  with a l show ?thesis by simp
qed

lemma flush_keeps: "servers (os (FlushCache T m)) = servers (os m)" "routes T (os (FlushCache T m)) = routes T (os m)"
  using keep_dns(2,3) keep_route(3,4) by (auto simp: FlushCache_def split: prod.split) (metis snd_conv)+

lemma backup_and_set:
  assumes "BackupAndSet T f ip m = (Inr svc, m')"
  shows "ActiveService T (os m) = Inr svc \<and> list_all server_text (servers (os m) svc) \<and>
    m' = m\<lparr>os := os m', backup_file := Json \<lparr> Service = svc, Servers = servers (os m) svc \<rparr>\<rparr> \<and>
    servers (os m') = (servers (os m))(svc := if ip = ''Empty'' then [] else [ip]) \<and> routes T (os m') = routes T (os m)"
proof -
  from assms obtain xs m1 h where a: "ActiveService T (os m) = Inr svc" and x: "DNSServers T svc (os m) = Inr xs"
    and m1: "m1 = m\<lparr>backup_file := Json \<lparr> Service = svc, Servers = xs \<rparr>\<rparr>"
    and h: "setdnsservers T svc [ip] (os m) = (True, h)" and m': "m' = m1\<lparr>os := h\<rparr>"
    by (auto simp: BackupAndSet_def SaveDNSBackup_def setDNS_def
        split: sum.splits prod.splits if_splits write_result.splits)
  show ?thesis
    using a dns_read [OF x] m1 m' set_dns [OF h] keep_route(1) [of svc "[ip]" "os m"] h by auto
qed

lemma restore_done:
  assumes "Restore T f m = (Inr u, m')" "backup_file m = Json b" "list_all server_text (Servers b)"
  shows "servers (os m') = (servers (os m))(Service b := Servers b) \<and> m' = m\<lparr>os := os m', backup_file := Absent\<rparr> \<and>
    routes T (os m') = routes T (os m)"
proof -
  from assms obtain h where h: "setdnsservers T (Service b) (if Servers b = [] then [''Empty''] else Servers b) (os m) = (True, h)"
    and m': "m' = m\<lparr>os := h, backup_file := Absent\<rparr>"
    by (auto simp: Restore_def LoadDNSBackup_def restoreDNS_def RemoveDNSBackup_def split: sum.splits prod.splits if_splits)
  have "(if Servers b = [] then [''Empty''] else Servers b) = [''Empty''] \<longleftrightarrow> Servers b = []"
    using assms(3) by (auto simp: server_text_def)
  with set_dns [OF h] m' keep_route(1) [of "Service b" _ "os m"] h show ?thesis by (auto dest: arg_cong [of _ _ snd]) (metis snd_conv)+
qed

lemma start_done:
  assumes "runStart T f v m = (Some (Inr r), m')" "config_file m = Json cfg"
  shows "\<exists>svc. ActiveService T (os m) = Inr svc \<and> list_all server_text (servers (os m) svc) \<and>
    config_file m' = config_file m \<and> backup_file m' = Json \<lparr> Service = svc, Servers = servers (os m) svc \<rparr> \<and>
    servers (os m') = (servers (os m))(svc := if DNSIP cfg = ''Empty'' then [] else [DNSIP cfg]) \<and>
    routes T (os m') = routes T (os m)"
proof -
  from assms obtain service svc m2 where
    b: "BackupAndSet T f (DNSIP cfg) (m\<lparr>os := snd (setv6automatic T service (os m))\<rparr>) = (Inr svc, m2)" (is "BackupAndSet T f _ ?m1 = _")
    and m': "m' = FlushCache T m2"
    by (auto simp: runStart_def LoadConfig_def Let_def split: sum.splits prod.splits if_splits option.splits bool.splits)
  have "ActiveService T (os ?m1) = ActiveService T (os m)" by (rule ActiveService_routes) (simp add: keep_route)
  with backup_and_set [OF b] show ?thesis
    by (intro exI [of _ svc]) (auto simp: m' flush_keeps keep_dns keep_route dest: arg_cong [of _ _ config_file] arg_cong [of _ _ backup_file])
qed

lemma stop_done:
  assumes "runStop T f v m = (Some (Inr u), m')" "stat_backup_ok f"
    and "backup_file m = Json b" "list_all server_text (Servers b)"
  shows "servers (os m') = (servers (os m))(Service b := Servers b) \<and> backup_file m' = Absent"
proof -
  from assms(1-3) obtain m1 where r: "Restore T f m = (Inr (), m1)" and m': "m' = FlushCache T m1"
    by (auto simp: runStop_def LoadConfig_def DNSBackupExists_def split: sum.splits prod.splits if_splits option.splits bool.splits)
  from restore_done [OF r assms(3,4)] show ?thesis
    by (auto simp: m' flush_keeps dest: arg_cong [of _ _ backup_file])
qed

lemma start_timeout:
  assumes "runStart T f v m = (Some (Inl (WaitTimeout None)), m')"
  shows "servers (os m') = servers (os m) \<and> backup_file m' = Absent"
proof -
  obtain cfg where c: "LoadConfig f m = Inr cfg"
    using assms no_wait_config [of f m] by (cases "LoadConfig f m") (auto simp: runStart_def)
  obtain service where s: "ActiveService T (os m) = Inr service"
    using assms no_wait_active [of T "os m"] by (cases "ActiveService T (os m)") (auto simp: runStart_def c)
  let ?m1 = "m\<lparr>os := snd (setv6automatic T service (os m))\<rparr>"
  obtain x m2 where x: "BackupAndSet T f (DNSIP cfg) ?m1 = (x, m2)" by fastforce
  obtain svc where b: "BackupAndSet T f (DNSIP cfg) ?m1 = (Inr svc, m2)"
    using assms x no_wait_backup [of T f "DNSIP cfg" ?m1 None m2] by (cases x) (auto simp: runStart_def c s Let_def)
  have r: "Restore T f (FlushCache T m2) = (Inr (), m')"
    using assms by (auto simp: runStart_def c s b Let_def split: if_splits option.splits bool.splits prod.splits sum.splits)
  have bs: "backup_file (FlushCache T m2) = Json \<lparr> Service = svc, Servers = servers (os ?m1) svc \<rparr>"
    using backup_and_set [OF b] by (auto dest: arg_cong [of _ _ backup_file])
  from restore_done [OF r bs] backup_and_set [OF b] show ?thesis
    by (auto simp: flush_keeps keep_dns dest: arg_cong [of _ _ backup_file])
qed

end

section \<open>Tools for sample runs\<close>

record mac_host =
  mac_route :: string
  mac_ports :: string
  mac_dns :: "string \<Rightarrow> string list"

definition mac_tools :: "mac_host tools" where
  "mac_tools =
     \<lparr> route_get_default = (\<lambda>h. Some (mac_route h)),
       listallhardwareports = (\<lambda>h. Some (mac_ports h)),
       getdnsservers = (\<lambda>svc h. if list_all server_text (mac_dns h svc) then Some (dns_output svc (mac_dns h svc)) else None),
       setdnsservers = (\<lambda>svc xs h.
         if xs = [''Empty''] then (True, h\<lparr>mac_dns := (mac_dns h)(svc := [])\<rparr>)
         else if xs \<noteq> [] \<and> list_all server_text xs then (True, h\<lparr>mac_dns := (mac_dns h)(svc := xs)\<rparr>)
         else (False, h)),
       setv6automatic = (\<lambda>svc h. (True, h)),
       flushcache = (\<lambda>h. (True, h)),
       killall_mDNSResponder = (\<lambda>h. h),
       netstat_inet6 = (\<lambda>h. Some []) \<rparr>"

lemma mac_tools_simps:
  "setdnsservers mac_tools svc xs h =
     (if xs = [''Empty''] then (True, h\<lparr>mac_dns := (mac_dns h)(svc := [])\<rparr>)
      else if xs \<noteq> [] \<and> list_all server_text xs then (True, h\<lparr>mac_dns := (mac_dns h)(svc := xs)\<rparr>) else (False, h))"
  "setv6automatic mac_tools svc h = (True, h)" "flushcache mac_tools h = (True, h)"
  "killall_mDNSResponder mac_tools h = h" "netstat_inet6 mac_tools h = Some []"
  by (simp_all add: mac_tools_def)

interpretation mac: macos_dns mac_tools mac_dns
  by unfold_locales (auto simp: mac_tools_def routes_def split: if_splits)

definition sample_host :: mac_host where
  "sample_host =
     \<lparr> mac_route = ''   route to: default'' @ [newline] @ ''  interface: en0'' @ [newline],
       mac_ports = ''Hardware Port: Wi-Fi'' @ [newline] @ ''Device: en0'' @ [newline],
       mac_dns = (\<lambda>svc. [])(''Wi-Fi'' := [''192.0.2.1'', ''192.0.2.2'']) \<rparr>"

lemma sample_trims:
  "trim ''   route to: default'' = ''route to: default''" "trim ''  interface: en0'' = ''interface: en0''"
  "trim ''Hardware Port: Wi-Fi'' = ''Hardware Port: Wi-Fi''" "trim ''Device: en0'' = ''Device: en0''" "trim '' en0'' = ''en0''"
  using trim_padded [of "''   ''" "[]" "''route to: default''"] trim_padded [of "''  ''" "[]" "''interface: en0''"]
    trim_padded [of "[]" "[]" "''Hardware Port: Wi-Fi''"] trim_padded [of "[]" "[]" "''Device: en0''"]
    trim_padded [of "'' ''" "[]" "''en0''"]
  by (simp_all add: ascii_blank_def graphic_def char_code_def)

lemma sample_service: "ActiveService mac_tools sample_host = Inr ''Wi-Fi''"
proof -
  have "fields_from [] ''interface: en0'' = [''interface:'', ''en0'']"
    by (simp add: fields_graphic fields_blank fields_from.simps [of _ "[]"] ascii_blank_def graphic_def char_code_def)
  moreover have "split_lines (mac_route sample_host) = [''   route to: default'', ''  interface: en0'', []]"
    "split_lines (mac_ports sample_host) = [''Hardware Port: Wi-Fi'', ''Device: en0'', []]"
    by (simp_all add: sample_host_def newline_def)
  ultimately show ?thesis
    by (simp add: ActiveService_def defaultRouteInterface_def serviceForInterface_def mac_tools_def sample_trims
        has_str_prefix_def trim_prefix_def)
qed

definition good_fs :: fs where
  "good_fs =
     \<lparr> home_ok = True, mkdir_ok = True, read_config_ok = True, read_backup_ok = True,
       stat_config_ok = True, write_config = Written, write_backup = Written, stat_backup_ok = True, remove_ok = True \<rparr>"

lemma good_fs_simps [simp]:
  "home_ok good_fs" "mkdir_ok good_fs" "read_config_ok good_fs" "read_backup_ok good_fs" "write_backup good_fs = Written"
  "stat_config_ok good_fs" "write_config good_fs = Written" "stat_backup_ok good_fs" "remove_ok good_fs"
  by (simp_all add: good_fs_def)

definition sample_config :: Config where
  "sample_config =
     \<lparr> ServerIP = ''198.51.100.7'', DNSIP = ''198.51.100.7'', ClientID = ''client'',
       SyntheticPrefix = ''fd00:abcd::/32'', ProfileName = ''prototype-net'', CAIssuerCN = ''CA'' \<rparr>"

definition sample_machine :: "(string \<Rightarrow> string list) \<Rightarrow> DNSBackup state_file \<Rightarrow> mac_host machine" where
  "sample_machine dns b = \<lparr> os = sample_host\<lparr>mac_dns := dns\<rparr>, config_file = Json sample_config, backup_file = b \<rparr>"

definition vpn_says :: "string \<Rightarrow> vpn_obs" where
  "vpn_says status =
     \<lparr> vpn_check = Vpnctl (Some status), vpn_first = Vpnctl (Some status),
       vpn_polls = replicate 45 (2, Vpnctl (Some status)) \<rparr>"

lemma sample_statuses:
  "IsConnected (Vpnctl (Some ''Connected'')) = Some True" "IsConnected (Vpnctl (Some ''Disconnected'')) = Some False"
  using trim_all_graphic [of "''Connected''"] trim_all_graphic [of "''Disconnected''"]
  by (simp_all add: IsConnected_def graphic_def char_code_def)

lemma sample_start:
  assumes "list_all server_text (dns ''Wi-Fi'')"
  shows "runStart mac_tools good_fs (vpn_says ''Connected'') (sample_machine dns b) =
    (Some (Inr (Some False)), sample_machine (dns(''Wi-Fi'' := [''198.51.100.7'']))
       (Json \<lparr> Service = ''Wi-Fi'', Servers = dns ''Wi-Fi'' \<rparr>))"
proof -
  have "ActiveService mac_tools (sample_host\<lparr>mac_dns := d\<rparr>) = Inr ''Wi-Fi''" for d
    using sample_service ActiveService_routes [of mac_tools "sample_host\<lparr>mac_dns := d\<rparr>" sample_host]
    by (simp add: routes_def mac_tools_def)
  moreover have "DNSServers mac_tools ''Wi-Fi'' (sample_host\<lparr>mac_dns := dns\<rparr>) = Inr (dns ''Wi-Fi'')"
    using assms by (intro read_dns_output) (simp_all add: mac_tools_def)
  moreover have "server_text ''198.51.100.7''" by (simp add: server_text_def graphic_def char_code_def)
  ultimately show ?thesis
    by (simp add: runStart_def LoadConfig_def BackupAndSet_def SaveDNSBackup_def setDNS_def FlushCache_def HasIPv6Route_def
        sample_machine_def sample_config_def vpn_says_def sample_statuses mac_tools_simps Let_def)
qed

lemma sample_stop:
  assumes "list_all server_text xs"
  shows "runStop mac_tools good_fs (vpn_says ''Disconnected'') (sample_machine dns (Json \<lparr> Service = svc, Servers = xs \<rparr>)) =
    (Some (Inr ()), sample_machine (dns(svc := xs)) Absent)"
proof -
  have "xs \<noteq> [''Empty'']" using assms by (auto simp: server_text_def)
  with assms show ?thesis
    by (simp add: runStop_def LoadConfig_def DNSBackupExists_def Restore_def LoadDNSBackup_def restoreDNS_def RemoveDNSBackup_def
        FlushCache_def sample_machine_def vpn_says_def sample_statuses mac_tools_simps)
qed

lemma sample_servers: "list_all server_text [''192.0.2.1'', ''192.0.2.2'']" "list_all server_text [''198.51.100.7'']"
  by (simp_all add: server_text_def graphic_def char_code_def)

section \<open>Properties\<close>

text \<open>Each round takes at least the poll interval, so 45 rounds reach the deadline.\<close>

definition paced :: "(nat \<times> status_cmd) list \<Rightarrow> bool" where
  "paced polls \<longleftrightarrow> list_all (\<lambda>(dur, c). defaultPollInterval \<le> dur) polls"

lemma wait_loop_ends:
  "paced polls \<Longrightarrow> defaultTimeout \<le> now + defaultPollInterval * length polls \<Longrightarrow> wait_loop want now polls \<noteq> None"
  by (induction want now polls rule: wait_loop.induct) (auto simp: paced_def defaultTimeout_def defaultPollInterval_def)

lemma start_config: "runStart T f v m = (Some (Inr r), m') \<Longrightarrow> \<exists>cfg. config_file m = Json cfg"
  by (cases "config_file m") (auto simp: runStart_def LoadConfig_def split: if_splits)

text \<open>
  C30. A successful \<open>start\<close> followed by a successful \<open>stop\<close>, with whatever
  happens to other state in between, leaves every network service with the DNS servers it had,
  also if it had none of its own, and removes the backup.
\<close>

theorem agent_restores_dns:
  assumes "macos_dns T servers" and "runStart T f v m = (Some (Inr r), m1)"
    and "servers (os m2) = servers (os m1)" and "backup_file m2 = backup_file m1"
    and "runStop T g w m2 = (Some (Inr u), m3)" and "stat_backup_ok g"
  shows "servers (os m3) = servers (os m) \<and> backup_file m3 = Absent"
proof -
  obtain cfg where "config_file m = Json cfg" using start_config [OF assms(2)] by blast
  from macos_dns.start_done [OF assms(1,2) this] obtain svc where
    s: "list_all server_text (servers (os m) svc)" "backup_file m1 = Json \<lparr> Service = svc, Servers = servers (os m) svc \<rparr>"
      "servers (os m1) = (servers (os m))(svc := if DNSIP cfg = ''Empty'' then [] else [DNSIP cfg])"
    by blast
  from macos_dns.stop_done [OF assms(1,5,6), of "\<lparr> Service = svc, Servers = servers (os m) svc \<rparr>"] show ?thesis
    using s assms(3,4) by simp
qed

theorem agent_restores_dns_witness:
  "let m = sample_machine ((\<lambda>svc. [])(''Wi-Fi'' := [''192.0.2.1'', ''192.0.2.2''])) Absent;
       m1 = snd (runStart mac_tools good_fs (vpn_says ''Connected'') m);
       m2 = snd (runStop mac_tools good_fs (vpn_says ''Disconnected'') m1)
   in mac_dns (os m1) ''Wi-Fi'' = [''198.51.100.7''] \<and> mac_dns (os m2) = mac_dns (os m)"
  using agent_restores_dns [OF mac.macos_dns_axioms sample_start [of "(\<lambda>svc. [])(''Wi-Fi'' := [''192.0.2.1'', ''192.0.2.2''])" Absent]
      refl refl sample_stop] sample_servers
  by (simp add: sample_start sample_stop Let_def) (simp add: sample_machine_def)

text \<open>
  C34. A second \<open>start\<close> before a \<open>stop\<close> replaces the backup by the
  servers that the first one set: \<open>stop\<close> then succeeds, removes the backup and leaves the active
  service with the agent's own DNS server, whatever it had before.
\<close>

theorem agent_restart_loses_dns:
  assumes dns: "macos_dns T servers" and cfg: "config_file m = Json cfg" "DNSIP cfg \<noteq> ''Empty''"
    and "ActiveService T (os m) = Inr svc"
    and a: "runStart T f v m = (Some (Inr r), m1)" and b: "runStart T f' v' m1 = (Some (Inr r'), m2)"
    and c: "runStop T g w m2 = (Some (Inr u), m3)" "stat_backup_ok g"
  shows "servers (os m3) = (servers (os m))(svc := [DNSIP cfg]) \<and> backup_file m3 = Absent"
proof -
  from macos_dns.start_done [OF dns a cfg(1)] assms(4) have
    m1: "config_file m1 = Json cfg" "servers (os m1) = (servers (os m))(svc := [DNSIP cfg])"
      "routes T (os m1) = routes T (os m)"
    using cfg by auto
  from macos_dns.start_done [OF dns b m1(1)] ActiveService_routes [OF m1(3)] assms(4) cfg(2) have
    m2: "list_all server_text (servers (os m1) svc)" "backup_file m2 = Json \<lparr> Service = svc, Servers = servers (os m1) svc \<rparr>"
      "servers (os m2) = (servers (os m1))(svc := [DNSIP cfg])"
    by auto
  from macos_dns.stop_done [OF dns c m2(2)] m2 m1(2) show ?thesis by simp
qed

theorem agent_restart_loses_dns_witness:
  "let m = sample_machine ((\<lambda>svc. [])(''Wi-Fi'' := [''192.0.2.1'', ''192.0.2.2''])) Absent;
       m1 = snd (runStart mac_tools good_fs (vpn_says ''Connected'') m);
       m2 = snd (runStart mac_tools good_fs (vpn_says ''Connected'') m1);
       m3 = snd (runStop mac_tools good_fs (vpn_says ''Disconnected'') m2)
   in mac_dns (os m) ''Wi-Fi'' = [''192.0.2.1'', ''192.0.2.2''] \<and> mac_dns (os m3) ''Wi-Fi'' = [''198.51.100.7''] \<and>
      backup_file m3 = Absent"
proof -
  let ?d = "(\<lambda>svc. [])(''Wi-Fi'' := [''192.0.2.1'', ''192.0.2.2''])"
  have a: "ActiveService mac_tools (os (sample_machine ?d Absent)) = Inr ''Wi-Fi''"
    using sample_service ActiveService_routes [of mac_tools "sample_host\<lparr>mac_dns := ?d\<rparr>" sample_host]
    by (simp add: routes_def mac_tools_def sample_machine_def)
  show ?thesis
    using agent_restart_loses_dns [OF mac.macos_dns_axioms _ _ a sample_start sample_start sample_stop, of sample_config]
      sample_servers
    by (simp add: sample_start sample_stop Let_def) (simp add: sample_machine_def sample_config_def)
qed

text \<open>
  C32. Both commands return: 45 rounds of at least two seconds end each wait. If
  \<open>start\<close> gives up because the VPN did not connect, and could undo its changes, every service has
  its DNS servers back.
\<close>

theorem agent_returns:
  assumes "macos_dns T servers" and "paced (vpn_polls v)" and "45 \<le> length (vpn_polls v)"
  shows "(\<exists>r m'. runStart T f v m = (Some r, m') \<and> (r = Inl (WaitTimeout None) \<longrightarrow> servers (os m') = servers (os m))) \<and>
    (\<exists>r m'. runStop T f v m = (Some r, m'))"
proof -
  have w: "wait_loop want 0 (vpn_polls v) \<noteq> None" for want
    using assms(2,3) by (intro wait_loop_ends) (auto simp: defaultTimeout_def defaultPollInterval_def)
  then have "WaitForConnection (vpn_first v) (vpn_polls v) \<noteq> None" "WaitForDisconnection (vpn_first v) (vpn_polls v) \<noteq> None"
    by (auto simp: WaitForConnection_def WaitForDisconnection_def)
  then have "fst (runStart T f v m) \<noteq> None" "fst (runStop T f v m) \<noteq> None"
    by (auto simp: runStart_def runStop_def Let_def split: sum.split prod.split option.split bool.split)
  then obtain r m' q n' where "runStart T f v m = (Some r, m')" "runStop T f v m = (Some q, n')"
    by (metis fst_conv option.exhaust surj_pair)
  with macos_dns.start_timeout [OF assms(1)] show ?thesis by blast
qed

theorem agent_returns_witness:
  "\<exists>r m'. runStart mac_tools good_fs (vpn_says ''Disconnected'') (sample_machine (\<lambda>svc. []) Absent) = (Some r, m')"
  using agent_returns [OF mac.macos_dns_axioms, of "vpn_says ''Disconnected''" good_fs "sample_machine (\<lambda>svc. []) Absent"]
  by (simp add: vpn_says_def paced_def defaultPollInterval_def list_all_length) blast

end
