(* ===== verification/Base64.thy ===== *)
theory Base64
  imports RustStr
begin

text \<open>
  Base64 as the macOS agent uses it: \<open>base64.StdEncoding\<close> of Go's standard library (encoding,
  and decoding that skips line ends and ignores unused bits of the last character) and
  \<open>wrapBase64\<close> of \<open>internal/mobileconfig\<close>. The main result is that wrapped text decodes to
  the bytes it was made from.
\<close>

section \<open>Encoding\<close>

definition b64_char :: "nat \<Rightarrow> char" where
  "b64_char n =
     char_of (if n < 26 then n + 65 else if n < 52 then n + 71 else if n < 62 then n - 4
              else if n = 62 then 43 else 47)"

definition b64_value :: "char \<Rightarrow> nat option" where
  "b64_value c =
     (let v = char_code c
      in if 65 \<le> v \<and> v \<le> 90 then Some (v - 65)
         else if 97 \<le> v \<and> v \<le> 122 then Some (v - 71)
         else if 48 \<le> v \<and> v \<le> 57 then Some (v + 4)
         else if v = 43 then Some 62
         else if v = 47 then Some 63
         else None)"

text \<open>The four characters of three bytes.\<close>

definition quantum :: "nat \<Rightarrow> nat \<Rightarrow> nat \<Rightarrow> string" where
  "quantum a b c =
     (let n = a * 65536 + b * 256 + c
      in [b64_char (n div 262144), b64_char (n div 4096 mod 64), b64_char (n div 64 mod 64), b64_char (n mod 64)])"

fun EncodeToString :: "bytes \<Rightarrow> string" where
  "EncodeToString [] = []"
| "EncodeToString [a] = take 2 (quantum (unat a) 0 0) @ ''==''"
| "EncodeToString [a, b] = take 3 (quantum (unat a) (unat b) 0) @ ''=''"
| "EncodeToString (a # b # c # bs) = quantum (unat a) (unat b) (unat c) @ EncodeToString bs"

section \<open>Decoding\<close>

definition line_end :: "char \<Rightarrow> bool" where
  "line_end c \<longleftrightarrow> c = CHR 0x0A \<or> c = CHR 0x0D"

definition dequantum :: "nat \<Rightarrow> nat \<Rightarrow> nat \<Rightarrow> nat \<Rightarrow> bytes" where
  "dequantum p q r s =
     (let n = p * 262144 + q * 4096 + r * 64 + s
      in [word_of_nat (n div 65536), word_of_nat (n div 256 mod 256), word_of_nat (n mod 256)])"

fun decode_quanta :: "string \<Rightarrow> bytes option" where
  "decode_quanta [] = Some []"
| "decode_quanta (c0 # c1 # c2 # c3 # cs) =
     (case (b64_value c0, b64_value c1, b64_value c2, b64_value c3) of
        (Some p, Some q, Some r, Some s) \<Rightarrow> map_option ((@) (dequantum p q r s)) (decode_quanta cs)
      | (Some p, Some q, Some r, None) \<Rightarrow>
          if c3 = CHR ''='' \<and> cs = [] then Some (take 2 (dequantum p q r 0)) else None
      | (Some p, Some q, None, _) \<Rightarrow>
          if c2 = CHR ''='' \<and> c3 = CHR ''='' \<and> cs = [] then Some (take 1 (dequantum p q 0 0)) else None
      | _ \<Rightarrow> None)"
| "decode_quanta _ = None"

definition DecodeString :: "string \<Rightarrow> bytes option" where
  "DecodeString s = decode_quanta (filter (\<lambda>c. \<not> line_end c) s)"

section \<open>Wrapping\<close>

function wrap_lines :: "string \<Rightarrow> string" where
  "wrap_lines encoded =
     (if 76 < length encoded then take 76 encoded @ [CHR 0x0A] @ wrap_lines (drop 76 encoded) else encoded)"
  by auto

termination
  by (relation "measure length") auto

declare wrap_lines.simps [simp del]

definition wrapBase64 :: "bytes \<Rightarrow> string" where
  "wrapBase64 b = wrap_lines (EncodeToString b)"

section \<open>Lemmas\<close>

lemma b64_codes:
  assumes "n < 64"
  shows "char_code (b64_char n) =
    (if n < 26 then n + 65 else if n < 52 then n + 71 else if n < 62 then n - 4 else if n = 62 then 43 else 47)"
  unfolding b64_char_def using assms by (intro char_code_char_of) (simp, linarith)

lemma b64_value_char:
  assumes "n < 64"
  shows "b64_value (b64_char n) = Some n"
proof -
  consider "n < 26" | "26 \<le> n" "n < 52" | "52 \<le> n" "n < 62" | "n = 62" | "n = 63" using assms by linarith
  then show ?thesis
  proof cases
    case 3
    then obtain d where "n = 52 + d" "d < 10" using le_Suc_ex [of 52 n] by fastforce
    then show ?thesis by (simp add: b64_value_def b64_codes)
  qed (simp_all add: b64_value_def b64_codes)
qed

lemma b64_char_code: "n < 64 \<Longrightarrow> 43 \<le> char_code (b64_char n)"
  by (simp add: b64_codes) linarith

lemma b64_char_no_end: "n < 64 \<Longrightarrow> \<not> line_end (b64_char n)"
  using b64_char_code [of n] by (auto simp: line_end_def char_code_def)

lemma b64_value_pad: "b64_value (CHR ''='') = None"
  by (simp add: b64_value_def char_code_def Let_def)

lemma pad_no_end: "\<not> line_end (CHR ''='')"
  by (simp add: line_end_def)

lemma byte_bound: "unat (b :: u8) < 256"
  using unsigned_less [of b, where ?'a = nat] by simp

text \<open>The digits of a number below \<open>2 ^ 24\<close> to the bases 64 and 256.\<close>

lemma digits_base:
  fixes n k :: nat
  shows "n div (k * k * k) * (k * k * k) + n div (k * k) mod k * (k * k) + n div k mod k * k + n mod k = n"
proof -
  have "n div (k * k * k) * (k * k * k) + n div (k * k) mod k * (k * k) + n div k mod k * k + n mod k =
      ((n div k div k div k * k + n div k div k mod k) * k + n div k mod k) * k + n mod k"
    by (simp only: div_mult2_eq add_mult_distrib mult.assoc)
  also have "\<dots> = n" by (simp only: div_mult_mod_eq)
  finally show ?thesis .
qed

lemmas digits_64 = digits_base [where k = 64, simplified]

lemma digit_split: "c < k \<Longrightarrow> (c + k * x) div k = x" "c < k \<Longrightarrow> (c + k * x) mod k = c" for c k x :: nat
  by simp_all

lemma digits_256:
  fixes a b c :: nat
  assumes "b < 256" "c < 256"
  shows "(a * 65536 + b * 256 + c) div 65536 = a" "(a * 65536 + b * 256 + c) div 256 mod 256 = b"
    "(a * 65536 + b * 256 + c) mod 256 = c"
proof -
  have n: "a * 65536 + b * 256 + c = c + 256 * (b + 256 * a)" by (simp add: algebra_simps)
  have m: "a * 65536 + b * 256 + c = (c + 256 * b) + 65536 * a" "c + 256 * b < 65536" using assms by linarith+
  show "(a * 65536 + b * 256 + c) div 65536 = a" unfolding m(1) using m(2) by (rule digit_split)
  show "(a * 65536 + b * 256 + c) div 256 mod 256 = b"
    unfolding n digit_split(1) [OF assms(2)] using assms(1) by (rule digit_split)
  show "(a * 65536 + b * 256 + c) mod 256 = c" unfolding n using assms(2) by (rule digit_split)
qed

lemma dequantum_quantum:
  assumes "a < 256" "b < 256" "c < 256"
  shows "\<exists>p q r s. p < 64 \<and> q < 64 \<and> r < 64 \<and> s < 64 \<and> quantum a b c = [b64_char p, b64_char q, b64_char r, b64_char s] \<and>
    dequantum p q r s = [word_of_nat a, word_of_nat b, word_of_nat c] \<and>
    (c = 0 \<longrightarrow> s = 0) \<and> (b = 0 \<and> c = 0 \<longrightarrow> r = 0)"
proof -
  define n where "n = a * 65536 + b * 256 + c"
  note d = digits_256 [OF assms(2,3), of a, folded n_def]
  have q: "quantum a b c = [b64_char (n div 262144), b64_char (n div 4096 mod 64), b64_char (n div 64 mod 64), b64_char (n mod 64)]"
    by (simp only: quantum_def n_def Let_def)
  have e: "dequantum (n div 262144) (n div 4096 mod 64) (n div 64 mod 64) (n mod 64) = [word_of_nat a, word_of_nat b, word_of_nat c]"
    by (simp only: dequantum_def digits_64 d Let_def)
  have "n < 64 * 262144" using assms by (simp add: n_def)
  then have p: "n div 262144 < 64" by (rule less_mult_imp_div_less)
  have "c = 0 \<Longrightarrow> n = 64 * (a * 1024 + b * 4)" "b = 0 \<and> c = 0 \<Longrightarrow> n div 64 = 64 * (a * 16)" by (simp_all add: n_def)
  then have z: "c = 0 \<longrightarrow> n mod 64 = 0" "b = 0 \<and> c = 0 \<longrightarrow> n div 64 mod 64 = 0" by (metis mod_mult_self1_is_0)+
  show ?thesis
    by (rule exI [of _ "n div 262144"], rule exI [of _ "n div 4096 mod 64"], rule exI [of _ "n div 64 mod 64"], rule exI [of _ "n mod 64"])
      (use p q e z in \<open>intro conjI; simp only: mod_less_divisor zero_less_numeral\<close>)
qed

lemma decode_quanta_encode: "decode_quanta (EncodeToString bs) = Some bs"
proof (induction bs rule: EncodeToString.induct)
  case (2 a)
  from dequantum_quantum [of "unat a" 0 0] byte_bound [of a] show ?case by (auto simp: b64_value_char b64_value_pad)
next
  case (3 a b)
  from dequantum_quantum [of "unat a" "unat b" 0] byte_bound [of a] byte_bound [of b] show ?case
    by (auto simp: b64_value_char b64_value_pad)
next
  case (4 a b c bs)
  from dequantum_quantum [of "unat a" "unat b" "unat c"] byte_bound [of a] byte_bound [of b] byte_bound [of c] 4 show ?case
    by (auto simp: b64_value_char)
qed simp

lemma encode_no_end: "c \<in> set (EncodeToString bs) \<Longrightarrow> \<not> line_end c"
proof (induction bs rule: EncodeToString.induct)
  case (2 a)
  from dequantum_quantum [of "unat a" 0 0] byte_bound [of a] pad_no_end 2 show ?case by (auto simp: b64_char_no_end)
next
  case (3 a b)
  from dequantum_quantum [of "unat a" "unat b" 0] byte_bound [of a] byte_bound [of b] pad_no_end 3 show ?case
    by (auto simp: b64_char_no_end)
next
  case (4 a b c bs)
  from dequantum_quantum [of "unat a" "unat b" "unat c"] byte_bound [of a] byte_bound [of b] byte_bound [of c] 4 show ?case
    by (auto simp: b64_char_no_end)
qed simp

lemma encode_decode: "DecodeString (EncodeToString bs) = Some bs"
  using encode_no_end [of _ bs] by (simp add: DecodeString_def decode_quanta_encode)

lemma filter_wrap: "filter (\<lambda>c. \<not> line_end c) (wrap_lines s) = filter (\<lambda>c. \<not> line_end c) s"
proof (induction s rule: wrap_lines.induct)
  case (1 s)
  show ?case
  proof (cases "76 < length s")
    case True
    have n: "line_end (CHR 0x0A)" by (simp only: line_end_def simp_thms)
    have "wrap_lines s = take 76 s @ [CHR 0x0A] @ wrap_lines (drop 76 s)" using True by (subst wrap_lines.simps) (simp only: if_True)
    then have "filter (\<lambda>c. \<not> line_end c) (wrap_lines s) =
        filter (\<lambda>c. \<not> line_end c) (take 76 s) @ filter (\<lambda>c. \<not> line_end c) (drop 76 s)"
      using 1 [OF True] n by (simp only: filter_append filter.simps simp_thms if_False append_Nil)
    then show ?thesis by (simp only: filter_append [symmetric] append_take_drop_id)
  next
    case False
    then show ?thesis by (subst wrap_lines.simps) (simp only: if_False)
  qed
qed

lemma decode_wrapped: "DecodeString (wrapBase64 bs) = Some bs"
  using encode_decode [of bs] by (simp add: wrapBase64_def DecodeString_def filter_wrap)

end
