(* ===== verification/MacSetup.thy ===== *)
theory MacSetup
  imports MacAgent Base64
begin

text \<open>
  The macOS agent: the commands \<open>setup\<close> and \<open>status\<close>, with the client bundle, the contract
  file, the PKCS#12 container and the configuration profile. The parsers of JSON, TOML, PEM and
  X.509, the random numbers, \<open>openssl\<close> and the outcomes of the system calls are the record
  \<open>setup_env\<close>; flags are parsed by a library.
\<close>

section \<open>The environment\<close>

record Bundle =
  CACertPEM :: string
  ClientCertPEM :: string
  ClientKeyPEM :: string
  BundleClientID :: string
  PKCS12B64 :: string
  PKCS12Password :: string

record certificate =
  Raw :: bytes
  SubjectCommonName :: string

text \<open>A file of the temporary directory: a text, a PKCS#12 container, or what a failed write left.\<close>

datatype tmp_file = TextFile string | P12File bytes | PartialFile

type_synonym tmp_files = "(string \<times> tmp_file) list"

record setup_env =
  read_path :: "string \<Rightarrow> string option"
  json_bundle :: "string \<Rightarrow> Bundle option"
  toml_prefix :: "string \<Rightarrow> string option"
  pem_decode :: "string \<Rightarrow> bytes option"
  x509_parse :: "bytes \<Rightarrow> certificate option"
  mkdir_temp :: "string option"
  write_tmp :: "string \<Rightarrow> write_result"
  remove_tmp_ok :: bool
  rand_read :: "bytes option"
  openssl_version :: "string option"
  openssl_export :: "string list \<Rightarrow> tmp_files \<Rightarrow> bool \<times> bytes option"
  read_p12_ok :: bool
  uuids :: "string \<times> string \<times> string \<times> string"
  open_profile_ok :: bool
  render_stops_at :: "nat option"
  open_command_ok :: bool

record setup_flags =
  flagServerIP :: string
  flagDNSIP :: string
  flagBundleFile :: string
  flagContractFile :: string

text \<open>The machine, the profile that is installed, and the temporary directory of the run.\<close>

record 'h setup_state =
  agent :: "'h machine"
  profile_file :: "string option"
  tmp_dir :: "tmp_files option"

datatype setup_error =
    BundleUnreadable
  | BundleNotJson
  | MissingField string
  | NoPemBlock string
  | BadCertificate
  | NoContract
  | ContractNotToml
  | NoPrefix
  | EmptyCN
  | NoP12
  | BadBase64
  | TempDirFailed
  | TempWriteFailed string
  | RandFailed
  | OpensslFailed
  | P12Unreadable
  | StateDirFailed agent_error
  | ProfileNotOpened
  | ProfileNotRendered
  | ConfigNotSaved agent_error

section \<open>The client bundle\<close>

definition ParseCACert :: "setup_env \<Rightarrow> Bundle \<Rightarrow> setup_error + certificate" where
  "ParseCACert E b =
     (case pem_decode E (CACertPEM b) of
        None \<Rightarrow> Inl (NoPemBlock ''ca_cert_pem'')
      | Some der \<Rightarrow> (case x509_parse E der of None \<Rightarrow> Inl BadCertificate | Some cert \<Rightarrow> Inr cert))"

definition Bundle_Load :: "setup_env \<Rightarrow> string \<Rightarrow> setup_error + Bundle" where
  "Bundle_Load E path =
     (case read_path E path of
        None \<Rightarrow> Inl BundleUnreadable
      | Some data \<Rightarrow>
     case json_bundle E data of
        None \<Rightarrow> Inl BundleNotJson
      | Some b \<Rightarrow>
     if CACertPEM b = [] then Inl (MissingField ''ca_cert_pem'')
     else if ClientCertPEM b = [] then Inl (MissingField ''client_cert_pem'')
     else if ClientKeyPEM b = [] then Inl (MissingField ''client_key_pem'')
     else if BundleClientID b = [] then Inl (MissingField ''client_id'')
     else
     case ParseCACert E b of
        Inl e \<Rightarrow> Inl e
      | Inr _ \<Rightarrow>
     if pem_decode E (ClientCertPEM b) = None then Inl (NoPemBlock ''client_cert_pem'')
     else if pem_decode E (ClientKeyPEM b) = None then Inl (NoPemBlock ''client_key_pem'')
     else Inr b)"

text \<open>The subject of the certificate, although the function is named after the issuer.\<close>

definition Bundle_CAIssuerCN :: "setup_env \<Rightarrow> Bundle \<Rightarrow> setup_error + string" where
  "Bundle_CAIssuerCN E b =
     (case ParseCACert E b of
        Inl e \<Rightarrow> Inl e
      | Inr cert \<Rightarrow> if SubjectCommonName cert = [] then Inl EmptyCN else Inr (SubjectCommonName cert))"

definition HasPKCS12 :: "Bundle \<Rightarrow> bool" where
  "HasPKCS12 b \<longleftrightarrow> PKCS12B64 b \<noteq> [] \<and> PKCS12Password b \<noteq> []"

definition DecodePKCS12 :: "Bundle \<Rightarrow> setup_error + bytes" where
  "DecodePKCS12 b =
     (if \<not> HasPKCS12 b then Inl NoP12
      else case DecodeString (PKCS12B64 b) of None \<Rightarrow> Inl BadBase64 | Some data \<Rightarrow> Inr data)"

section \<open>The contract\<close>

definition Contract_Load :: "setup_env \<Rightarrow> string \<Rightarrow> setup_error + string" where
  "Contract_Load E path =
     (case read_path E path of
        None \<Rightarrow> Inl NoContract
      | Some data \<Rightarrow>
     case toml_prefix E data of
        None \<Rightarrow> Inl ContractNotToml
      | Some cidr \<Rightarrow> if cidr = [] then Inl NoPrefix else Inr cidr)"

section \<open>The PKCS#12 container\<close>

definition cleanup :: "setup_env \<Rightarrow> 'h setup_state \<Rightarrow> 'h setup_state" where
  "cleanup E s = (if remove_tmp_ok E then s\<lparr>tmp_dir := None\<rparr> else s)"

definition add_tmp :: "string \<Rightarrow> tmp_file \<Rightarrow> 'h setup_state \<Rightarrow> 'h setup_state" where
  "add_tmp name f s = s\<lparr>tmp_dir := map_option (\<lambda>fs. fs @ [(name, f)]) (tmp_dir s)\<rparr>"

text \<open>The three files are written in turn; the result has the error of the first that fails.\<close>

fun write_files :: "setup_env \<Rightarrow> (string \<times> string) list \<Rightarrow> 'h setup_state \<Rightarrow> setup_error option \<times> 'h setup_state" where
  "write_files E [] s = (None, s)"
| "write_files E ((name, content) # fs) s =
     (case write_tmp E name of
        Written \<Rightarrow> write_files E fs (add_tmp name (TextFile content) s)
      | NotWritten \<Rightarrow> (Some (TempWriteFailed name), s)
      | Truncated \<Rightarrow> (Some (TempWriteFailed name), add_tmp name PartialFile s))"

definition opensslSupportsLegacy :: "setup_env \<Rightarrow> bool" where
  "opensslSupportsLegacy E =
     (case openssl_version E of
        None \<Rightarrow> False
      | Some out \<Rightarrow> (let v = trim out in has_str_prefix v ''OpenSSL 3'' \<or> has_str_prefix v ''OpenSSL 4''))"

definition pkcs12_args :: "setup_env \<Rightarrow> string \<Rightarrow> string \<Rightarrow> string list" where
  "pkcs12_args E dir password =
     [''pkcs12'', ''-export'', ''-inkey'', path_join dir ''client.key'', ''-in'', path_join dir ''client.crt'',
      ''-certfile'', path_join dir ''ca.crt'', ''-out'', path_join dir ''client.p12'', ''-passout'', ''pass:'' @ password] @
     (if opensslSupportsLegacy E then [''-legacy''] else [])"

text \<open>The result has the password; the container is in the temporary directory.\<close>

definition Pkcs12_Generate ::
  "setup_env \<Rightarrow> string \<Rightarrow> string \<Rightarrow> string \<Rightarrow> 'h setup_state \<Rightarrow> (setup_error + string) \<times> 'h setup_state" where
  "Pkcs12_Generate E clientCertPEM clientKeyPEM caCertPEM s =
     (case mkdir_temp E of
        None \<Rightarrow> (Inl TempDirFailed, s)
      | Some dir \<Rightarrow>
     case write_files E [(''client.crt'', clientCertPEM), (''client.key'', clientKeyPEM), (''ca.crt'', caCertPEM)]
            (s\<lparr>tmp_dir := Some []\<rparr>) of
        (Some e, s1) \<Rightarrow> (Inl e, cleanup E s1)
      | (None, s1) \<Rightarrow>
     case rand_read E of
        None \<Rightarrow> (Inl RandFailed, cleanup E s1)
      | Some pwBytes \<Rightarrow>
     let password = concat (map fmt_02x pwBytes)
     in case openssl_export E (pkcs12_args E dir password) (case tmp_dir s1 of None \<Rightarrow> [] | Some fs \<Rightarrow> fs) of
          (ok, p12) \<Rightarrow>
            let s2 = (case p12 of None \<Rightarrow> s1 | Some bs \<Rightarrow> add_tmp ''client.p12'' (P12File bs) s1)
            in if ok then (Inr password, s2) else (Inl OpensslFailed, cleanup E s2))"

definition read_p12 :: "setup_env \<Rightarrow> 'h setup_state \<Rightarrow> bytes option" where
  "read_p12 E s =
     (case tmp_dir s of
        None \<Rightarrow> None
      | Some fs \<Rightarrow>
          (case map_of fs ''client.p12'' of
             Some (P12File bs) \<Rightarrow> if read_p12_ok E then Some bs else None
           | _ \<Rightarrow> None))"

section \<open>The profile\<close>

record Params =
  pServerIP :: string
  pClientID :: string
  pCAIssuerCN :: string
  pCACertDER :: bytes
  pPKCS12Data :: bytes
  pPKCS12Password :: string
  pProfileName :: string

definition defaultProfileName :: string where
  "defaultProfileName = ''prototype-net''"

record templateData =
  tProfileName :: string
  tProfileUUID :: string
  tCAPayloadUUID :: string
  tIdentityPayloadUUID :: string
  tVPNPayloadUUID :: string
  tServerIP :: string
  tClientID :: string
  tCAIssuerCN :: string
  tPKCS12Password :: string
  tCACertB64 :: string
  tPKCS12B64 :: string

definition line :: "nat \<Rightarrow> string \<Rightarrow> string" where
  "line tabs s = replicate tabs (CHR 0x09) @ s @ [newline]"

text \<open>The embedded template; each field is inserted as it is, without escaping.\<close>

definition profileTemplate :: "templateData \<Rightarrow> string" where
  \<open>profileTemplate d =
     line 0 ''<?xml version="1.0" encoding="UTF-8"?>'' @
     line 0 ''<!DOCTYPE plist PUBLIC "-//Apple//DTD PLIST 1.0//EN" "http://www.apple.com/DTDs/PropertyList-1.0.dtd">'' @
     line 0 ''<plist version="1.0">'' @
     line 0 ''<dict>'' @
     line 1 ''<key>PayloadDescription</key>'' @
     line 1 (''<string>IKEv2 VPN profile for '' @ tProfileName d @ ''</string>'') @
     line 1 ''<key>PayloadDisplayName</key>'' @
     line 1 (''<string>'' @ tProfileName d @ ''</string>'') @
     line 1 ''<key>PayloadIdentifier</key>'' @
     line 1 (''<string>net.prototype.'' @ tProfileName d @ ''</string>'') @
     line 1 ''<key>PayloadOrganization</key>'' @
     line 1 ''<string>prototype-net</string>'' @
     line 1 ''<key>PayloadType</key>'' @
     line 1 ''<string>Configuration</string>'' @
     line 1 ''<key>PayloadUUID</key>'' @
     line 1 (''<string>'' @ tProfileUUID d @ ''</string>'') @
     line 1 ''<key>PayloadVersion</key>'' @
     line 1 ''<integer>1</integer>'' @
     line 1 ''<key>PayloadContent</key>'' @
     line 1 ''<array>'' @
     line 2 ''<!-- Payload 1: CA certificate -->'' @
     line 2 ''<dict>'' @
     line 3 ''<key>PayloadDisplayName</key>'' @
     line 3 (''<string>'' @ tProfileName d @ '' CA</string>'') @
     line 3 ''<key>PayloadIdentifier</key>'' @
     line 3 (''<string>net.prototype.'' @ tProfileName d @ ''.ca</string>'') @
     line 3 ''<key>PayloadType</key>'' @
     line 3 ''<string>com.apple.security.root</string>'' @
     line 3 ''<key>PayloadUUID</key>'' @
     line 3 (''<string>'' @ tCAPayloadUUID d @ ''</string>'') @
     line 3 ''<key>PayloadVersion</key>'' @
     line 3 ''<integer>1</integer>'' @
     line 3 ''<key>PayloadContent</key>'' @
     line 3 ''<data>'' @
     line 0 (tCACertB64 d) @
     line 3 ''</data>'' @
     line 2 ''</dict>'' @
     line 2 ''<!-- Payload 2: Client identity (PKCS#12) -->'' @
     line 2 ''<dict>'' @
     line 3 ''<key>Password</key>'' @
     line 3 (''<string>'' @ tPKCS12Password d @ ''</string>'') @
     line 3 ''<key>PayloadDisplayName</key>'' @
     line 3 (''<string>'' @ tProfileName d @ '' Identity</string>'') @
     line 3 ''<key>PayloadIdentifier</key>'' @
     line 3 (''<string>net.prototype.'' @ tProfileName d @ ''.identity</string>'') @
     line 3 ''<key>PayloadType</key>'' @
     line 3 ''<string>com.apple.security.pkcs12</string>'' @
     line 3 ''<key>PayloadUUID</key>'' @
     line 3 (''<string>'' @ tIdentityPayloadUUID d @ ''</string>'') @
     line 3 ''<key>PayloadVersion</key>'' @
     line 3 ''<integer>1</integer>'' @
     line 3 ''<key>PayloadContent</key>'' @
     line 3 ''<data>'' @
     line 0 (tPKCS12B64 d) @
     line 3 ''</data>'' @
     line 2 ''</dict>'' @
     line 2 ''<!-- Payload 3: IKEv2 VPN -->'' @
     line 2 ''<dict>'' @
     line 3 ''<key>PayloadDisplayName</key>'' @
     line 3 (''<string>'' @ tProfileName d @ '' VPN</string>'') @
     line 3 ''<key>PayloadIdentifier</key>'' @
     line 3 (''<string>net.prototype.'' @ tProfileName d @ ''.vpn</string>'') @
     line 3 ''<key>PayloadType</key>'' @
     line 3 ''<string>com.apple.vpn.managed</string>'' @
     line 3 ''<key>PayloadUUID</key>'' @
     line 3 (''<string>'' @ tVPNPayloadUUID d @ ''</string>'') @
     line 3 ''<key>PayloadVersion</key>'' @
     line 3 ''<integer>1</integer>'' @
     line 3 ''<key>UserDefinedName</key>'' @
     line 3 (''<string>'' @ tProfileName d @ ''</string>'') @
     line 3 ''<key>VPNType</key>'' @
     line 3 ''<string>IKEv2</string>'' @
     line 3 ''<key>IKEv2</key>'' @
     line 3 ''<dict>'' @
     line 4 ''<key>AuthenticationMethod</key>'' @
     line 4 ''<string>Certificate</string>'' @
     line 4 ''<key>CertificateType</key>'' @
     line 4 ''<string>RSA</string>'' @
     line 4 ''<key>PayloadCertificateUUID</key>'' @
     line 4 (''<string>'' @ tIdentityPayloadUUID d @ ''</string>'') @
     line 4 ''<key>RemoteAddress</key>'' @
     line 4 (''<string>'' @ tServerIP d @ ''</string>'') @
     line 4 ''<key>RemoteIdentifier</key>'' @
     line 4 (''<string>'' @ tServerIP d @ ''</string>'') @
     line 4 ''<key>LocalIdentifier</key>'' @
     line 4 (''<string>'' @ tClientID d @ ''</string>'') @
     line 4 ''<key>ServerCertificateIssuerCommonName</key>'' @
     line 4 (''<string>'' @ tCAIssuerCN d @ ''</string>'') @
     line 4 ''<key>IKESecurityAssociationParameters</key>'' @
     line 4 ''<dict>'' @
     line 5 ''<key>EncryptionAlgorithm</key>'' @
     line 5 ''<string>AES-256</string>'' @
     line 5 ''<key>IntegrityAlgorithm</key>'' @
     line 5 ''<string>SHA2-256</string>'' @
     line 5 ''<key>DiffieHellmanGroup</key>'' @
     line 5 ''<integer>20</integer>'' @
     line 4 ''</dict>'' @
     line 4 ''<key>ChildSecurityAssociationParameters</key>'' @
     line 4 ''<dict>'' @
     line 5 ''<key>EncryptionAlgorithm</key>'' @
     line 5 ''<string>AES-256-GCM</string>'' @
     line 5 ''<key>DiffieHellmanGroup</key>'' @
     line 5 ''<integer>20</integer>'' @
     line 4 ''</dict>'' @
     line 4 ''<key>EnablePFS</key>'' @
     line 4 ''<true/>'' @
     line 4 ''<key>EnableFallback</key>'' @
     line 4 ''<false/>'' @
     line 3 ''</dict>'' @
     line 2 ''</dict>'' @
     line 1 ''</array>'' @
     line 0 ''</dict>'' @
     line 0 ''</plist>''\<close>

definition template_data :: "setup_env \<Rightarrow> Params \<Rightarrow> templateData" where
  "template_data E p =
     (case uuids E of
        (u0, u1, u2, u3) \<Rightarrow>
          \<lparr> tProfileName = (if pProfileName p = [] then defaultProfileName else pProfileName p),
            tProfileUUID = u0, tCAPayloadUUID = u1, tIdentityPayloadUUID = u2, tVPNPayloadUUID = u3,
            tServerIP = pServerIP p, tClientID = pClientID p, tCAIssuerCN = pCAIssuerCN p,
            tPKCS12Password = pPKCS12Password p, tCACertB64 = wrapBase64 (pCACertDER p),
            tPKCS12B64 = wrapBase64 (pPKCS12Data p) \<rparr>)"

text \<open>The file is truncated when it is opened, and a failing write leaves the part before it.\<close>

definition Mobileconfig_Generate ::
  "setup_env \<Rightarrow> Params \<Rightarrow> 'h setup_state \<Rightarrow> (setup_error + unit) \<times> 'h setup_state" where
  "Mobileconfig_Generate E p s =
     (let out = profileTemplate (template_data E p)
      in if \<not> open_profile_ok E then (Inl ProfileNotOpened, s)
         else case render_stops_at E of
             Some n \<Rightarrow> (Inl ProfileNotRendered, s\<lparr>profile_file := Some (take n out)\<rparr>)
           | None \<Rightarrow> (Inr (), s\<lparr>profile_file := Some out\<rparr>))"

section \<open>Setup\<close>

text \<open>The steps from the state directory on. The result tells whether the profile was opened.\<close>

definition install_profile ::
  "setup_env \<Rightarrow> fs \<Rightarrow> setup_flags \<Rightarrow> Bundle \<Rightarrow> string \<Rightarrow> string \<Rightarrow> certificate \<Rightarrow> bytes \<Rightarrow> string \<Rightarrow> 'h setup_state \<Rightarrow>
    (setup_error + bool) \<times> 'h setup_state" where
  "install_profile E f flags b syntheticPrefix caIssuerCN caCert p12Data p12Password s =
     (if \<not> home_ok f then (Inl (StateDirFailed NoHome), s)
      else if \<not> mkdir_ok f then (Inl (StateDirFailed MkDirFailed), s)
      else
        let profileName = ''prototype-net''
        in case Mobileconfig_Generate E
               \<lparr> pServerIP = flagServerIP flags, pClientID = BundleClientID b, pCAIssuerCN = caIssuerCN,
                 pCACertDER = Raw caCert, pPKCS12Data = p12Data, pPKCS12Password = p12Password,
                 pProfileName = profileName \<rparr> s of
             (Inl e, s1) \<Rightarrow> (Inl e, s1)
           | (Inr _, s1) \<Rightarrow>
        case SaveConfig f
               \<lparr> ServerIP = flagServerIP flags, DNSIP = flagDNSIP flags, ClientID = BundleClientID b,
                 SyntheticPrefix = syntheticPrefix, ProfileName = profileName, CAIssuerCN = caIssuerCN \<rparr> (agent s1) of
             (Inl e, m) \<Rightarrow> (Inl (ConfigNotSaved e), s1\<lparr>agent := m\<rparr>)
           | (Inr _, m) \<Rightarrow> (Inr (open_command_ok E), s1\<lparr>agent := m\<rparr>))"

text \<open>The deferred \<open>cleanup\<close> runs whatever happens after the container has been generated.\<close>

definition runSetup ::
  "setup_env \<Rightarrow> fs \<Rightarrow> setup_flags \<Rightarrow> 'h setup_state \<Rightarrow> (setup_error + bool) \<times> 'h setup_state" where
  "runSetup E f flags s =
     (case Bundle_Load E (flagBundleFile flags) of
        Inl e \<Rightarrow> (Inl e, s)
      | Inr b \<Rightarrow>
     case Contract_Load E (flagContractFile flags) of
        Inl e \<Rightarrow> (Inl e, s)
      | Inr syntheticPrefix \<Rightarrow>
     case Bundle_CAIssuerCN E b of
        Inl e \<Rightarrow> (Inl e, s)
      | Inr caIssuerCN \<Rightarrow>
     case ParseCACert E b of
        Inl e \<Rightarrow> (Inl e, s)
      | Inr caCert \<Rightarrow>
     if HasPKCS12 b then
       (case DecodePKCS12 b of
          Inl e \<Rightarrow> (Inl e, s)
        | Inr p12Data \<Rightarrow>
            install_profile E f flags b syntheticPrefix caIssuerCN caCert p12Data (PKCS12Password b) s)
     else
       (case Pkcs12_Generate E (ClientCertPEM b) (ClientKeyPEM b) (CACertPEM b) s of
          (Inl e, s1) \<Rightarrow> (Inl e, s1)
        | (Inr p12Password, s1) \<Rightarrow>
       case read_p12 E s1 of
          None \<Rightarrow> (Inl P12Unreadable, cleanup E s1)
        | Some p12Data \<Rightarrow>
       case install_profile E f flags b syntheticPrefix caIssuerCN caCert p12Data p12Password s1 of
          (r, s2) \<Rightarrow> (r, cleanup E s2)))"

section \<open>Status\<close>

datatype status_line =
    ConfigLine bool
  | BackupLine bool
  | VpnError
  | VpnLine string string
  | ServiceError agent_error
  | ServiceLine string
  | ServersError agent_error
  | DhcpDefault
  | ServersLine "string list"
  | RouteError string
  | RouteLine string bool

text \<open>The lines that are printed, and the result of the command.\<close>

definition runStatus ::
  "'h tools \<Rightarrow> fs \<Rightarrow> status_cmd \<Rightarrow> 'h machine \<Rightarrow> status_line list \<times> (agent_error + unit)" where
  "runStatus T f c m =
     (if \<not> ConfigExists f m then ([ConfigLine False], Inr ())
      else
        let out = [ConfigLine True, BackupLine (DNSBackupExists f m)]
        in case LoadConfig f m of
             Inl e \<Rightarrow> (out, Inl e)
           | Inr cfg \<Rightarrow>
        let vpn = (case Status c of None \<Rightarrow> [VpnError] | Some st \<Rightarrow> [VpnLine (ProfileName cfg) st]);
            net =
              (case ActiveService T (os m) of
                 Inl e \<Rightarrow> [ServiceError e]
               | Inr service \<Rightarrow>
                   [ServiceLine service] @
                   (case DNSServers T service (os m) of
                      Inl e \<Rightarrow> [ServersError e]
                    | Inr servers \<Rightarrow> if servers = [] then [DhcpDefault] else [ServersLine servers]));
            route =
              (case HasIPv6Route T (SyntheticPrefix cfg) (os m) of
                 None \<Rightarrow> [RouteError (SyntheticPrefix cfg)]
               | Some r \<Rightarrow> [RouteLine (SyntheticPrefix cfg) r])
        in (out @ vpn @ net @ route, Inr ()))"

section \<open>Lemmas\<close>

definition setup_params :: "setup_flags \<Rightarrow> Bundle \<Rightarrow> string \<Rightarrow> certificate \<Rightarrow> bytes \<Rightarrow> string \<Rightarrow> Params" where
  "setup_params flags b cn cert p12 pw =
     \<lparr> pServerIP = flagServerIP flags, pClientID = BundleClientID b, pCAIssuerCN = cn, pCACertDER = Raw cert,
       pPKCS12Data = p12, pPKCS12Password = pw, pProfileName = ''prototype-net'' \<rparr>"

definition setup_config :: "setup_flags \<Rightarrow> Bundle \<Rightarrow> string \<Rightarrow> string \<Rightarrow> Config" where
  "setup_config flags b pre cn =
     \<lparr> ServerIP = flagServerIP flags, DNSIP = flagDNSIP flags, ClientID = BundleClientID b,
       SyntheticPrefix = pre, ProfileName = ''prototype-net'', CAIssuerCN = cn \<rparr>"

lemma install_profile_done:
  "install_profile E f flags b pre cn cert p12 pw s = (Inr opened, s') \<Longrightarrow>
    agent s' = (agent s)\<lparr>config_file := Json (setup_config flags b pre cn)\<rparr> \<and>
    profile_file s' = Some (profileTemplate (template_data E (setup_params flags b cn cert p12 pw)))"
  by (auto simp: install_profile_def Mobileconfig_Generate_def SaveConfig_def setup_config_def setup_params_def Let_def
      split: if_splits option.splits sum.splits write_result.splits)

lemma write_files_agent: "write_files E fs s = (e, s') \<Longrightarrow> agent s' = agent s \<and> profile_file s' = profile_file s"
  by (induction E fs s rule: write_files.induct) (auto simp: add_tmp_def split: write_result.splits)

lemma cleanup_keeps [simp]: "agent (cleanup E s) = agent s" "profile_file (cleanup E s) = profile_file s"
  by (simp_all add: cleanup_def)

lemma Pkcs12_Generate_agent:
  "Pkcs12_Generate E c k ca s = (r, s') \<Longrightarrow> agent s' = agent s \<and> profile_file s' = profile_file s"
  by (auto simp: Pkcs12_Generate_def add_tmp_def Let_def simp del: write_files.simps dest!: write_files_agent
      split: option.splits prod.splits if_splits)

text \<open>
  The container of a successful setup: the one of the bundle, or the one that \<open>openssl\<close> wrote for
  the random password.
\<close>

definition setup_p12 :: "setup_env \<Rightarrow> Bundle \<Rightarrow> bytes \<Rightarrow> string \<Rightarrow> bool" where
  "setup_p12 E b p12 pw \<longleftrightarrow>
     (if HasPKCS12 b then DecodeString (PKCS12B64 b) = Some p12 \<and> pw = PKCS12Password b
      else \<exists>dir rnd. mkdir_temp E = Some dir \<and> rand_read E = Some rnd \<and> pw = concat (map fmt_02x rnd) \<and>
        openssl_export E (pkcs12_args E dir pw)
          [(''client.crt'', TextFile (ClientCertPEM b)), (''client.key'', TextFile (ClientKeyPEM b)), (''ca.crt'', TextFile (CACertPEM b))]
          = (True, Some p12))"

lemma Pkcs12_Generate_p12:
  assumes "Pkcs12_Generate E (ClientCertPEM b) (ClientKeyPEM b) (CACertPEM b) s = (Inr pw, s1)"
    and "read_p12 E s1 = Some p12" and "\<not> HasPKCS12 b"
  shows "setup_p12 E b p12 pw"
  using assms
  by (auto simp: Pkcs12_Generate_def add_tmp_def read_p12_def setup_p12_def Let_def
      split: option.splits prod.splits if_splits write_result.splits)

lemma runSetup_done:
  assumes "runSetup E f flags s = (Inr opened, s')"
  shows "\<exists>b pre cert p12 pw. Bundle_Load E (flagBundleFile flags) = Inr b \<and> Contract_Load E (flagContractFile flags) = Inr pre \<and>
    ParseCACert E b = Inr cert \<and> SubjectCommonName cert \<noteq> [] \<and> setup_p12 E b p12 pw \<and>
    agent s' = (agent s)\<lparr>config_file := Json (setup_config flags b pre (SubjectCommonName cert))\<rparr> \<and>
    profile_file s' = Some (profileTemplate (template_data E (setup_params flags b (SubjectCommonName cert) cert p12 pw)))"
proof -
  from assms obtain b pre cert where
    l: "Bundle_Load E (flagBundleFile flags) = Inr b" "Contract_Load E (flagContractFile flags) = Inr pre"
      "ParseCACert E b = Inr cert" "SubjectCommonName cert \<noteq> []"
    by (auto simp: runSetup_def Bundle_CAIssuerCN_def split: sum.splits if_splits)
  let ?i = "\<lambda>p12 pw. install_profile E f flags b pre (SubjectCommonName cert) cert p12 pw"
  have "\<exists>p12 pw s1 s2. setup_p12 E b p12 pw \<and> ?i p12 pw s1 = (Inr opened, s2) \<and> agent s1 = agent s \<and>
      agent s' = agent s2 \<and> profile_file s' = profile_file s2"
  proof (cases "HasPKCS12 b")
    case True
    with assms l obtain p12 where p: "DecodePKCS12 b = Inr p12" and i: "?i p12 (PKCS12Password b) s = (Inr opened, s')"
      by (auto simp: runSetup_def Bundle_CAIssuerCN_def split: sum.splits)
    from p True have "setup_p12 E b p12 (PKCS12Password b)" by (auto simp: DecodePKCS12_def setup_p12_def split: option.splits)
    with i show ?thesis by blast
  next
    case False
    with assms l obtain pw s1 p12 s2 where
      g: "Pkcs12_Generate E (ClientCertPEM b) (ClientKeyPEM b) (CACertPEM b) s = (Inr pw, s1)"
      and r: "read_p12 E s1 = Some p12" and i: "?i p12 pw s1 = (Inr opened, s2)" and "s' = cleanup E s2"
      by (auto simp: runSetup_def Bundle_CAIssuerCN_def split: sum.splits prod.splits option.splits)
    with Pkcs12_Generate_agent [OF g] Pkcs12_Generate_p12 [OF g r False] show ?thesis by auto
  qed
  then obtain p12 pw s1 s2 where p: "setup_p12 E b p12 pw" and i: "?i p12 pw s1 = (Inr opened, s2)"
    and a: "agent s1 = agent s" "agent s' = agent s2" "profile_file s' = profile_file s2" by blast
  from l p a install_profile_done [OF i] show ?thesis by auto
qed

lemma template_decodes:
  "DecodeString (tCACertB64 (template_data E (setup_params flags b cn cert p12 pw))) = Some (Raw cert)"
  "DecodeString (tPKCS12B64 (template_data E (setup_params flags b cn cert p12 pw))) = Some p12"
  by (simp_all add: template_data_def setup_params_def decode_wrapped split: prod.split)

section \<open>Failures\<close>

text \<open>
  Setup never touches the DNS configuration or its backup, and a setup that fails leaves the
  configuration alone unless the write of the configuration itself was cut short.
\<close>

lemma install_profile_keeps:
  "install_profile E f flags b pre cn cert p12 pw s = (r, s') \<Longrightarrow>
    os (agent s') = os (agent s) \<and> backup_file (agent s') = backup_file (agent s) \<and> tmp_dir s' = tmp_dir s \<and>
    (\<forall>e. r = Inl e \<longrightarrow> config_file (agent s') = config_file (agent s) \<or> r = Inl (ConfigNotSaved WriteFailed) \<and> write_config f = Truncated)"
  by (auto simp: install_profile_def Mobileconfig_Generate_def SaveConfig_def Let_def
      split: if_splits option.splits sum.splits write_result.splits)

theorem setup_fails_safe:
  assumes "runSetup E f flags s = (r, s')"
  shows "os (agent s') = os (agent s) \<and> backup_file (agent s') = backup_file (agent s) \<and>
    (\<forall>e. r = Inl e \<longrightarrow> config_file (agent s') = config_file (agent s) \<or> r = Inl (ConfigNotSaved WriteFailed) \<and> write_config f = Truncated)"
  using assms
  by (auto simp: runSetup_def dest!: install_profile_keeps Pkcs12_Generate_agent split: sum.splits prod.splits option.splits if_splits)

text \<open>The temporary directory with the private key does not outlive the command if it can be removed.\<close>

theorem setup_leaves_no_key:
  assumes "runSetup E f flags s = (r, s')" "tmp_dir s = None" "remove_tmp_ok E"
  shows "tmp_dir s' = None"
proof -
  have g: "tmp_dir s1 = None" if "Pkcs12_Generate E c k ca s = (Inl e, s1)" for c k ca e s1
    using that assms(2,3) 
    by (auto simp: Pkcs12_Generate_def cleanup_def Let_def simp del: write_files.simps split: option.splits prod.splits if_splits)
  have c: "tmp_dir (cleanup E x) = None" for x :: "'a setup_state" using assms(3) by (simp add: cleanup_def)
  show ?thesis
    using assms(1,2) c
    by (auto simp: runSetup_def dest!: install_profile_keeps dest: g split: sum.splits prod.splits option.splits if_splits)
qed

section \<open>Properties\<close>


definition sample_bundle :: Bundle where
  "sample_bundle =
     \<lparr> CACertPEM = ''A'', ClientCertPEM = ''B'', ClientKeyPEM = ''C'', BundleClientID = ''client'', PKCS12B64 = EncodeToString [1, 2], PKCS12Password = ''pw'' \<rparr>"

definition sample_setup_env :: setup_env where
  "sample_setup_env =
     \<lparr> read_path = (\<lambda>p. Some p), json_bundle = (\<lambda>_. Some sample_bundle), toml_prefix = (\<lambda>_. Some ''fd00:abcd::/32''),
       pem_decode = (\<lambda>_. Some [7]), x509_parse = (\<lambda>der. Some \<lparr> Raw = der, SubjectCommonName = ''CA'' \<rparr>),
       mkdir_temp = None, write_tmp = (\<lambda>_. Written), remove_tmp_ok = True, rand_read = None, openssl_version = None,
       openssl_export = (\<lambda>_ _. (False, None)), read_p12_ok = True, uuids = (''1'', ''2'', ''3'', ''4''),
       open_profile_ok = True, render_stops_at = None, open_command_ok = True \<rparr>"

definition sample_flags :: setup_flags where
  "sample_flags =
     \<lparr> flagServerIP = ''198.51.100.7'', flagDNSIP = ''198.51.100.7'', flagBundleFile = ''b'', flagContractFile = ''c'' \<rparr>"

definition fresh_machine :: "mac_host machine" where
  "fresh_machine = \<lparr> os = sample_host\<lparr>mac_dns := (\<lambda>svc. [])(''Wi-Fi'' := [''192.0.2.1''])\<rparr>, config_file = Absent, backup_file = Absent \<rparr>"

lemma sample_setup:
  "\<exists>s'. runSetup sample_setup_env good_fs sample_flags \<lparr> agent = fresh_machine, profile_file = None, tmp_dir = None \<rparr> = (Inr True, s') \<and>
    agent s' = sample_machine ((\<lambda>svc. [])(''Wi-Fi'' := [''192.0.2.1''])) Absent"
proof -
  have "EncodeToString [1, 2] \<noteq> []" by simp
  then show ?thesis
    using encode_decode [of "[1, 2]"]
    by (simp del: EncodeToString.simps add: runSetup_def Bundle_Load_def Contract_Load_def Bundle_CAIssuerCN_def ParseCACert_def HasPKCS12_def
        DecodePKCS12_def install_profile_def Mobileconfig_Generate_def SaveConfig_def sample_setup_env_def sample_flags_def
        sample_bundle_def fresh_machine_def sample_machine_def sample_config_def Let_def)
qed


end
