(* ===== verification/VpnCtl.thy ===== *)
theory VpnCtl
  imports MacAgent
begin

text \<open>
  The control program of the VPN (\<open>macos-agent/vpnctl/main.swift\<close>), which the agent runs to learn
  the status. What the NetworkExtension framework answers is the record \<open>ne\<close>: the configurations
  it lists, and for each connection its status, the statuses that its observer reads, and the
  error of the attempt to start it.
\<close>

section \<open>The framework\<close>

datatype NEVPNStatus =
    Invalid
  | Disconnected
  | Connecting
  | Connected
  | Reasserting
  | Disconnecting
  | UnknownStatus

fun statusString :: "NEVPNStatus \<Rightarrow> string" where
  "statusString Invalid = ''Invalid''"
| "statusString Disconnected = ''Disconnected''"
| "statusString Connecting = ''Connecting''"
| "statusString Connected = ''Connected''"
| "statusString Reasserting = ''Reasserting''"
| "statusString Disconnecting = ''Disconnecting''"
| "statusString UnknownStatus = ''Unknown''"

text \<open>
  A connection: the status when it is asked for, the statuses seen by the observer before the
  request (to start or to stop) has returned and after it until the pause is over, and the
  status at the end.
\<close>

record connection =
  status :: NEVPNStatus
  early_events :: "NEVPNStatus list"
  start_error :: "string option"
  late_events :: "NEVPNStatus list"
  final_status :: NEVPNStatus

text \<open>A manager is one of the tunnel providers, by position, or the shared one.\<close>

datatype manager = TunnelProvider nat | SharedManager

text \<open>The descriptions are loaded twice; \<open>None\<close> if the load fails.\<close>

record ne =
  tunnels_first :: "string option list option"
  shared_first :: "string option option"
  tunnels_second :: "string option list option"
  shared_second :: "string option option"
  connections :: "manager \<Rightarrow> connection"

section \<open>The program\<close>

datatype output_line = Stdout string | Stderr string

record outcome =
  exit_code :: nat
  printed :: "output_line list"

definition fatal :: "output_line list \<Rightarrow> string \<Rightarrow> outcome" where
  "fatal before msg = \<lparr> exit_code = 1, printed = before @ [Stderr (''vpnctl: '' @ msg)] \<rparr>"

definition all_names :: "ne \<Rightarrow> string list" where
  "all_names N =
     (case tunnels_first N of
        None \<Rightarrow> []
      | Some managers \<Rightarrow> map (\<lambda>d. case d of None \<Rightarrow> ''(nil)'' | Some name \<Rightarrow> name) managers) @
     (case shared_first N of
        Some (Some desc) \<Rightarrow> if desc = [] then [] else [desc]
      | _ \<Rightarrow> [])"

fun index_of :: "nat \<Rightarrow> string \<Rightarrow> string option list \<Rightarrow> nat option" where
  "index_of i name [] = None"
| "index_of i name (d # ds) = (if d = Some name then Some i else index_of (Suc i) name ds)"

definition find_manager :: "ne \<Rightarrow> string \<Rightarrow> manager option" where
  "find_manager N targetName =
     (case (case tunnels_second N of None \<Rightarrow> None | Some managers \<Rightarrow> index_of 0 targetName managers) of
        Some i \<Rightarrow> Some (TunnelProvider i)
      | None \<Rightarrow> if shared_second N = Some (Some targetName) then Some SharedManager else None)"

fun comma_joined :: "string list \<Rightarrow> string" where
  "comma_joined [] = []"
| "comma_joined [s] = s"
| "comma_joined (s # ss) = s @ '', '' @ comma_joined ss"

definition not_found :: "ne \<Rightarrow> string \<Rightarrow> string" where
  "not_found N targetName =
     ''VPN '' @ [CHR 0x27] @ targetName @ [CHR 0x27] @ '' not found via NEVPNManager.'' @
     (if all_names N = [] then '' No VPN configurations exist.'' else '' Available: '' @ comma_joined (all_names N))"

text \<open>
  The observer of a start: it ends the process with an exit code, or has seen a connection
  attempt or not.
\<close>

fun observe_start :: "bool \<Rightarrow> NEVPNStatus list \<Rightarrow> output_line list \<times> (nat + bool)" where
  "observe_start sawConnecting [] = ([], Inr sawConnecting)"
| "observe_start sawConnecting (s # ss) =
     (let note = Stderr (''vpnctl: status -> '' @ statusString s);
          continue = (\<lambda>saw. case observe_start saw ss of (out, r) \<Rightarrow> (note # out, r))
      in if s = Connecting \<or> s = Reasserting then continue True
         else if s = Connected then ([note, Stdout ''Connected''], Inl 0)
         else if s = Disconnected then
           (if sawConnecting then ([note, Stderr ''vpnctl: VPN failed (status: Disconnected)''], Inl 1)
            else continue sawConnecting)
         else if s = Invalid then ([note, Stderr ''vpnctl: VPN failed (status: Invalid)''], Inl 1)
         else continue sawConnecting)"

definition start_action :: "connection \<Rightarrow> outcome" where
  "start_action c =
     (case observe_start False (early_events c) of
        (out, Inl code) \<Rightarrow> \<lparr> exit_code = code, printed = out \<rparr>
      | (out, Inr saw) \<Rightarrow>
     case start_error c of
        Some msg \<Rightarrow> fatal out (''startVPNTunnel: '' @ msg)
      | None \<Rightarrow>
     case observe_start saw (late_events c) of
        (out', Inl code) \<Rightarrow> \<lparr> exit_code = code, printed = out @ out' \<rparr>
      | (out', Inr _) \<Rightarrow>
          fatal (out @ out') (''VPN connection timed out (status: '' @ statusString (final_status c) @ '')''))"

text \<open>Each way to the end of a stop prints the same: the observer, the check before, the timeout.\<close>

definition stop_action :: "connection \<Rightarrow> outcome" where
  "stop_action c =
     (let disconnected = \<lparr> exit_code = 0, printed = [Stdout ''Disconnected''] \<rparr>
      in if Disconnected \<in> set (early_events c) then disconnected
         else if status c = Disconnected then disconnected
         else if Disconnected \<in> set (late_events c) then disconnected
         else disconnected)"

definition vpnctl_main :: "string list \<Rightarrow> ne \<Rightarrow> outcome" where
  "vpnctl_main args N =
     (if length args < 2 then fatal [] ''usage: vpnctl {list|start|stop|status} [<vpn-display-name>]''
      else
        let action = args ! 1
        in if action \<noteq> ''list'' \<and> length args \<noteq> 3
           then fatal [] ''usage: vpnctl {start|stop|status} <vpn-display-name>''
           else
        let targetName = (if 3 \<le> length args then args ! 2 else [])
        in if action = ''list'' then
             \<lparr> exit_code = 0,
               printed =
                 (if all_names N = [] then [Stdout ''No VPN configurations found.'']
                  else Stdout ''Available VPN configurations:'' # map (\<lambda>name. Stdout (''  - '' @ name)) (all_names N)) \<rparr>
           else
        case find_manager N targetName of
          None \<Rightarrow> fatal [] (not_found N targetName)
        | Some mgr \<Rightarrow>
            let c = connections N mgr
            in if action = ''status'' then \<lparr> exit_code = 0, printed = [Stdout (statusString (status c))] \<rparr>
               else if action = ''start'' then start_action c
               else if action = ''stop'' then stop_action c
               else fatal [] (''unknown action '' @ [CHR 0x27] @ action @ [CHR 0x27] @
                      [CHR '' '', CHR 0xE2, CHR 0x80, CHR 0x94, CHR '' ''] @ ''use start, stop, or status''))"

section \<open>The view of the agent\<close>

text \<open>\<open>runVpnctl\<close>: the combined output of a run that exits with status 0.\<close>

fun line_text :: "output_line \<Rightarrow> string" where
  "line_text (Stdout s) = s @ [newline]"
| "line_text (Stderr s) = s @ [newline]"

definition runVpnctl :: "ne \<Rightarrow> string \<Rightarrow> string \<Rightarrow> status_cmd" where
  "runVpnctl N action profileName =
     (let r = vpnctl_main [''vpnctl'', action, profileName] N
      in Vpnctl (if exit_code r = 0 then Some (concat (map line_text (printed r))) else None))"

section \<open>Lemmas\<close>

lemma status_graphic: "list_all graphic (statusString s)" "statusString s \<noteq> []"
  by (cases s; simp add: graphic_def char_code_def)+

lemma trim_status: "trim (statusString s @ [newline]) = statusString s"
proof -
  have "graphic (hd (statusString s))" "graphic (last (statusString s))"
    using status_graphic [of s] by (auto simp: list_all_iff)
  then show ?thesis
    using trim_padded [of "[]" "[newline]" "statusString s"] status_graphic(2) [of s] newline_not_graphic by simp
qed

lemma statusString_Connected: "statusString s = ''Connected'' \<longleftrightarrow> s = Connected"
  by (cases s) simp_all

lemma observe_start_append:
  "observe_start saw (xs @ ys) =
     (case observe_start saw xs of
        (out, Inl code) \<Rightarrow> (out, Inl code)
      | (out, Inr saw') \<Rightarrow> (case observe_start saw' ys of (out', r) \<Rightarrow> (out @ out', r)))"
  by (induction xs arbitrary: saw) (simp_all add: Let_def split: prod.splits sum.splits)

text \<open>
  A sequence of statuses connects if it reaches \<open>Connected\<close> before \<open>Invalid\<close> and before a
  \<open>Disconnected\<close> that follows an attempt.
\<close>

definition attempt_failed :: "NEVPNStatus list \<Rightarrow> bool" where
  "attempt_failed ss \<longleftrightarrow> (\<exists>xs c ys zs. ss = xs @ c # ys @ Disconnected # zs \<and> c \<in> {Connecting, Reasserting})"

definition connects :: "NEVPNStatus list \<Rightarrow> bool" where
  "connects ss \<longleftrightarrow> (\<exists>us vs. ss = us @ Connected # vs \<and> Invalid \<notin> set us \<and> \<not> attempt_failed us)"

lemma attempt_failed_Nil [simp]: "\<not> attempt_failed []"
  by (simp add: attempt_failed_def)

lemma attempt_failed_Cons [simp]:
  "attempt_failed (s # ss) \<longleftrightarrow> (s = Connecting \<or> s = Reasserting) \<and> Disconnected \<in> set ss \<or> attempt_failed ss"
proof
  assume "attempt_failed (s # ss)"
  then show "(s = Connecting \<or> s = Reasserting) \<and> Disconnected \<in> set ss \<or> attempt_failed ss"
    by (auto simp: attempt_failed_def Cons_eq_append_conv)
next
  assume "(s = Connecting \<or> s = Reasserting) \<and> Disconnected \<in> set ss \<or> attempt_failed ss"
  then show "attempt_failed (s # ss)"
  proof
    assume a: "(s = Connecting \<or> s = Reasserting) \<and> Disconnected \<in> set ss"
    then obtain ys zs where "ss = ys @ Disconnected # zs" using split_list by fast
    with a have "s # ss = [] @ s # ys @ Disconnected # zs \<and> s \<in> {Connecting, Reasserting}" by auto
    then show ?thesis unfolding attempt_failed_def by blast
  next
    assume "attempt_failed ss"
    then obtain xs c ys zs where "s # ss = (s # xs) @ c # ys @ Disconnected # zs \<and> c \<in> {Connecting, Reasserting}"
      unfolding attempt_failed_def by auto
    then show ?thesis unfolding attempt_failed_def by blast
  qed
qed

lemma observe_start_connects:
  "snd (observe_start saw ss) = Inl 0 \<longleftrightarrow>
     (\<exists>us vs. ss = us @ Connected # vs \<and> Invalid \<notin> set us \<and> \<not> attempt_failed us \<and> (saw \<longrightarrow> Disconnected \<notin> set us))"
  (is "_ \<longleftrightarrow> ?P saw ss")
proof (induction ss arbitrary: saw)
  case (Cons s ss)
  have p: "?P saw (s # ss) \<longleftrightarrow> s = Connected \<or>
      (\<exists>us vs. ss = us @ Connected # vs \<and> Invalid \<notin> set (s # us) \<and> \<not> attempt_failed (s # us) \<and> (saw \<longrightarrow> Disconnected \<notin> set (s # us)))"
    (is "_ \<longleftrightarrow> _ \<or> ?Q")
  proof
    assume "?P saw (s # ss)"
    then obtain us vs where u: "s # ss = us @ Connected # vs" "Invalid \<notin> set us" "\<not> attempt_failed us" "saw \<longrightarrow> Disconnected \<notin> set us"
      by blast
    show "s = Connected \<or> ?Q"
    proof (cases us)
      case Nil
      with u(1) show ?thesis by simp
    next
      case (Cons t ts)
      with u(1) have "t = s" "ss = ts @ Connected # vs" by simp_all
      with u(2-4) Cons show ?thesis by blast
    qed
  next
    assume "s = Connected \<or> ?Q"
    then show "?P saw (s # ss)"
    proof
      assume "s = Connected"
      then have "s # ss = [] @ Connected # ss \<and> Invalid \<notin> set [] \<and> \<not> attempt_failed [] \<and> (saw \<longrightarrow> Disconnected \<notin> set [])" by simp
      then show ?thesis by blast
    next
      assume ?Q
      then show ?thesis by (metis append_Cons)
    qed
  qed
  have "snd (observe_start saw (s # ss)) = Inl 0 \<longleftrightarrow>
      (if s = Connected then True else if s = Invalid then False else if s = Disconnected \<and> saw then False
       else ?P (saw \<or> s = Connecting \<or> s = Reasserting) ss)"
    unfolding Cons.IH [symmetric] by (cases s) (simp_all add: Let_def case_prod_beta)
  also have "\<dots> \<longleftrightarrow> ?P saw (s # ss)" unfolding p by (cases s) auto
  finally show ?case .
qed simp

lemma start_action_exit:
  "exit_code (start_action c) = 0 \<longleftrightarrow> connects (early_events c @ (if start_error c = None then late_events c else []))"
proof -
  have "snd (observe_start False ss) = Inl 0 \<longleftrightarrow> connects ss" for ss
    by (simp add: observe_start_connects connects_def)
  from this [symmetric] show ?thesis
    by (auto simp: start_action_def observe_start_append fatal_def split: prod.splits sum.splits option.splits)
qed

section \<open>Properties\<close>

text \<open>
  C33. The agent finds the VPN connected exactly if the control program finds a
  configuration of that name whose status is connected, and gets an error exactly if there is
  none. A start exits with status 0 exactly if the connection is established before it becomes
  invalid or an attempt fails; a stop does so for every configuration it finds, whether the
  connection ends or not.
\<close>

theorem vpnctl_outcomes:
  "IsConnected (runVpnctl N ''status'' name) =
     map_option (\<lambda>mgr. status (connections N mgr) = Connected) (find_manager N name) \<and>
   (exit_code (vpnctl_main [exe, ''start'', name] N) = 0 \<longleftrightarrow>
     (\<exists>mgr. find_manager N name = Some mgr \<and>
        connects (early_events (connections N mgr) @
          (if start_error (connections N mgr) = None then late_events (connections N mgr) else [])))) \<and>
   (exit_code (vpnctl_main [exe, ''stop'', name] N) = 0 \<longleftrightarrow> find_manager N name \<noteq> None)"
proof -
  have "IsConnected (runVpnctl N ''status'' name) =
      map_option (\<lambda>mgr. status (connections N mgr) = Connected) (find_manager N name)"
    by (simp add: IsConnected_def runVpnctl_def vpnctl_main_def fatal_def trim_status statusString_Connected Let_def
        split: option.split)
  moreover have "exit_code (vpnctl_main [exe, ''start'', name] N) = 0 \<longleftrightarrow>
      (\<exists>mgr. find_manager N name = Some mgr \<and> exit_code (start_action (connections N mgr)) = 0)"
    by (simp add: vpnctl_main_def fatal_def Let_def split: option.split)
  moreover have "exit_code (vpnctl_main [exe, ''stop'', name] N) = 0 \<longleftrightarrow> find_manager N name \<noteq> None"
    by (simp add: vpnctl_main_def fatal_def stop_action_def Let_def split: option.split)
  ultimately show ?thesis by (simp add: start_action_exit)
qed

text \<open>A lookup finds only configurations of the name asked for, and finds one if there is any.\<close>

lemma index_of_Some: "index_of i name ds = Some j \<Longrightarrow> i \<le> j \<and> j - i < length ds \<and> ds ! (j - i) = Some name"
proof (induction i name ds rule: index_of.induct)
  case (2 i name d ds)
  show ?case
  proof (cases "d = Some name")
    case False
    with 2 have "Suc i \<le> j" "j - Suc i < length ds" "ds ! (j - Suc i) = Some name" by simp_all
    moreover from this have "j - i = Suc (j - Suc i)" by simp
    ultimately show ?thesis by simp
  qed (use 2 in auto)
qed simp

lemma index_of_None: "index_of i name ds = None \<longleftrightarrow> Some name \<notin> set ds"
  by (induction i name ds rule: index_of.induct) auto

theorem find_manager_None:
  "find_manager N name = None \<longleftrightarrow>
     (\<forall>ds. tunnels_second N = Some ds \<longrightarrow> Some name \<notin> set ds) \<and> shared_second N \<noteq> Some (Some name)"
  by (cases "tunnels_second N") (auto simp: find_manager_def index_of_None [of 0, symmetric] split: option.split)

end
