(* ===== verification/Spec2Isabelle.thy ===== *)
theory Spec2Isabelle
  imports Prince SipHash UnitTests Translation DevMode Loader Lifecycle DnsServer Xtask MacSetup VpnCtl
begin

text \<open>
  Verification of the prototype network: a NAT66 proxy that gives every domain a synthetic IPv6
  address and every client a virtual address (VIP), and translates between them and the real
  origins in eBPF programs. Paths are below \<open>src/\<close>.

  \<^bold>\<open>The program.\<close>
  A client asks the DNS server (\<open>dns-server\<close>) for a domain. The server resolves it upstream,
  allocates a domain id, records the domain in the Postgres table (\<open>migrations\<close>) and answers
  with the synthetic address of the id. A trigger notifies the daemon (\<open>daemon\<close>), which stores
  the origin under the id in the eBPF map \<open>NAT_MAP\<close>; a periodic resolver keeps origins up to
  date. The client's packets arrive through the tunnel at \<open>tc_ingress\<close> (\<open>ebpf\<close>), which sends
  them to the origin from a proxy-source address that encodes client and domain (\<open>common\<close>). The
  reply passes \<open>xdp_wan\<close>, and \<open>tc_ingress_wan\<close> decodes the address, compares the source with the
  registered origin and redirects the packet into the tunnel. The workspace tool (\<open>xtask\<close>)
  checks configuration files against \<open>contract.toml\<close>, builds the eBPF programs and decodes
  proxy-source addresses. On a client, \<open>macos-agent\<close> installs a VPN profile, points the system at
  the DNS server and waits for the tunnel, whose status it learns from \<open>vpnctl\<close>.

  \<^bold>\<open>Theories and sources.\<close>
  \<^item> \<open>Prelude\<close>: machine integers as words, byte arrays as lists, byte order conversions, the
    locales \<open>inverse_pair\<close> (two functions that undo each other) and \<open>partial_codec\<close>.
  \<^item> \<open>Contract\<close>: \<open>contract.toml\<close> and the checks and constants of \<open>common/build.rs\<close>.
  \<^item> \<open>Prince\<close>, \<open>SipHash\<close>: the two primitives of \<open>common/src/crypto.rs\<close>. \<open>siphash_2_4\<close> calls the hasher
    of a crate, an argument with the law of the locale \<open>sip_hasher\<close>.
  \<^item> \<open>ProxySrc\<close>: \<open>common/src/lib.rs\<close>, with \<open>hash_ctx\<close>: addresses, keys, encoding and decoding.
  \<^item> \<open>UnitTests\<close>: the unit tests of these two files, evaluated on the model.
  \<^item> \<open>Buffers\<close>, \<open>Skb\<close>: byte ranges, the ones' complement sum, and what the programs of
    \<open>ebpf/src/main.rs\<close> share: maps, bounds-checked reads, stores, the checksum update. The kernel
    helpers are the record \<open>kernel\<close>; the locales \<open>bpf_kernel\<close> and \<open>bpf_kernel_live\<close> state what the
    programs rely on (documented behaviour; the second that helpers succeed within bounds).
    \<open>Kernel_Ref\<close> interprets both by concrete helpers.
  \<^item> \<open>Xdp\<close>, \<open>Tc\<close>: \<open>try_xdp_wan\<close>, \<open>try_tc_ingress\<close>, \<open>try_tc_ingress_wan\<close> with their entry points. The
    build feature \<open>dev-mode\<close> is the argument \<open>dev\<close>. \<open>Tc_Correct\<close>, \<open>Nat66\<close>, \<open>Translation\<close> and
    \<open>DevMode\<close> hold the theorems about them.
  \<^item> \<open>RustStr\<close>, \<open>Ipv6Text\<close>: what the programs use of the Rust standard library: integer parsing
    and printing, \<open>str\<close> slices and \<open>trim\<close>, \<open>Display\<close> and \<open>FromStr\<close> of \<open>Ipv6Addr\<close> and \<open>SocketAddr\<close>.
  \<^item> \<open>Database\<close>: \<open>migrations/001_initial.sql\<close> and the queries of \<open>dns-server/src/db.rs\<close> and of the
    daemon. The table is a list of rows, the sequence a counter, the notifications a queue that
    exists while a session listens. A query can fail before or after it takes effect. The
    conversions of type \<open>inet\<close> are the record \<open>pg\<close> with the laws of the locale \<open>inet_text\<close>.
  \<^item> \<open>Dns\<close>: \<open>dns-server/src/handler.rs\<close> and \<open>resolver.rs\<close>. The handler is given as a whole and
    as atomic steps, one for each call it awaits, so that queries interleave. The message
    library is the record \<open>hickory\<close>. \<open>DnsServer\<close>: \<open>dns-server/src/main.rs\<close>, the
    configuration from the environment (\<open>dns_main\<close>) and the receive loop.
  \<^item> \<open>DaemonKey\<close>: key parsing and fingerprint of \<open>daemon/src/main.rs\<close>. \<open>Daemon\<close>: \<open>maps.rs\<close>, \<open>db.rs\<close>
    and \<open>resolver.rs\<close>. \<open>Loader\<close>: \<open>loader.rs\<close> and \<open>main\<close> up to its tasks; the host is the record
    \<open>host_env\<close>. \<open>Lifecycle\<close>: the rest of \<open>main\<close>, with the listener cut at the calls it awaits.
  \<^item> \<open>System\<close>: DNS queries, database, listener, resolver and \<open>NAT_MAP\<close> as one transition system
    (\<open>sys_step\<close>, \<open>sys_reach\<close>) over the operations above.
  \<^item> \<open>Xtask\<close>: \<open>xtask/src/main.rs\<close>; the files and the outputs of \<open>cargo\<close> are the record \<open>workspace\<close>.
  \<^item> \<open>MacAgent\<close>: the commands \<open>start\<close> and \<open>stop\<close> of \<open>macos-agent\<close> with the packages \<open>network\<close>,
    \<open>dns\<close>, \<open>vpn\<close> and \<open>state\<close>; the tools of the system are the record \<open>tools\<close> with the laws of the
    locale \<open>macos_dns\<close>. \<open>MacSetup\<close>: \<open>setup\<close> and \<open>status\<close> with the packages \<open>bundle\<close>, \<open>contract\<close>,
    \<open>pkcs12\<close> and \<open>mobileconfig\<close> and its template; parsers, \<open>openssl\<close> and system calls are the record
    \<open>setup_env\<close>. \<open>Base64\<close>: \<open>base64.StdEncoding\<close> of Go and \<open>wrapBase64\<close>. \<open>VpnCtl\<close>: \<open>vpnctl/main.swift\<close>;
    the answers of the framework are the record \<open>ne\<close>.

  \<^bold>\<open>What is shown.\<close>
  \<^item> End to end (here): a name that was answered leads, once notifications are handled, to the
    recorded origin, and a packet and its reply are translated there and back.
  \<^item> Each direction of the translation: what is rewritten, that a packet is translated or left
    alone, when it is dropped, that checksums stay as valid as they were, and that what reaches
    a client comes from the registered origin. The dev-mode detour, with its limits.
  \<^item> The encoding of proxy-source addresses and its inverse; the ciphers and their inverses. The frozen
    vectors of the unit tests come out on the model.
  \<^item> The control plane: answers do not change, map and table agree up to pending notifications,
    and agree when these are handled; the bulk load refines the table; the server stays within
    its limit, replies and is configured by its environment; start-up fails closed and
    otherwise ends ready; the daemon runs until it is told to stop.
  \<^item> Behaviours that limit these guarantees are theorems of their own: lost notifications, the
    daemon that runs on without its listener, the race of resolver and query, port clashes in dev-mode, MAC addresses read as IPv6, weak keys,
    lenient keys, the address shared by domain 1 and client 1.
  \<^item> The agent: \<open>setup\<close> writes a profile with the certificate and container of the bundle and
    what \<open>start\<close> needs, leaves no private key behind, and does not lose a configuration when it
    fails; \<open>start\<close> and \<open>stop\<close> return and restore the DNS servers, except after a second \<open>start\<close>;
    the agent and \<open>vpnctl\<close> agree on what is connected.
  \<^item> The workspace tool: its exit status tells whether the configuration fits the contract, it
    builds only then, and its decoder inverts the encoding.

  \<^bold>\<open>Bounds.\<close>
  All functions are total. The loops of the ciphers have the fixed rounds of the code. The endless
  loops of listener, supervisor, resolver and server are functions of the finite list of what
  happens to them, or step relations; theorems hold for lists and runs of any length. Packets and
  segments have any length within the buffer. The waits of the agent end after 45 rounds, since
  each takes at least two of the 90 seconds.

  \<^bold>\<open>Not modelled.\<close>
  Logging and tracing; timers and the passing of time (a time-out is an event); the removal of
  the key variables from the environment; timestamps and indexes of the table; the parsing of
  command lines and of TOML, JSON, PEM and X.509, which libraries do; the layout of types in
  memory (one unit test is about it); concurrent access of several CPUs to one map; file modes and
  permissions. Names are ASCII, where \<open>to_lowercase\<close> acts on the letters A to Z.
  \<open>sent\<close> records the datagrams handed to \<open>send_to\<close>, not their delivery. \<open>main.go\<close> and \<open>root.go\<close> of the
  agent register its commands in a library. The shell scripts for client and certificates are
  sequences of calls of operating system tools, and the deployment files are declarative.
\<close>

section \<open>End to end\<close>

text \<open>
  C2. A client with VIP \<open>client_vip_from_id24 c\<close> talks to
  \<open>synthetic_ipv6 d\<close>: its packet leaves the server for the origin of domain \<open>d\<close>; the
  origin's answer, sent back to the source address it saw with the ports swapped, passes the XDP
  filter and is redirected into the tunnel, from the synthetic address the client used to the
  client's own address, with its ports unchanged and its checksum as valid as it was.
\<close>

theorem nat66_round_trip:
  assumes live: "bpf_kernel_live K e" and flow: "l4_flow K s ip pr sport dport" "skb_ok s" and mok: "maps_ok m"
    and addr: "src_addr (pkt s) ip = client_vip_from_id24 c" "dst_addr (pkt s) ip = synthetic_ipv6 d"
    and ids: "c \<le> PROXY_SRC_CLIENT_ID_MAX" "d \<le> PROXY_SRC_DOMAIN_ID_MAX"
    and maps: "NAT_MAP m d = Some n" "active_key m = Some key" "XFRM_IFINDEX m = [idx]" "idx \<noteq> 0"
    and out: "tc_ingress K False m s = (act, m1, s1)"
    and reply: "l4_flow K r 14 pr dport sport" "skb_ok r"
      "src_addr (pkt r) 14 = dst_addr (pkt s1) ip" "dst_addr (pkt r) 14 = src_addr (pkt s1) ip"
  shows "act = TC_ACT_OK \<and> dst_addr (pkt s1) ip = origin_ipv6 n \<and>
    xdp_wan False m1 (pkt r) = (XDP_PASS, m1, pkt r) \<and>
    (\<exists>r'. tc_ingress_wan K False m1 r = (k_redirect K idx 0, r') \<and>
      src_addr (pkt r') 14 = dst_addr (pkt s) ip \<and> dst_addr (pkt r') 14 = src_addr (pkt s) ip \<and>
      l4_source (pkt r') 54 = dport \<and> l4_dest (pkt r') 54 = sport \<and>
      (csum_partial r \<or> l4_csum_valid (length (pkt r) - 54) (pkt r') 14 =
        l4_csum_valid (length (pkt r) - 54) (pkt r) 14))"
proof -
  let ?ctx = "ProxySrcCtx_new sport dport pr"
  obtain px where enc: "encode_proxy_src c d ?ctx key = Some px"
    using ids by (simp add: encode_proxy_src_eq Let_def contract_defs)
  have o: "outgoing m s ip pr sport dport = Some (px, origin_ipv6 n)"
    using maps enc by (simp add: outgoing_def addr domain_id_synthetic)
  have pre: "take 4 (dst_addr (pkt s) ip) = SYNTHETIC_PREFIX" by (simp add: addr prefix_synthetic)
  from bpf_kernel_live.ingress_translates [OF live flow pre mok o, of False] out
  have 1: "act = TC_ACT_OK" "m1 = m" "translated ip pr px (origin_ipv6 n) s s1"
    by (auto simp: select_final_src_prod outer_src_def)
  have s1: "src_addr (pkt s1) ip = px" "dst_addr (pkt s1) ip = origin_ipv6 n"
    using 1(3) maps_ok_nat [OF mok maps(1)] length_encode [OF enc] flow_fits [OF flow]
    by (auto simp: translated_def readdressed_fields)
  have px: "take 4 (dst_addr (pkt r) 14) = PROXY_SRC_PREFIX" using reply(4) s1(1) prefix_encode [OF enc] by simp
  have dec: "decode_proxy_src px ?ctx key = Some (c, d)"
    using ps.dec_enc [where a = "(c, d)"] enc by simp
  have inc: "incoming m r 14 pr dport sport = Some (synthetic_ipv6 d, client_vip_from_id24 c)"
    using maps(1,2) dec reply(3,4) s1 by (simp add: incoming_def)
  have act: "wan_action K m = k_redirect K idx 0"
    using maps(3,4) by (simp add: wan_action_def array_get_def)
  have n: "l4_len pr \<le> length (pkt r) - 54" "14 + 40 + (length (pkt r) - 54) \<le> length (pkt r)"
    using flow_length [OF reply(1,2)] by simp_all
  obtain r' where r': "tc_ingress_wan K False m r = (k_redirect K idx 0, r')"
      "translated 14 pr (synthetic_ipv6 d) (client_vip_from_id24 c) r r'"
      "csum_partial r \<or> csum_eq (l4_sum (length (pkt r) - 54) (pkt r') 14) (l4_sum (length (pkt r) - 54) (pkt r) 14)"
    using bpf_kernel_live.wan_translates [OF live reply(1,2) px mok inc, of False] act n by auto
  have "src_addr (pkt r') 14 = synthetic_ipv6 d" "dst_addr (pkt r') 14 = client_vip_from_id24 c"
    using r'(2) flow_fits [OF reply(1,2)] by (auto simp: translated_def readdressed_fields)
  moreover have "l4_source (pkt r') 54 = dport \<and> l4_dest (pkt r') 54 = sport"
    using r'(2) reply(1) flow_fits [OF reply(1,2)] readdressed_ports [of _ _ _ 14]
    by (auto simp: translated_def l4_flow_def)
  moreover have "xdp_wan False m (pkt r) = (XDP_PASS, m, pkt r)" using px by (simp add: xdp_production)
  ultimately show ?thesis
    using 1 s1(2) r'(1,3) addr csum_eq_cong by (auto simp: l4_csum_valid_def)
qed

theorem nat66_round_trip_witness:
  "\<exists>s1 r'. tc_ingress ref_kernel False sample_maps client_pkt = (TC_ACT_OK, sample_maps, s1) \<and>
     dst_addr (pkt s1) 0 = sample_origin \<and>
     tc_ingress_wan ref_kernel False sample_maps reply_pkt = (k_redirect ref_kernel 5 0, r') \<and>
     src_addr (pkt r') 14 = synthetic_ipv6 7 \<and> dst_addr (pkt r') 14 = client_vip_from_id24 100"
proof -
  obtain s1 where s1: "tc_ingress ref_kernel False sample_maps client_pkt = (TC_ACT_OK, sample_maps, s1)"
      "translated 0 6 sample_proxy sample_origin client_pkt s1"
    using ref.ingress_translates [OF client_flow sample_ok(1) sample_prefixes(1) sample_ok(3) sample_outgoing,
        of False]
    by (auto simp: select_final_src_prod outer_src_def)
  then have a: "src_addr (pkt s1) 0 = sample_proxy" "dst_addr (pkt s1) 0 = sample_origin"
    using flow_fits [OF client_flow sample_ok(1)]
    by (auto simp: translated_def readdressed_fields sample_proxy_def sample_origin_def)
  have "XFRM_IFINDEX sample_maps = [5]" by (simp add: sample_maps_def)
  from nat66_round_trip [OF ref.bpf_kernel_live_axioms client_flow sample_ok(1,3) sample_addrs(1,2) _ _
      sample_nat sample_key this _ s1(1) reply_flow sample_ok(2)]
  show ?thesis using a sample_addrs s1(1) by (auto simp: contract_defs)
qed

section \<open>From a DNS answer to the origin\<close>

lemma allocated_24:
  assumes "allocated n i" "n \<le> 2 ^ 24"
  shows "i \<le> PROXY_SRC_DOMAIN_ID_MAX"
proof -
  obtain k where k: "k < n" "i = word_of_nat k" using assms(1) by (auto simp: allocated_def)
  then have "unat i \<le> k" by (simp add: unat_of_nat)
  then show ?thesis using k(1) assms(2) by (simp add: PROXY_SRC_DOMAIN_ID_MAX_def word_le_nat_alt)
qed

lemma started_maps_ok:
  assumes "maps_inv m0 s" "DEV_WAN_IPV6 m0 = [zero_addr]"
  shows "maps_ok (sys_maps s)" "OBFS_KEYS (sys_maps s) = OBFS_KEYS m0"
proof -
  have e: "sys_maps s = m0 \<lparr> NAT_MAP := NAT_MAP (sys_maps s) \<rparr>" "nat_ok (sys_maps s)"
    using assms(1) by (simp_all only: maps_inv_def)
  show "OBFS_KEYS (sys_maps s) = OBFS_KEYS m0" by (subst e) simp
  have "DEV_WAN_IPV6 (sys_maps s) = [zero_addr]" by (subst e) (simp add: assms(2))
  then show "maps_ok (sys_maps s)" using e(2) by (auto simp: maps_ok_def nat_ok_def zero_addr_def)
qed

text \<open>
  C1. The whole way: the daemon has started and its listener is connected; the DNS
  server, the resolver and the listener have run in any order without being disturbed; a query
  for a domain has been answered with an address. Then, once the listener has handled the
  notifications in its queue, a packet of any client to that address leaves the server for the
  origin that the database has for this domain.
\<close>

theorem dns_to_origin:
  assumes pg: "inet_text p" and d0: "db_ok d0" and start: "daemon_start p e False d0 = Some (Inr m0)"
    and reach: "sys_reach p undisturbed
      (sys_step p Listen \<lparr> sys_db = d0, sys_maps = m0, tasks = [], resolving = None \<rparr>) s"
    and ans: "answered s dname a" and few: "domain_id_seq (sys_db s) \<le> 2 ^ 24"
    and live: "bpf_kernel_live K u" and flow: "l4_flow K k ip pr sport dport" "skb_ok k"
    and addr: "src_addr (pkt k) ip = client_vip_from_id24 c" "dst_addr (pkt k) ip = a"
    and c: "c \<le> PROXY_SRC_CLIENT_ID_MAX"
  shows "\<exists>n r k'. row_of (sys_db s) dname = Some r \<and>
    tc_ingress K False (sys_maps (drain p n s)) k = (TC_ACT_OK, sys_maps (drain p n s), k') \<and>
    dst_addr (pkt k') ip = row_origin r"
proof -
  let ?s0 = "sys_step p Listen \<lparr> sys_db = d0, sys_maps = m0, tasks = [], resolving = None \<rparr>"
  obtain hex key idx prev where m0: "parse_proxy_key_hex hex = Inr key"
    "m0 = initial_maps \<lparr> NAT_MAP := nat_of_db d0, XFRM_IFINDEX := [idx], OBFS_KEYS := [key, prev], DEV_WAN_IPV6 := [zero_addr] \<rparr>"
    using daemon_started [OF pg d0 start] by auto
  have ready: "ready ?s0" by (rule listening_after_start [OF d0]) (simp add: m0(2))
  then have s: "sys_ok s" "synced s" using inet_text.synced_reach [OF pg reach] ready_ok by auto
  then obtain q where q: "domain_changes (sys_db s) = Some q" by (auto simp: synced_def)
  define t where "t = drain p (length q) s"
  have t: "synced t" "domain_changes (sys_db t) = Some []" "domains (sys_db t) = domains (sys_db s)"
    using inet_text.drain_empties [OF pg s q] by (simp_all add: t_def)
  obtain r where r: "row_of (sys_db s) dname = Some r" "r \<in> set (domains (sys_db s))" "a = synthetic_ipv6 (row_domain_id r)"
    using answered_row [OF s(1) ans] by blast
  have nat: "NAT_MAP (sys_maps t) (row_domain_id r) = Some \<lparr> origin_ipv6 = row_origin r \<rparr>"
    using synced_empty_queue [OF t(1,2)] t(3) r(2) by (simp add: in_sync_def)
  have "nat_ok m0" using d0 by (auto simp: m0(2) nat_ok_def nat_of_db_def db_ok_origin dest!: row_by_id_Some)
  then have "maps_inv m0 ?s0" by (simp add: maps_inv_def sys_step_def set_queue_def m0(2) initial_maps_def)
  then have inv: "maps_inv m0 t" using sys_reach_maps [OF reach] drain_maps by (simp add: t_def)
  have mt: "maps_ok (sys_maps t)" "active_key (sys_maps t) = Some key"
    using started_maps_ok [OF inv] active_key_parsed [OF m0(1)] by (simp_all add: m0(2))
  have row: "row_ok (domain_id_seq (sys_db s)) r" using s(1) r(2) db_ok_row by (simp add: sys_ok_def)
  then have "row_domain_id r \<le> PROXY_SRC_DOMAIN_ID_MAX" using allocated_24 [OF _ few] by (simp add: row_ok_def)
  then obtain px where px: "encode_proxy_src c (row_domain_id r) (ProxySrcCtx_new sport dport pr) key = Some px"
    using c by (simp add: encode_proxy_src_eq Let_def contract_defs)
  have o: "outgoing (sys_maps t) k ip pr sport dport = Some (px, row_origin r)"
    using nat mt(2) px r(3) by (simp add: outgoing_def addr domain_id_synthetic)
  have pre: "take 4 (dst_addr (pkt k) ip) = SYNTHETIC_PREFIX" by (simp add: addr r(3) prefix_synthetic)
  obtain k' where k': "tc_ingress K False (sys_maps t) k = (TC_ACT_OK, sys_maps t, k')" "translated ip pr px (row_origin r) k k'"
    using bpf_kernel_live.ingress_translates [OF live flow pre mt(1) o, of False]
    by (auto simp: select_final_src_prod outer_src_def)
  have "length (row_origin r) = 16" using row by (simp add: row_ok_def)
  then have "dst_addr (pkt k') ip = row_origin r"
    using k'(2) length_encode [OF px] flow_fits [OF flow] by (auto simp: translated_def readdressed_fields)
  then show ?thesis using r(1) k'(1) unfolding t_def by blast
qed

text \<open>A packet of client 100 to the first synthetic address.\<close>

definition first_pkt :: skb where
  "first_pkt = sample_tcp [] (client_vip_from_id24 100) (synthetic_ipv6 1) [0xC3, 0x50, 0x01, 0xBB] [0, 0]"

lemma first_address: "synthetic_ipv6 1 = [0xfd, 0, 0xab, 0xcd, 0, 0, 0, 1, 0, 0, 0, 0, 0, 0, 0, 1]"
  by (simp add: synthetic_ipv6_def contract_defs to_be_bytes_def upt_rec)

lemma first_flow: "l4_flow ref_kernel first_pkt 0 6 50000 443" "skb_ok first_pkt"
  "src_addr (pkt first_pkt) 0 = client_vip_from_id24 100" "dst_addr (pkt first_pkt) 0 = synthetic_ipv6 1"
  by (simp_all add: first_pkt_def first_address skb_ok_def sample_eval)

theorem dns_to_origin_witness:
  "\<exists>n k'. tc_ingress ref_kernel False
      (sys_maps (drain std_pg n (run std_pg (first_query ''a.org'' sample_origin) (listening_system good_maps)))) first_pkt =
     (TC_ACT_OK, sys_maps (drain std_pg n (run std_pg (first_query ''a.org'' sample_origin) (listening_system good_maps))), k') \<and>
   dst_addr (pkt k') 0 = sample_origin"
proof -
  let ?s = "run std_pg (first_query ''a.org'' sample_origin) (listening_system good_maps)"
  have len: "length sample_origin = 16" by (simp add: sample_origin_def)
  have "sys_step std_pg Listen \<lparr> sys_db = initial_db, sys_maps = good_maps, tasks = [], resolving = None \<rparr> = listening_system good_maps"
    by (simp add: sys_step_def listening_system_def initial_system_def)
  then have reach: "sys_reach std_pg undisturbed
      (sys_step std_pg Listen \<lparr> sys_db = initial_db, sys_maps = good_maps, tasks = [], resolving = None \<rparr>) ?s"
    using run_reach [OF std.run_first_ok [OF len] sys_reach.refl] by simp
  have s: "answered ?s ''a.org'' (synthetic_ipv6 1)" "domain_id_seq (sys_db ?s) \<le> 2 ^ 24"
    "row_of (sys_db ?s) ''a.org'' = Some (first_row ''a.org'' sample_origin)"
    by (simp_all add: std.run_first [OF len] answered_def row_of_def first_row_def)
  have "(100 :: u32) \<le> PROXY_SRC_CLIENT_ID_MAX" by (simp add: contract_defs)
  from dns_to_origin [OF std.inet_text_axioms db_ok_initial good_start reach s(1,2) ref.bpf_kernel_live_axioms first_flow this]
  show ?thesis using s(3) by (auto simp: first_row_def)
qed

end
